theory Spec2Isabelle
  imports Complex_Main
begin

section \<open>Numbers, strings and errors\<close>

text \<open>
  The engine of \<^verbatim>\<open>bp_conversions.py\<close> computes with Python and numpy floats.  They are
  modelled by the reals; a value that is not a finite real number (numpy's NaN and infinity,
  Python's complex result of a negative base under a fractional power) is \<open>None\<close>.
  Rounding and overflow are not modelled.
\<close>

type_synonym flt = "real option"

datatype error =
    InvalidFamily          \<comment> \<open>\<^verbatim>\<open>ValueError("Unknown input_type ...")\<close> of \<^verbatim>\<open>Oil.__init__\<close>\<close>
  | UnsupportedUnit        \<comment> \<open>\<^verbatim>\<open>ValueError("Unsupported from_unit/to_unit ...")\<close>\<close>
  | InvalidCurveInput      \<comment> \<open>\<^verbatim>\<open>PchipInterpolator\<close>: fewer than 2 points, or x not strictly increasing\<close>
  | NonFiniteValue         \<comment> \<open>\<^verbatim>\<open>PchipInterpolator\<close>: a y value that is not a finite real\<close>
  | KeyError               \<comment> \<open>a dictionary read at a missing key\<close>

definition bind_err :: "error + 'a \<Rightarrow> ('a \<Rightarrow> error + 'b) \<Rightarrow> error + 'b" where
  "bind_err m f = (case m of Inl e \<Rightarrow> Inl e | Inr x \<Rightarrow> f x)"

fun mapM_err :: "('a \<Rightarrow> error + 'b) \<Rightarrow> 'a list \<Rightarrow> error + 'b list" where
  "mapM_err f [] = Inr []"
| "mapM_err f (x # xs) =
     bind_err (f x) (\<lambda>y. bind_err (mapM_err f xs) (\<lambda>ys. Inr (y # ys)))"

text \<open>
  A Python \<^verbatim>\<open>str\<close> is the sequence of its Unicode code points.  The literals of the
  program are ASCII and are written \<open>str ''...''\<close>.
\<close>

type_synonym pystr = "nat list"

definition str :: "string \<Rightarrow> pystr" where
  "str s = map of_char s"

text \<open>
  \<^verbatim>\<open>str.upper()\<close> replaces every character by its full upper-case mapping, whatever its
  neighbours are.  The mapping is that of the Unicode Character Database 14.0 (CPython 3.11).
  An entry \<open>(lo, hi, step, target)\<close> of \<open>upper_runs\<close> maps the code points
  \<open>lo, lo + step, ..., hi\<close> to \<open>target, target + step, ...\<close>; \<open>upper_special\<close> lists the
  characters whose upper-case form has more than one character.  Every other code point is
  kept.  Besides a-z, the characters with an ASCII letter in their upper-case form are
  U+0131 (dotless i, to I), U+017F (long s, to S), U+00DF (sharp s, to SS), U+0149, U+01F0,
  U+1E96 to U+1E9A and the ligatures U+FB00 to U+FB06.
\<close>

definition upper_runs :: "(nat \<times> nat \<times> nat \<times> nat) list" where
  "upper_runs =
     [(0x61, 0x7A, 1, 0x41), (0xB5, 0xB5, 1, 0x39C), (0xE0, 0xF6, 1, 0xC0),
      (0xF8, 0xFE, 1, 0xD8), (0xFF, 0xFF, 1, 0x178), (0x101, 0x12F, 2, 0x100),
      (0x131, 0x131, 1, 0x49), (0x133, 0x137, 2, 0x132), (0x13A, 0x148, 2, 0x139),
      (0x14B, 0x177, 2, 0x14A), (0x17A, 0x17E, 2, 0x179), (0x17F, 0x17F, 1, 0x53),
      (0x180, 0x180, 1, 0x243), (0x183, 0x185, 2, 0x182), (0x188, 0x188, 1, 0x187),
      (0x18C, 0x18C, 1, 0x18B), (0x192, 0x192, 1, 0x191), (0x195, 0x195, 1, 0x1F6),
      (0x199, 0x199, 1, 0x198), (0x19A, 0x19A, 1, 0x23D), (0x19E, 0x19E, 1, 0x220),
      (0x1A1, 0x1A5, 2, 0x1A0), (0x1A8, 0x1A8, 1, 0x1A7), (0x1AD, 0x1AD, 1, 0x1AC),
      (0x1B0, 0x1B0, 1, 0x1AF), (0x1B4, 0x1B6, 2, 0x1B3), (0x1B9, 0x1B9, 1, 0x1B8),
      (0x1BD, 0x1BD, 1, 0x1BC), (0x1BF, 0x1BF, 1, 0x1F7), (0x1C5, 0x1C5, 1, 0x1C4),
      (0x1C6, 0x1C6, 1, 0x1C4), (0x1C8, 0x1C8, 1, 0x1C7), (0x1C9, 0x1C9, 1, 0x1C7),
      (0x1CB, 0x1CB, 1, 0x1CA), (0x1CC, 0x1CC, 1, 0x1CA), (0x1CE, 0x1DC, 2, 0x1CD),
      (0x1DD, 0x1DD, 1, 0x18E), (0x1DF, 0x1EF, 2, 0x1DE), (0x1F2, 0x1F2, 1, 0x1F1),
      (0x1F3, 0x1F3, 1, 0x1F1), (0x1F5, 0x1F5, 1, 0x1F4), (0x1F9, 0x21F, 2, 0x1F8),
      (0x223, 0x233, 2, 0x222), (0x23C, 0x23C, 1, 0x23B), (0x23F, 0x240, 1, 0x2C7E),
      (0x242, 0x242, 1, 0x241), (0x247, 0x24F, 2, 0x246), (0x250, 0x250, 1, 0x2C6F),
      (0x251, 0x251, 1, 0x2C6D), (0x252, 0x252, 1, 0x2C70), (0x253, 0x253, 1, 0x181),
      (0x254, 0x254, 1, 0x186), (0x256, 0x257, 1, 0x189), (0x259, 0x259, 1, 0x18F),
      (0x25B, 0x25B, 1, 0x190), (0x25C, 0x25C, 1, 0xA7AB), (0x260, 0x260, 1, 0x193),
      (0x261, 0x261, 1, 0xA7AC), (0x263, 0x263, 1, 0x194), (0x265, 0x265, 1, 0xA78D),
      (0x266, 0x266, 1, 0xA7AA), (0x268, 0x268, 1, 0x197), (0x269, 0x269, 1, 0x196),
      (0x26A, 0x26A, 1, 0xA7AE), (0x26B, 0x26B, 1, 0x2C62), (0x26C, 0x26C, 1, 0xA7AD),
      (0x26F, 0x26F, 1, 0x19C), (0x271, 0x271, 1, 0x2C6E), (0x272, 0x272, 1, 0x19D),
      (0x275, 0x275, 1, 0x19F), (0x27D, 0x27D, 1, 0x2C64), (0x280, 0x280, 1, 0x1A6),
      (0x282, 0x282, 1, 0xA7C5), (0x283, 0x283, 1, 0x1A9), (0x287, 0x287, 1, 0xA7B1),
      (0x288, 0x288, 1, 0x1AE), (0x289, 0x289, 1, 0x244), (0x28A, 0x28B, 1, 0x1B1),
      (0x28C, 0x28C, 1, 0x245), (0x292, 0x292, 1, 0x1B7), (0x29D, 0x29D, 1, 0xA7B2),
      (0x29E, 0x29E, 1, 0xA7B0), (0x345, 0x345, 1, 0x399), (0x371, 0x373, 2, 0x370),
      (0x377, 0x377, 1, 0x376), (0x37B, 0x37D, 1, 0x3FD), (0x3AC, 0x3AC, 1, 0x386),
      (0x3AD, 0x3AF, 1, 0x388), (0x3B1, 0x3C1, 1, 0x391), (0x3C2, 0x3C2, 1, 0x3A3),
      (0x3C3, 0x3CB, 1, 0x3A3), (0x3CC, 0x3CC, 1, 0x38C), (0x3CD, 0x3CE, 1, 0x38E),
      (0x3D0, 0x3D0, 1, 0x392), (0x3D1, 0x3D1, 1, 0x398), (0x3D5, 0x3D5, 1, 0x3A6),
      (0x3D6, 0x3D6, 1, 0x3A0), (0x3D7, 0x3D7, 1, 0x3CF), (0x3D9, 0x3EF, 2, 0x3D8),
      (0x3F0, 0x3F0, 1, 0x39A), (0x3F1, 0x3F1, 1, 0x3A1), (0x3F2, 0x3F2, 1, 0x3F9),
      (0x3F3, 0x3F3, 1, 0x37F), (0x3F5, 0x3F5, 1, 0x395), (0x3F8, 0x3F8, 1, 0x3F7),
      (0x3FB, 0x3FB, 1, 0x3FA), (0x430, 0x44F, 1, 0x410), (0x450, 0x45F, 1, 0x400),
      (0x461, 0x481, 2, 0x460), (0x48B, 0x4BF, 2, 0x48A), (0x4C2, 0x4CE, 2, 0x4C1),
      (0x4CF, 0x4CF, 1, 0x4C0), (0x4D1, 0x52F, 2, 0x4D0), (0x561, 0x586, 1, 0x531),
      (0x10D0, 0x10FA, 1, 0x1C90), (0x10FD, 0x10FF, 1, 0x1CBD), (0x13F8, 0x13FD, 1, 0x13F0),
      (0x1C80, 0x1C80, 1, 0x412), (0x1C81, 0x1C81, 1, 0x414), (0x1C82, 0x1C82, 1, 0x41E),
      (0x1C83, 0x1C84, 1, 0x421), (0x1C85, 0x1C85, 1, 0x422), (0x1C86, 0x1C86, 1, 0x42A),
      (0x1C87, 0x1C87, 1, 0x462), (0x1C88, 0x1C88, 1, 0xA64A), (0x1D79, 0x1D79, 1, 0xA77D),
      (0x1D7D, 0x1D7D, 1, 0x2C63), (0x1D8E, 0x1D8E, 1, 0xA7C6), (0x1E01, 0x1E95, 2, 0x1E00),
      (0x1E9B, 0x1E9B, 1, 0x1E60), (0x1EA1, 0x1EFF, 2, 0x1EA0), (0x1F00, 0x1F07, 1, 0x1F08),
      (0x1F10, 0x1F15, 1, 0x1F18), (0x1F20, 0x1F27, 1, 0x1F28), (0x1F30, 0x1F37, 1, 0x1F38),
      (0x1F40, 0x1F45, 1, 0x1F48), (0x1F51, 0x1F57, 2, 0x1F59), (0x1F60, 0x1F67, 1, 0x1F68),
      (0x1F70, 0x1F71, 1, 0x1FBA), (0x1F72, 0x1F75, 1, 0x1FC8), (0x1F76, 0x1F77, 1, 0x1FDA),
      (0x1F78, 0x1F79, 1, 0x1FF8), (0x1F7A, 0x1F7B, 1, 0x1FEA), (0x1F7C, 0x1F7D, 1, 0x1FFA),
      (0x1FB0, 0x1FB1, 1, 0x1FB8), (0x1FBE, 0x1FBE, 1, 0x399), (0x1FD0, 0x1FD1, 1, 0x1FD8),
      (0x1FE0, 0x1FE1, 1, 0x1FE8), (0x1FE5, 0x1FE5, 1, 0x1FEC), (0x214E, 0x214E, 1, 0x2132),
      (0x2170, 0x217F, 1, 0x2160), (0x2184, 0x2184, 1, 0x2183), (0x24D0, 0x24E9, 1, 0x24B6),
      (0x2C30, 0x2C5F, 1, 0x2C00), (0x2C61, 0x2C61, 1, 0x2C60), (0x2C65, 0x2C65, 1, 0x23A),
      (0x2C66, 0x2C66, 1, 0x23E), (0x2C68, 0x2C6C, 2, 0x2C67), (0x2C73, 0x2C73, 1, 0x2C72),
      (0x2C76, 0x2C76, 1, 0x2C75), (0x2C81, 0x2CE3, 2, 0x2C80), (0x2CEC, 0x2CEE, 2, 0x2CEB),
      (0x2CF3, 0x2CF3, 1, 0x2CF2), (0x2D00, 0x2D25, 1, 0x10A0), (0x2D27, 0x2D27, 1, 0x10C7),
      (0x2D2D, 0x2D2D, 1, 0x10CD), (0xA641, 0xA66D, 2, 0xA640), (0xA681, 0xA69B, 2, 0xA680),
      (0xA723, 0xA72F, 2, 0xA722), (0xA733, 0xA76F, 2, 0xA732), (0xA77A, 0xA77C, 2, 0xA779),
      (0xA77F, 0xA787, 2, 0xA77E), (0xA78C, 0xA78C, 1, 0xA78B), (0xA791, 0xA793, 2, 0xA790),
      (0xA794, 0xA794, 1, 0xA7C4), (0xA797, 0xA7A9, 2, 0xA796), (0xA7B5, 0xA7C3, 2, 0xA7B4),
      (0xA7C8, 0xA7CA, 2, 0xA7C7), (0xA7D1, 0xA7D1, 1, 0xA7D0), (0xA7D7, 0xA7D9, 2, 0xA7D6),
      (0xA7F6, 0xA7F6, 1, 0xA7F5), (0xAB53, 0xAB53, 1, 0xA7B3), (0xAB70, 0xABBF, 1, 0x13A0),
      (0xFF41, 0xFF5A, 1, 0xFF21), (0x10428, 0x1044F, 1, 0x10400),
      (0x104D8, 0x104FB, 1, 0x104B0), (0x10597, 0x105BB, 2, 0x10570),
      (0x10598, 0x105A0, 2, 0x10571), (0x105A4, 0x105B0, 2, 0x1057D),
      (0x105B4, 0x105B8, 2, 0x1058D), (0x105BC, 0x105BC, 1, 0x10595),
      (0x10CC0, 0x10CF2, 1, 0x10C80), (0x118C0, 0x118DF, 1, 0x118A0),
      (0x16E60, 0x16E7F, 1, 0x16E40), (0x1E922, 0x1E943, 1, 0x1E900)]"

definition upper_special :: "(nat \<times> nat list) list" where
  "upper_special =
     [(0xDF, [0x53, 0x53]), (0x149, [0x2BC, 0x4E]), (0x1F0, [0x4A, 0x30C]),
      (0x390, [0x399, 0x308, 0x301]), (0x3B0, [0x3A5, 0x308, 0x301]), (0x587, [0x535, 0x552]),
      (0x1E96, [0x48, 0x331]), (0x1E97, [0x54, 0x308]), (0x1E98, [0x57, 0x30A]),
      (0x1E99, [0x59, 0x30A]), (0x1E9A, [0x41, 0x2BE]), (0x1F50, [0x3A5, 0x313]),
      (0x1F52, [0x3A5, 0x313, 0x300]), (0x1F54, [0x3A5, 0x313, 0x301]),
      (0x1F56, [0x3A5, 0x313, 0x342]), (0x1F80, [0x1F08, 0x399]), (0x1F81, [0x1F09, 0x399]),
      (0x1F82, [0x1F0A, 0x399]), (0x1F83, [0x1F0B, 0x399]), (0x1F84, [0x1F0C, 0x399]),
      (0x1F85, [0x1F0D, 0x399]), (0x1F86, [0x1F0E, 0x399]), (0x1F87, [0x1F0F, 0x399]),
      (0x1F88, [0x1F08, 0x399]), (0x1F89, [0x1F09, 0x399]), (0x1F8A, [0x1F0A, 0x399]),
      (0x1F8B, [0x1F0B, 0x399]), (0x1F8C, [0x1F0C, 0x399]), (0x1F8D, [0x1F0D, 0x399]),
      (0x1F8E, [0x1F0E, 0x399]), (0x1F8F, [0x1F0F, 0x399]), (0x1F90, [0x1F28, 0x399]),
      (0x1F91, [0x1F29, 0x399]), (0x1F92, [0x1F2A, 0x399]), (0x1F93, [0x1F2B, 0x399]),
      (0x1F94, [0x1F2C, 0x399]), (0x1F95, [0x1F2D, 0x399]), (0x1F96, [0x1F2E, 0x399]),
      (0x1F97, [0x1F2F, 0x399]), (0x1F98, [0x1F28, 0x399]), (0x1F99, [0x1F29, 0x399]),
      (0x1F9A, [0x1F2A, 0x399]), (0x1F9B, [0x1F2B, 0x399]), (0x1F9C, [0x1F2C, 0x399]),
      (0x1F9D, [0x1F2D, 0x399]), (0x1F9E, [0x1F2E, 0x399]), (0x1F9F, [0x1F2F, 0x399]),
      (0x1FA0, [0x1F68, 0x399]), (0x1FA1, [0x1F69, 0x399]), (0x1FA2, [0x1F6A, 0x399]),
      (0x1FA3, [0x1F6B, 0x399]), (0x1FA4, [0x1F6C, 0x399]), (0x1FA5, [0x1F6D, 0x399]),
      (0x1FA6, [0x1F6E, 0x399]), (0x1FA7, [0x1F6F, 0x399]), (0x1FA8, [0x1F68, 0x399]),
      (0x1FA9, [0x1F69, 0x399]), (0x1FAA, [0x1F6A, 0x399]), (0x1FAB, [0x1F6B, 0x399]),
      (0x1FAC, [0x1F6C, 0x399]), (0x1FAD, [0x1F6D, 0x399]), (0x1FAE, [0x1F6E, 0x399]),
      (0x1FAF, [0x1F6F, 0x399]), (0x1FB2, [0x1FBA, 0x399]), (0x1FB3, [0x391, 0x399]),
      (0x1FB4, [0x386, 0x399]), (0x1FB6, [0x391, 0x342]), (0x1FB7, [0x391, 0x342, 0x399]),
      (0x1FBC, [0x391, 0x399]), (0x1FC2, [0x1FCA, 0x399]), (0x1FC3, [0x397, 0x399]),
      (0x1FC4, [0x389, 0x399]), (0x1FC6, [0x397, 0x342]), (0x1FC7, [0x397, 0x342, 0x399]),
      (0x1FCC, [0x397, 0x399]), (0x1FD2, [0x399, 0x308, 0x300]), (0x1FD3, [0x399, 0x308, 0x301]),
      (0x1FD6, [0x399, 0x342]), (0x1FD7, [0x399, 0x308, 0x342]), (0x1FE2, [0x3A5, 0x308, 0x300]),
      (0x1FE3, [0x3A5, 0x308, 0x301]), (0x1FE4, [0x3A1, 0x313]), (0x1FE6, [0x3A5, 0x342]),
      (0x1FE7, [0x3A5, 0x308, 0x342]), (0x1FF2, [0x1FFA, 0x399]), (0x1FF3, [0x3A9, 0x399]),
      (0x1FF4, [0x38F, 0x399]), (0x1FF6, [0x3A9, 0x342]), (0x1FF7, [0x3A9, 0x342, 0x399]),
      (0x1FFC, [0x3A9, 0x399]), (0xFB00, [0x46, 0x46]), (0xFB01, [0x46, 0x49]),
      (0xFB02, [0x46, 0x4C]), (0xFB03, [0x46, 0x46, 0x49]), (0xFB04, [0x46, 0x46, 0x4C]),
      (0xFB05, [0x53, 0x54]), (0xFB06, [0x53, 0x54]), (0xFB13, [0x544, 0x546]),
      (0xFB14, [0x544, 0x535]), (0xFB15, [0x544, 0x53B]), (0xFB16, [0x54E, 0x546]),
      (0xFB17, [0x544, 0x53D])]"

definition upper_cp :: "nat \<Rightarrow> nat list" where
  "upper_cp c =
     (case map_of upper_special c of
        Some u \<Rightarrow> u
      | None \<Rightarrow>
          (case find (\<lambda>(lo, hi, step, target). lo \<le> c \<and> c \<le> hi \<and> (c - lo) mod step = 0)
                  upper_runs of
             Some (lo, hi, step, target) \<Rightarrow> [target + (c - lo)]
           | None \<Rightarrow> [c]))"

definition upper :: "pystr \<Rightarrow> pystr" where
  "upper s = concat (map upper_cp s)"

text \<open>
  \<^verbatim>\<open>x ** b\<close> for the exponents of this program, none of which is an integer: a negative
  base gives no finite real.
\<close>

fun py_pow :: "flt \<Rightarrow> real \<Rightarrow> flt" where
  "py_pow None b = None"
| "py_pow (Some x) b = (if x < 0 then None else Some (x powr b))"

section \<open>Temperature unit converter\<close>

definition degree_sign :: pystr where
  "degree_sign = [0xB0]"

definition unit_map :: "(pystr \<times> pystr) list" where
  "unit_map =
     [(str ''C'', str ''C''), (degree_sign @ str ''C'', str ''C''),
      (str ''CELSIUS'', str ''C''), (str ''DEG C'', str ''C''),
      (str ''K'', str ''K''), (str ''KELVIN'', str ''K''),
      (str ''F'', str ''F''), (degree_sign @ str ''F'', str ''F''),
      (str ''FAHRENHEIT'', str ''F''),
      (str ''R'', str ''R''), (degree_sign @ str ''R'', str ''R''),
      (str ''RANKINE'', str ''R'')]"

definition convert_temperature :: "flt \<Rightarrow> pystr \<Rightarrow> pystr \<Rightarrow> error + flt" where
  "convert_temperature val from_unit to_unit =
     (case map_of unit_map (upper from_unit) of
        None \<Rightarrow> Inl UnsupportedUnit
      | Some fu \<Rightarrow>
     (case map_of unit_map (upper to_unit) of
        None \<Rightarrow> Inl UnsupportedUnit
      | Some tu \<Rightarrow>
        if fu = tu then Inr val
        else
          bind_err
            (if fu = str ''C'' then Inr val
             else if fu = str ''K'' then Inr (map_option (\<lambda>v. v - 273.15) val)
             else if fu = str ''F'' then Inr (map_option (\<lambda>v. (v - 32) * 5.0 / 9.0) val)
             else if fu = str ''R'' then Inr (map_option (\<lambda>v. (v - 491.67) * 5.0 / 9.0) val)
             else Inl UnsupportedUnit)
            (\<lambda>celsius.
               if tu = str ''C'' then Inr celsius
               else if tu = str ''K'' then Inr (map_option (\<lambda>c. c + 273.15) celsius)
               else if tu = str ''F'' then Inr (map_option (\<lambda>c. c * 9.0 / 5.0 + 32) celsius)
               else if tu = str ''R'' then Inr (map_option (\<lambda>c. (c + 273.15) * 9.0 / 5.0) celsius)
               else Inl UnsupportedUnit)))"

section \<open>Monotonic curve: \<^verbatim>\<open>scipy.interpolate.PchipInterpolator\<close>\<close>

text \<open>
  The interpolator is the library class the engine builds every curve with.  It is modelled
  after scipy's implementation: the input checks of \<^verbatim>\<open>prepare_input\<close>, the derivative
  estimates of \<^verbatim>\<open>PchipInterpolator._find_derivatives\<close> and \<^verbatim>\<open>_edge_case\<close>, the
  coefficients of \<^verbatim>\<open>CubicHermiteSpline\<close>, and the evaluation of \<^verbatim>\<open>PPoly\<close>, which
  extrapolates with the first and last segment's polynomial.
\<close>

record pchip =
  px :: "real list"                               \<comment> \<open>the breakpoints, attribute \<^verbatim>\<open>x\<close>\<close>
  pc :: "(real \<times> real \<times> real \<times> real) list"      \<comment> \<open>per segment, the coefficients of degree 3 down to 0\<close>

fun strictly_increasing :: "real list \<Rightarrow> bool" where
  "strictly_increasing (a # b # xs) = (a < b \<and> strictly_increasing (b # xs))"
| "strictly_increasing xs = True"

definition hk_of :: "real list \<Rightarrow> real list" where
  "hk_of x = map (\<lambda>i. x ! Suc i - x ! i) [0..<length x - 1]"

definition mk_of :: "real list \<Rightarrow> real list \<Rightarrow> real list" where
  "mk_of x y = map (\<lambda>i. (y ! Suc i - y ! i) / (x ! Suc i - x ! i)) [0..<length x - 1]"

definition edge_case :: "real \<Rightarrow> real \<Rightarrow> real \<Rightarrow> real \<Rightarrow> real" where
  "edge_case h0 h1 m0 m1 =
     (let d = ((2 * h0 + h1) * m0 - h0 * m1) / (h0 + h1) in
      if sgn d \<noteq> sgn m0 then 0
      else if sgn m0 \<noteq> sgn m1 \<and> \<bar>d\<bar> > 3 * \<bar>m0\<bar> then 3 * m0
      else d)"

definition interior_derivative :: "real \<Rightarrow> real \<Rightarrow> real \<Rightarrow> real \<Rightarrow> real" where
  "interior_derivative h0 h1 m0 m1 =
     (let w1 = 2 * h1 + h0; w2 = h1 + 2 * h0 in
      if sgn m1 \<noteq> sgn m0 \<or> m1 = 0 \<or> m0 = 0 then 0
      else 1 / ((w1 / m0 + w2 / m1) / (w1 + w2)))"

definition find_derivatives :: "real list \<Rightarrow> real list \<Rightarrow> real list" where
  "find_derivatives x y =
     (let hk = hk_of x; mk = mk_of x y; n = length y in
      if n = 2 then [mk ! 0, mk ! 0]
      else
        edge_case (hk ! 0) (hk ! 1) (mk ! 0) (mk ! 1)
        # map (\<lambda>i. interior_derivative (hk ! i) (hk ! Suc i) (mk ! i) (mk ! Suc i)) [0..<n - 2]
        @ [edge_case (hk ! (n - 2)) (hk ! (n - 3)) (mk ! (n - 2)) (mk ! (n - 3))])"

definition hermite_tuple ::
  "real \<Rightarrow> real \<Rightarrow> real \<Rightarrow> real \<Rightarrow> real \<Rightarrow> real \<times> real \<times> real \<times> real" where
  \<comment> \<open>the coefficients of one segment of width \<open>dx\<close>, as \<^verbatim>\<open>CubicHermiteSpline\<close> sets them\<close>
  "hermite_tuple dx y0 y1 d0 d1 =
     (let slope = (y1 - y0) / dx; t = (d0 + d1 - 2 * slope) / dx
      in (t / dx, (slope - d0) / dx - t, d0, y0))"

definition hermite_coeffs ::
  "real list \<Rightarrow> real list \<Rightarrow> real list \<Rightarrow> (real \<times> real \<times> real \<times> real) list" where
  "hermite_coeffs x y dydx =
     map (\<lambda>i. hermite_tuple (x ! Suc i - x ! i) (y ! i) (y ! Suc i) (dydx ! i) (dydx ! Suc i))
         [0..<length x - 1]"

definition pchip_of :: "real list \<Rightarrow> real list \<Rightarrow> pchip" where
  \<comment> \<open>the interpolator of checked data\<close>
  "pchip_of x y = \<lparr> px = x, pc = hermite_coeffs x y (find_derivatives x y) \<rparr>"

definition all_finite :: "flt list \<Rightarrow> bool" where
  "all_finite ys = list_all (\<lambda>y. y \<noteq> None) ys"

definition PchipInterpolator :: "real list \<Rightarrow> flt list \<Rightarrow> error + pchip" where
  "PchipInterpolator x y =
     (if length x < 2 then Inl InvalidCurveInput
      else if length x \<noteq> length y then Inl InvalidCurveInput
      else if \<not> all_finite y then Inl NonFiniteValue
      else if \<not> strictly_increasing x then Inl InvalidCurveInput
      else Inr (pchip_of x (map the y)))"

fun find_interval :: "real list \<Rightarrow> real \<Rightarrow> nat" where
  "find_interval (a # b # c # xs) v = (if v < b then 0 else Suc (find_interval (b # c # xs) v))"
| "find_interval xs v = 0"

definition eval_poly :: "real \<times> real \<times> real \<times> real \<Rightarrow> real \<Rightarrow> real" where
  "eval_poly c s = (case c of (c0, c1, c2, c3) \<Rightarrow> c0 * s ^ 3 + c1 * s ^ 2 + c2 * s + c3)"

definition pchip_eval :: "pchip \<Rightarrow> real \<Rightarrow> real" where
  "pchip_eval p v = (let i = find_interval (px p) v in eval_poly (pc p ! i) (v - px p ! i))"

section \<open>The distillation sample: class \<^verbatim>\<open>Oil\<close>\<close>

type_synonym point = "real \<times> flt"

definition lift2 :: "(real \<Rightarrow> real \<Rightarrow> real) \<Rightarrow> flt \<Rightarrow> flt \<Rightarrow> flt" where
  "lift2 f a b = (case a of None \<Rightarrow> None | Some x \<Rightarrow> (case b of None \<Rightarrow> None | Some y \<Rightarrow> Some (f x y)))"

definition dict_get :: "('k \<times> 'v) list \<Rightarrow> 'k \<Rightarrow> error + 'v" where
  "dict_get d k = (case map_of d k of None \<Rightarrow> Inl KeyError | Some v \<Rightarrow> Inr v)"

definition dict_read :: "('k \<rightharpoonup> 'v) \<Rightarrow> 'k \<Rightarrow> error + 'v" where
  "dict_read d k = (case d k of None \<Rightarrow> Inl KeyError | Some v \<Rightarrow> Inr v)"

definition interp_of :: "point list \<Rightarrow> error + pchip" where
  \<comment> \<open>\<^verbatim>\<open>PchipInterpolator([point[0] for point in l], [point[1] for point in l])\<close>\<close>
  "interp_of l = PchipInterpolator (map fst l) (map snd l)"

definition vol_distl_list :: "real list" where
  "vol_distl_list = [0, 10, 30, 50, 70, 90, 95]"

subsection \<open>Correlation tables\<close>

definition API_constants :: "(real \<times> real \<times> real) list" where
  "API_constants =
     [(0, (0.9167, 1.0019)), (10, (0.5277, 1.0900)), (30, (0.7429, 1.0425)),
      (50, (0.8920, 1.0176)), (70, (0.8705, 1.0226)), (90, (0.9490, 1.0110)),
      (95, (0.8008, 1.0355))]"

definition Daubert_constants :: "(nat \<times> real \<times> real) list" where
  "Daubert_constants =
     [(1, (7.4012, 0.6024)), (2, (4.9004, 0.7164)), (3, (3.0305, 0.8008)),
      (4, (0.8718, 1.0258)), (5, (2.5282, 0.8200)), (6, (3.0419, 0.7750)),
      (7, (0.1180, 1.6606))]"

definition riazi_d86_coefficients :: "(real \<times> real \<times> real) list" where
  "riazi_d86_coefficients =
     [(0, (0.9965, 0.9985)), (10, (0.9970, 0.9988)), (30, (0.9975, 0.9990)),
      (50, (0.9977, 0.9992)), (70, (0.9975, 0.9990)), (90, (0.9968, 0.9986)),
      (100, (0.9960, 0.9982))]"

definition riazi_tbp_coefficients :: "(real \<times> real \<times> real) list" where
  "riazi_tbp_coefficients =
     [(0, (1.0010, 1.0005)), (10, (1.0008, 1.0004)), (30, (1.0005, 1.0003)),
      (50, (1.0003, 1.0002)), (70, (1.0005, 1.0003)), (90, (1.0008, 1.0004)),
      (100, (1.0010, 1.0005))]"

subsection \<open>D86 to TBP, API method\<close>

definition API_point :: "pchip \<Rightarrow> real \<Rightarrow> error + point" where
  \<comment> \<open>the body of the loop over \<^verbatim>\<open>vol_distl_list\<close>\<close>
  "API_point D86_interp vol =
     bind_err (dict_get API_constants vol) (\<lambda>(a, b).
     let D86 = pchip_eval D86_interp vol in
     bind_err (convert_temperature (Some D86) (str ''C'') (str ''R'')) (\<lambda>D86_r.
     let TBP_rankin = map_option (\<lambda>p. a * p) (py_pow D86_r b) in
     bind_err (convert_temperature TBP_rankin (str ''R'') (str ''C'')) (\<lambda>TBP.
     Inr (vol, TBP))))"

definition API_D86_TBP :: "point list \<Rightarrow> error + (pchip \<times> pchip)" where
  "API_D86_TBP d86 =
     bind_err (interp_of d86) (\<lambda>D86_interp.
     bind_err (mapM_err (API_point D86_interp) vol_distl_list) (\<lambda>TBP_list.
     bind_err (interp_of TBP_list) (\<lambda>TBP_interp.
     Inr (D86_interp, TBP_interp))))"

subsection \<open>D86 to TBP, Daubert method\<close>

definition dist_required :: "real list" where
  "dist_required = [0, 10, 30, 50, 70, 90, 95]"

definition Daubert_D86_dict_r :: "point list \<Rightarrow> error + (real \<rightharpoonup> flt)" where
  \<comment> \<open>lines 225 to 238: the dictionary \<^verbatim>\<open>D86_dict_r\<close> the formulas read\<close>
  "Daubert_D86_dict_r D86 =
     bind_err (mapM_err (\<lambda>(dist, temp).
                  bind_err (convert_temperature temp (str ''C'') (str ''F'')) (\<lambda>t. Inr (dist, t)))
                (rev D86)) (\<lambda>items.
     let D86_dict_r = map_of items;
         missing_point = list_ex (\<lambda>dist. D86_dict_r dist = None) dist_required
     in if missing_point then
          bind_err (interp_of D86) (\<lambda>D86_r_interp.
          Inr (fold (\<lambda>dist d. d(dist \<mapsto> Some (pchip_eval D86_r_interp dist)))
                 dist_required D86_dict_r))
        else Inr D86_dict_r)"

definition Daubert_power :: "nat \<Rightarrow> flt \<Rightarrow> error + flt" where
  \<comment> \<open>\<^verbatim>\<open>Daubert_constants[i][0] * x ** Daubert_constants[i][1]\<close>\<close>
  "Daubert_power i x =
     bind_err (dict_get Daubert_constants i) (\<lambda>(a, b).
     Inr (map_option (\<lambda>p. a * p) (py_pow x b)))"

definition Daubert_TBP_50 :: "(real \<rightharpoonup> flt) \<Rightarrow> error + flt" where
  \<comment> \<open>line 241: the anchor \<^verbatim>\<open>TBP_50\<close>, in Fahrenheit\<close>
  "Daubert_TBP_50 D86_dict_r =
     bind_err (dict_read D86_dict_r 50) (\<lambda>D50. Daubert_power 4 D50)"

definition Daubert_TBP_r_list :: "(real \<rightharpoonup> flt) \<Rightarrow> error + point list" where
  \<comment> \<open>lines 241 to 261: the anchor, the increments and the list \<^verbatim>\<open>TBP_r_list\<close>\<close>
  "Daubert_TBP_r_list D86_dict_r =
     bind_err (Daubert_TBP_50 D86_dict_r) (\<lambda>TBP_50.
     bind_err (dict_read D86_dict_r 10) (\<lambda>D10.
     bind_err (dict_read D86_dict_r 0) (\<lambda>D0.
     bind_err (dict_read D86_dict_r 30) (\<lambda>D30.
     bind_err (dict_read D86_dict_r 50) (\<lambda>D50.
     bind_err (dict_read D86_dict_r 70) (\<lambda>D70.
     bind_err (dict_read D86_dict_r 90) (\<lambda>D90.
     bind_err (dict_read D86_dict_r 95) (\<lambda>D95.
     let dT1_D86 = lift2 (-) D10 D0;
         dT2_D86 = lift2 (-) D30 D10;
         dT3_D86 = lift2 (-) D50 D30;
         dT5_D86 = lift2 (-) D70 D50;
         dT6_D86 = lift2 (-) D90 D70;
         dT7_D86 = lift2 (-) D95 D90
     in
     bind_err (Daubert_power 1 dT1_D86) (\<lambda>dT1.
     bind_err (Daubert_power 2 dT2_D86) (\<lambda>dT2.
     bind_err (Daubert_power 3 dT3_D86) (\<lambda>dT3.
     bind_err (Daubert_power 5 dT5_D86) (\<lambda>dT5.
     bind_err (Daubert_power 6 dT6_D86) (\<lambda>dT6.
     bind_err (Daubert_power 7 dT7_D86) (\<lambda>dT7.
     let TBP_30 = lift2 (-) TBP_50 dT3;
         TBP_10 = lift2 (-) TBP_30 dT2;
         TBP_0 = lift2 (-) TBP_10 dT1;
         TBP_70 = lift2 (+) TBP_50 dT5;
         TBP_90 = lift2 (+) TBP_70 dT6;
         TBP_95 = lift2 (+) TBP_90 dT7
     in Inr [(0, TBP_0), (10, TBP_10), (30, TBP_30), (50, TBP_50),
             (70, TBP_70), (90, TBP_90), (95, TBP_95)]))))))))))))))"

definition Daubert_ASTM_D86_TBP :: "point list \<Rightarrow> error + pchip" where
  "Daubert_ASTM_D86_TBP D86 =
     bind_err (Daubert_D86_dict_r D86) (\<lambda>D86_dict_r.
     bind_err (Daubert_TBP_r_list D86_dict_r) (\<lambda>TBP_r_list.
     bind_err (mapM_err (\<lambda>(vol, t).
                  bind_err (convert_temperature t (str ''F'') (str ''C'')) (\<lambda>c. Inr (vol, c)))
                TBP_r_list) (\<lambda>TBP_list.
     interp_of TBP_list)))"

subsection \<open>D86 to D2887\<close>

definition key_points :: "real list" where
  "key_points = [0, 10, 30, 50, 70, 90, 100]"

definition D86_to_D2887 :: "point list \<Rightarrow> error + pchip" where
  "D86_to_D2887 D86 =
     bind_err (interp_of D86) (\<lambda>D86_interp.
     let D86_50_C = pchip_eval D86_interp 50 in
     bind_err (convert_temperature (Some D86_50_C) (str ''C'') (str ''F'')) (\<lambda>D86_50_F.
     let SD_50_F = py_pow (map_option (\<lambda>f. f / 0.77601) D86_50_F) (1.0 / 1.0395) in
     bind_err (convert_temperature SD_50_F (str ''F'') (str ''C'')) (\<lambda>SD_50_C.
     bind_err (API_D86_TBP D86) (\<lambda>(_, TBP_interp).
     let D2887_points =
           map (\<lambda>vol.
                  if vol = 50 then (vol, SD_50_C)
                  else let tbp_temp = pchip_eval TBP_interp vol;
                           d86_temp = pchip_eval D86_interp vol;
                           weight_tbp = 0.85
                       in (vol, Some (d86_temp + weight_tbp * (tbp_temp - d86_temp))))
               key_points;
         D2887_list = sort_key fst D2887_points
     in interp_of D2887_list))))"

subsection \<open>D2887 to D86 and to TBP, Riazi power laws\<close>

definition riazi_point :: "(real \<times> real \<times> real) list \<Rightarrow> pchip \<Rightarrow> real \<Rightarrow> error + point" where
  \<comment> \<open>the common body of the loops of \<^verbatim>\<open>D2887_to_D86\<close> and \<^verbatim>\<open>D2887_to_TBP_direct\<close>\<close>
  "riazi_point coefficients D2887_interp vol =
     (let d2887_temp_C = pchip_eval D2887_interp vol;
          d2887_temp_R = d2887_temp_C * 9 / 5 + 491.67
      in bind_err (dict_get coefficients vol) (\<lambda>(a, b).
         let temp_R = map_option (\<lambda>p. a * p) (py_pow (Some d2887_temp_R) b);
             temp_C = map_option (\<lambda>r. (r - 491.67) * 5 / 9) temp_R
         in Inr (vol, temp_C)))"

definition D2887_to_D86 :: "point list \<Rightarrow> error + point list" where
  "D2887_to_D86 D2887 =
     bind_err (interp_of D2887) (\<lambda>D2887_interp.
     bind_err (mapM_err (riazi_point riazi_d86_coefficients D2887_interp) key_points)
       (\<lambda>D86_points.
     Inr (sort_key fst D86_points)))"

definition D2887_to_TBP_direct :: "point list \<Rightarrow> error + pchip" where
  "D2887_to_TBP_direct D2887 =
     bind_err (interp_of D2887) (\<lambda>D2887_interp.
     bind_err (mapM_err (riazi_point riazi_tbp_coefficients D2887_interp) key_points)
       (\<lambda>TBP_points.
     interp_of (sort_key fst TBP_points)))"

definition D2887_to_D2887_interp :: "point list \<Rightarrow> error + pchip" where
  "D2887_to_D2887_interp D2887 = interp_of D2887"

subsection \<open>TBP to D86\<close>

definition TBP_point :: "pchip \<Rightarrow> real \<Rightarrow> error + point" where
  \<comment> \<open>the body of the loop of \<^verbatim>\<open>TBP_to_D86\<close>; the table's \<^verbatim>\<open>get\<close> falls back on the
      constants of key 0\<close>
  "TBP_point TBP_interp vol =
     (case (case map_of API_constants vol of None \<Rightarrow> (0.9167, 1.0019) | Some ab \<Rightarrow> ab) of
        (a, b) \<Rightarrow>
     let TBP_temp = pchip_eval TBP_interp vol in
     bind_err (convert_temperature (Some TBP_temp) (str ''C'') (str ''R'')) (\<lambda>TBP_R.
     let D86_R = py_pow (map_option (\<lambda>r. r / a) TBP_R) (1.0 / b) in
     bind_err (convert_temperature D86_R (str ''R'') (str ''C'')) (\<lambda>D86_C.
     Inr (vol, D86_C))))"

definition TBP_to_D86 :: "point list \<Rightarrow> error + point list" where
  "TBP_to_D86 TBP =
     bind_err (interp_of TBP) (\<lambda>TBP_interp.
     mapM_err (TBP_point TBP_interp) [0, 10, 30, 50, 70, 90, 95, 100])"

definition TBP_to_TBP_interp :: "point list \<Rightarrow> error + pchip" where
  "TBP_to_TBP_interp TBP = interp_of TBP"

subsection \<open>Property calculator\<close>

definition D86_interop_F_of :: "pchip \<Rightarrow> flt list \<Rightarrow> error + pchip" where
  \<comment> \<open>the Fahrenheit interpolator that \<^verbatim>\<open>VABP_\<close> and \<^verbatim>\<open>MeABP_\<close> both build from the
      breakpoints of the D86 interpolator and \<^verbatim>\<open>self.original_temperatures\<close>\<close>
  "D86_interop_F_of D86_interop_C original_temperatures =
     bind_err (mapM_err (\<lambda>temp. convert_temperature temp (str ''C'') (str ''F'')) original_temperatures)
       (\<lambda>temps_F.
     PchipInterpolator (px D86_interop_C) temps_F)"

definition VABP_fn :: "pchip \<Rightarrow> flt list \<Rightarrow> error + real" where
  "VABP_fn D86_interop_C original_temperatures =
     bind_err (D86_interop_F_of D86_interop_C original_temperatures) (\<lambda>D86_interop_F.
     Inr ((pchip_eval D86_interop_F 10 + pchip_eval D86_interop_F 30
           + pchip_eval D86_interop_F 50 + pchip_eval D86_interop_F 70
           + pchip_eval D86_interop_F 90) / 5))"

definition MeABP_fn :: "pchip \<Rightarrow> flt list \<Rightarrow> error + flt" where
  "MeABP_fn D86_interop_C original_temperatures =
     bind_err (VABP_fn D86_interop_C original_temperatures) (\<lambda>VABP_val.
     bind_err (D86_interop_F_of D86_interop_C original_temperatures) (\<lambda>D86_interop_F.
     let SL = (pchip_eval D86_interop_F 90 - pchip_eval D86_interop_F 10) / (90 - 10);
         delta = lift2 (\<lambda>p q. exp (- 0.94402 - 0.00865 * p + 2.99791 * q))
                   (py_pow (Some (VABP_val - 32)) 0.6667) (py_pow (Some SL) 0.333);
         MeABP_val = map_option (\<lambda>d. VABP_val - d) delta
     in Inr MeABP_val))"

definition SG_fn :: "real \<Rightarrow> real" where
  "SG_fn Density = Density / 999.013"

definition WatsonK_fn :: "flt \<Rightarrow> real \<Rightarrow> flt" where
  \<comment> \<open>a division by a zero specific gravity gives numpy's infinity or NaN\<close>
  "WatsonK_fn MeABP_val Density =
     (let SG = SG_fn Density;
          root = py_pow (map_option (\<lambda>m. m + 460) MeABP_val) (1 / 3)
      in if SG = 0 then None else map_option (\<lambda>r. r / SG) root)"

subsection \<open>Construction\<close>

definition Oil_curves ::
  "point list \<Rightarrow> pystr \<Rightarrow> error + (point list \<times> pchip \<times> pchip \<times> pchip \<times> pchip)" where
  \<comment> \<open>the family dispatch of \<^verbatim>\<open>__init__\<close>: the canonical D86 list and the interpolators
      for D86, TBP, Daubert TBP and D2887\<close>
  "Oil_curves distillation_input input_type =
     (if upper input_type = str ''D86'' then
        bind_err (API_D86_TBP distillation_input) (\<lambda>(D86_i, TBP_i).
        bind_err (Daubert_ASTM_D86_TBP distillation_input) (\<lambda>Daubert_i.
        bind_err (D86_to_D2887 distillation_input) (\<lambda>D2887_i.
        Inr (distillation_input, D86_i, TBP_i, Daubert_i, D2887_i))))
      else if upper input_type \<in> set [str ''D2887'', str ''SIMDIS''] then
        bind_err (D2887_to_D86 distillation_input) (\<lambda>d86_data.
        bind_err (API_D86_TBP d86_data) (\<lambda>(D86_i, _).
        bind_err (D2887_to_TBP_direct distillation_input) (\<lambda>TBP_i.
        bind_err (Daubert_ASTM_D86_TBP d86_data) (\<lambda>Daubert_i.
        bind_err (D2887_to_D2887_interp distillation_input) (\<lambda>D2887_i.
        Inr (d86_data, D86_i, TBP_i, Daubert_i, D2887_i))))))
      else if upper input_type = str ''TBP'' then
        bind_err (TBP_to_D86 distillation_input) (\<lambda>d86_data.
        bind_err (API_D86_TBP d86_data) (\<lambda>(D86_i, _).
        bind_err (TBP_to_TBP_interp distillation_input) (\<lambda>TBP_i.
        bind_err (Daubert_ASTM_D86_TBP d86_data) (\<lambda>Daubert_i.
        bind_err (D86_to_D2887 d86_data) (\<lambda>D2887_i.
        Inr (d86_data, D86_i, TBP_i, Daubert_i, D2887_i))))))
      else Inl InvalidFamily)"

record oil =
  Density :: real
  input_type :: pystr
  D86 :: "point list"
  original_temperatures :: "flt list"
  original_volperc_distilled :: "real list"
  D86_interp :: pchip
  TBP_interp :: pchip
  Daubert_TBP_interp :: pchip
  D2887_interp :: pchip
  VABP :: real
  MeABP :: flt
  SG :: real
  WatsonK :: flt

definition lift_points :: "(real \<times> real) list \<Rightarrow> point list" where
  \<comment> \<open>the caller's finite temperatures as float values\<close>
  "lift_points pts = map (\<lambda>(v, t). (v, Some t)) pts"

definition Oil_init :: "(real \<times> real) list \<Rightarrow> real \<Rightarrow> pystr \<Rightarrow> error + oil" where
  "Oil_init distillation_input dens tag =
     bind_err (Oil_curves (lift_points distillation_input) tag)
       (\<lambda>(d86, D86_i, TBP_i, Daubert_i, D2887_i).
     let temps = map snd d86; vols = map fst d86 in
     bind_err (VABP_fn D86_i temps) (\<lambda>VABP_val.
     bind_err (MeABP_fn D86_i temps) (\<lambda>MeABP_val.
     Inr \<lparr> Density = dens, input_type = tag, D86 = d86,
           original_temperatures = temps, original_volperc_distilled = vols,
           D86_interp = D86_i, TBP_interp = TBP_i, Daubert_TBP_interp = Daubert_i,
           D2887_interp = D2887_i, VABP = VABP_val, MeABP = MeABP_val,
           SG = SG_fn dens, WatsonK = WatsonK_fn MeABP_val dens \<rparr>)))"

subsection \<open>Notions used by the statements\<close>

definition recognized_unit :: "pystr \<Rightarrow> bool" where
  \<comment> \<open>the unit string is a key of \<^verbatim>\<open>unit_map\<close> once upper-cased\<close>
  "recognized_unit u = (map_of unit_map (upper u) \<noteq> None)"

definition family_ok :: "error + 'a \<Rightarrow> bool" where
  "family_ok m = (m \<noteq> Inl InvalidFamily)"

definition well_formed_curve :: "point list \<Rightarrow> bool" where
  \<comment> \<open>at least two finite points, strictly increasing in both coordinates\<close>
  "well_formed_curve l =
     (2 \<le> length l \<and> all_finite (map snd l) \<and> strictly_increasing (map fst l)
      \<and> strictly_increasing (map the (map snd l)))"

definition point_at :: "real \<Rightarrow> point \<Rightarrow> bool" where
  \<comment> \<open>a point at volume \<open>x\<close> with a finite temperature\<close>
  "point_at x y = (fst y = x \<and> snd y \<noteq> None)"

definition D86_F :: "oil \<Rightarrow> real \<Rightarrow> real" where
  \<comment> \<open>the D86 curve value at \<open>v\<close>, converted from Celsius to Fahrenheit\<close>
  "D86_F ol v = pchip_eval (D86_interp ol) v * 9 / 5 + 32"

definition riazi_forward_C :: "real \<Rightarrow> real \<Rightarrow> real \<Rightarrow> flt" where
  \<comment> \<open>the forward power law \<open>T'_R = a T_R ^ b\<close> of the Riazi tables, from and to Celsius\<close>
  "riazi_forward_C a b t_C =
     (let T_R = t_C * 9 / 5 + 491.67 in
      if T_R < 0 then None else Some ((a * T_R powr b - 491.67) * 5 / 9))"

definition api_inverse_C :: "real \<Rightarrow> real \<Rightarrow> real \<Rightarrow> flt" where
  \<comment> \<open>the inverse power law \<open>D86_R = (TBP_R / a) ^ (1 / b)\<close> of \<^verbatim>\<open>TBP_to_D86\<close>, from and to
      Celsius\<close>
  "api_inverse_C a b t_C =
     (let T_R = (t_C + 273.15) * 9 / 5 in
      if T_R / a < 0 then None else Some (((T_R / a) powr (1 / b) - 491.67) * 5 / 9))"

definition TBP_test_curve :: "(real \<times> real) list" where
  \<comment> \<open>the TBP curve of \<^verbatim>\<open>test_init_with_tbp\<close>, used there with density 820\<close>
  "TBP_test_curve = [(0, 165), (50, 235), (100, 300)]"


definition D2887_sample :: "(real \<times> real) list" where
  \<comment> \<open>the kerosene/diesel D2887 curve of \<^verbatim>\<open>test_riazi_methods.py\<close>, used there with density 820\<close>
  "D2887_sample =
     [(0, 160.0), (10, 180.5), (30, 205.0), (50, 225.0), (70, 245.0), (90, 270.0), (100, 290.0)]"


section \<open>Strings\<close>

lemma str_eq_iff [simp]: "str a = str b \<longleftrightarrow> a = b"
  unfolding str_def by (rule inj_map_eq_map) (rule inj_of_char)

lemma upper_Nil [simp]: "upper [] = []"
  by (simp add: upper_def)

lemma upper_Cons [simp]: "upper (c # s) = upper_cp c @ upper s"
  by (simp add: upper_def)

lemma upper_cp_ascii:
  "c < 128 \<Longrightarrow> upper_cp c = [if 97 \<le> c \<and> c \<le> 122 then c - 32 else c]"
  by (simp add: upper_cp_def upper_special_def upper_runs_def)

lemma upper_cp_long_s: "upper_cp 0x17F = [83]"
  by (simp add: upper_cp_def upper_special_def upper_runs_def)

lemma upper_cp_dotless_i: "upper_cp 0x131 = [73]"
  by (simp add: upper_cp_def upper_special_def upper_runs_def)

section \<open>Properties of the temperature converter\<close>

lemma unit_map_range:
  "map_of unit_map s = Some u \<Longrightarrow> u = str ''C'' \<or> u = str ''K'' \<or> u = str ''F'' \<or> u = str ''R''"
  by (auto simp: unit_map_def split: if_splits)

lemma convert_temperature_mapped:
  assumes "map_of unit_map (upper A) = Some a" "map_of unit_map (upper B) = Some b"
  shows "convert_temperature v A B =
     (if a = b then Inr v
      else
        bind_err
          (if a = str ''C'' then Inr v
           else if a = str ''K'' then Inr (map_option (\<lambda>v. v - 273.15) v)
           else if a = str ''F'' then Inr (map_option (\<lambda>v. (v - 32) * 5.0 / 9.0) v)
           else if a = str ''R'' then Inr (map_option (\<lambda>v. (v - 491.67) * 5.0 / 9.0) v)
           else Inl UnsupportedUnit)
          (\<lambda>celsius.
             if b = str ''C'' then Inr celsius
             else if b = str ''K'' then Inr (map_option (\<lambda>c. c + 273.15) celsius)
             else if b = str ''F'' then Inr (map_option (\<lambda>c. c * 9.0 / 5.0 + 32) celsius)
             else if b = str ''R'' then Inr (map_option (\<lambda>c. (c + 273.15) * 9.0 / 5.0) celsius)
             else Inl UnsupportedUnit))"
  using assms by (simp add: convert_temperature_def)

lemma convert_units_back:
  assumes "map_of unit_map (upper A) = Some a" "map_of unit_map (upper B) = Some b"
    and "convert_temperature (Some x) A B = Inr (Some y)"
  shows "convert_temperature (Some y) B A = Inr (Some x)"
proof -
  consider "a = str ''C''" | "a = str ''K''" | "a = str ''F''" | "a = str ''R''"
    using unit_map_range[OF assms(1)] by blast
  then show ?thesis
  proof cases
    case 1
    with unit_map_range[OF assms(2)] assms(3) show ?thesis
      unfolding convert_temperature_mapped[OF assms(1,2)] convert_temperature_mapped[OF assms(2,1)]
      by (auto simp: bind_err_def field_simps)
  next
    case 2
    with unit_map_range[OF assms(2)] assms(3) show ?thesis
      unfolding convert_temperature_mapped[OF assms(1,2)] convert_temperature_mapped[OF assms(2,1)]
      by (auto simp: bind_err_def field_simps)
  next
    case 3
    with unit_map_range[OF assms(2)] assms(3) show ?thesis
      unfolding convert_temperature_mapped[OF assms(1,2)] convert_temperature_mapped[OF assms(2,1)]
      by (auto simp: bind_err_def field_simps)
  next
    case 4
    with unit_map_range[OF assms(2)] assms(3) show ?thesis
      unfolding convert_temperature_mapped[OF assms(1,2)] convert_temperature_mapped[OF assms(2,1)]
      by (auto simp: bind_err_def field_simps)
  qed
qed

lemma convert_units_total:
  assumes "map_of unit_map (upper A) = Some a" "map_of unit_map (upper B) = Some b"
  shows "\<exists>y. convert_temperature (Some x) A B = Inr (Some y)"
proof -
  have "case convert_temperature (Some x) A B of Inr (Some y) \<Rightarrow> True | _ \<Rightarrow> False"
    using unit_map_range[OF assms(1)] unit_map_range[OF assms(2)]
    unfolding convert_temperature_mapped[OF assms]
    by (auto simp: bind_err_def)
  then show ?thesis by (auto split: sum.splits option.splits)
qed

text \<open>
  C9. For every real temperature \<open>x\<close> and every pair of recognized unit strings \<open>A\<close>, \<open>B\<close>
  (any alias, any case), converting from \<open>A\<close> to \<open>B\<close> and back succeeds and gives a value
  that differs from \<open>x\<close> by less than 0.01.  Over the reals the round trip is exact.
\<close>

theorem convert_temperature_round_trip:
  assumes "recognized_unit A" "recognized_unit B"
  shows "\<exists>y z. convert_temperature (Some x) A B = Inr (Some y)
           \<and> convert_temperature (Some y) B A = Inr (Some z) \<and> \<bar>z - x\<bar> < 0.01"
proof -
  from assms obtain a b
    where ab: "map_of unit_map (upper A) = Some a" "map_of unit_map (upper B) = Some b"
    by (auto simp: recognized_unit_def)
  from convert_units_total[OF ab, of x] obtain y
    where y: "convert_temperature (Some x) A B = Inr (Some y)" by blast
  from convert_units_back[OF ab y] y show ?thesis by auto
qed

theorem convert_temperature_round_trip_witness:
  "recognized_unit (str ''fahrenheit'') \<and> recognized_unit (str ''R'') \<and>
   (\<exists>y z. convert_temperature (Some 212) (str ''fahrenheit'') (str ''R'') = Inr (Some y)
           \<and> convert_temperature (Some y) (str ''R'') (str ''fahrenheit'') = Inr (Some z)
           \<and> \<bar>z - 212\<bar> < 0.01)"
proof -
  have a: "recognized_unit (str ''fahrenheit'')"
    by (simp add: recognized_unit_def str_def upper_cp_ascii unit_map_def)
  have b: "recognized_unit (str ''R'')"
    by (simp add: recognized_unit_def str_def upper_cp_ascii unit_map_def)
  show ?thesis using a b convert_temperature_round_trip[OF a b, of 212] by simp
qed

lemma convert_C_R [simp]:
  "convert_temperature v (str ''C'') (str ''R'') = Inr (map_option (\<lambda>c. (c + 273.15) * 9 / 5) v)"
  by (simp add: convert_temperature_def unit_map_def str_def upper_cp_ascii bind_err_def)

lemma convert_R_C [simp]:
  "convert_temperature v (str ''R'') (str ''C'') = Inr (map_option (\<lambda>r. (r - 491.67) * 5 / 9) v)"
  by (simp add: convert_temperature_def unit_map_def str_def upper_cp_ascii bind_err_def)

lemma convert_C_F [simp]:
  "convert_temperature v (str ''C'') (str ''F'') = Inr (map_option (\<lambda>c. c * 9 / 5 + 32) v)"
  by (simp add: convert_temperature_def unit_map_def str_def upper_cp_ascii bind_err_def)

lemma convert_F_C [simp]:
  "convert_temperature v (str ''F'') (str ''C'') = Inr (map_option (\<lambda>f. (f - 32) * 5 / 9) v)"
  by (simp add: convert_temperature_def unit_map_def str_def upper_cp_ascii bind_err_def)

text \<open>The unit names are compared after \<^verbatim>\<open>str.upper()\<close>, which maps the long s to S.\<close>

lemma long_s_unit: "recognized_unit (str ''cel'' @ 0x17F # str ''ius'')"
  by (simp add: recognized_unit_def unit_map_def str_def upper_cp_ascii upper_cp_long_s)

section \<open>The family tag\<close>

lemma family_ok_bind [intro!]:
  "family_ok m \<Longrightarrow> (\<And>x. family_ok (f x)) \<Longrightarrow> family_ok (bind_err m f)"
  by (auto simp: family_ok_def bind_err_def split: sum.splits)

lemma family_ok_Inr [simp, intro!]: "family_ok (Inr x)"
  by (simp add: family_ok_def)

lemma family_ok_mapM [intro!]: "(\<And>x. family_ok (f x)) \<Longrightarrow> family_ok (mapM_err f xs)"
  by (induction xs) auto

lemma family_ok_Pchip [intro!, simp]: "family_ok (PchipInterpolator x y)"
  by (simp add: family_ok_def PchipInterpolator_def Let_def)

lemma family_ok_interp_of [intro!, simp]: "family_ok (interp_of l)"
  by (simp add: interp_of_def)

lemma family_ok_dict_get [intro!, simp]: "family_ok (dict_get d k)"
  by (simp add: family_ok_def dict_get_def split: option.splits)

lemma family_ok_dict_read [intro!, simp]: "family_ok (dict_read d k)"
  by (simp add: family_ok_def dict_read_def split: option.splits)

lemma family_ok_API [intro!, simp]: "family_ok (API_D86_TBP l)"
  unfolding API_D86_TBP_def API_point_def
  by (auto simp: Let_def split: prod.splits)

lemma family_ok_Daubert [intro!, simp]: "family_ok (Daubert_ASTM_D86_TBP l)"
  unfolding Daubert_ASTM_D86_TBP_def Daubert_D86_dict_r_def Daubert_TBP_r_list_def
    Daubert_TBP_50_def Daubert_power_def
  by (auto simp: Let_def split: prod.splits)

lemma family_ok_D86_to_D2887 [intro!, simp]: "family_ok (D86_to_D2887 l)"
  unfolding D86_to_D2887_def
  by (auto simp: Let_def split: prod.splits)

lemma family_ok_D2887_to_D86 [intro!, simp]: "family_ok (D2887_to_D86 l)"
  unfolding D2887_to_D86_def riazi_point_def
  by (auto simp: Let_def split: prod.splits)

lemma family_ok_D2887_to_TBP [intro!, simp]: "family_ok (D2887_to_TBP_direct l)"
  unfolding D2887_to_TBP_direct_def riazi_point_def
  by (auto simp: Let_def split: prod.splits)

lemma family_ok_TBP_to_D86 [intro!, simp]: "family_ok (TBP_to_D86 l)"
  unfolding TBP_to_D86_def TBP_point_def
  by (auto simp: Let_def split: prod.splits)

lemma family_ok_VABP [intro!, simp]: "family_ok (VABP_fn p l)"
  unfolding VABP_fn_def D86_interop_F_of_def
  by (auto simp: Let_def split: prod.splits)

lemma family_ok_MeABP [intro!, simp]: "family_ok (MeABP_fn p l)"
  unfolding MeABP_fn_def D86_interop_F_of_def
  by (auto simp: Let_def split: prod.splits)

lemma Oil_curves_family:
  "Oil_curves l tag = Inl InvalidFamily
     \<longleftrightarrow> upper tag \<notin> {str ''D86'', str ''D2887'', str ''SIMDIS'', str ''TBP''}"
proof (cases "upper tag \<in> {str ''D86'', str ''D2887'', str ''SIMDIS'', str ''TBP''}")
  case True
  have "family_ok (Oil_curves l tag)"
    unfolding Oil_curves_def D2887_to_D2887_interp_def TBP_to_TBP_interp_def using True
    by (auto split: prod.splits)
  with True show ?thesis by (simp add: family_ok_def)
next
  case False
  then show ?thesis by (simp add: Oil_curves_def)
qed

lemma Oil_init_family_iff:
  "Oil_init pts d tag = Inl InvalidFamily
     \<longleftrightarrow> upper tag \<notin> {str ''D86'', str ''D2887'', str ''SIMDIS'', str ''TBP''}"
proof -
  have "Oil_init pts d tag = Inl InvalidFamily \<longleftrightarrow>
        Oil_curves (lift_points pts) tag = Inl InvalidFamily"
  proof
    assume "Oil_init pts d tag = Inl InvalidFamily"
    then show "Oil_curves (lift_points pts) tag = Inl InvalidFamily"
      using family_ok_VABP family_ok_MeABP
      by (auto simp: Oil_init_def bind_err_def Let_def family_ok_def
               split: sum.splits prod.splits)
  next
    assume "Oil_curves (lift_points pts) tag = Inl InvalidFamily"
    then show "Oil_init pts d tag = Inl InvalidFamily"
      by (simp add: Oil_init_def bind_err_def)
  qed
  then show ?thesis by (simp add: Oil_curves_family)
qed

section \<open>Properties of the interpolator\<close>

lemma strictly_increasing_sorted_wrt: "strictly_increasing xs = sorted_wrt (<) xs"
  by (induction xs rule: strictly_increasing.induct) (auto intro: order.strict_trans)

lemma strictly_increasing_nth:
  "strictly_increasing xs \<Longrightarrow> i < j \<Longrightarrow> j < length xs \<Longrightarrow> xs ! i < xs ! j"
  by (simp add: strictly_increasing_sorted_wrt sorted_wrt_nth_less)

lemma strictly_increasing_nth_le:
  "strictly_increasing xs \<Longrightarrow> i \<le> j \<Longrightarrow> j < length xs \<Longrightarrow> xs ! i \<le> xs ! j"
  using strictly_increasing_nth[of xs i j] by (cases "i = j") auto

lemma strictly_increasing_iff_nth:
  "strictly_increasing xs \<longleftrightarrow> (\<forall>i. Suc i < length xs \<longrightarrow> xs ! i < xs ! Suc i)"
proof
  assume "strictly_increasing xs"
  then show "\<forall>i. Suc i < length xs \<longrightarrow> xs ! i < xs ! Suc i"
    by (auto intro: strictly_increasing_nth)
next
  assume "\<forall>i. Suc i < length xs \<longrightarrow> xs ! i < xs ! Suc i"
  then show "strictly_increasing xs"
  proof (induction xs rule: strictly_increasing.induct)
    case (1 a b xs)
    have "a < b" using 1(2)[rule_format, of 0] by simp
    moreover have "\<forall>i. Suc i < length (b # xs) \<longrightarrow> (b # xs) ! i < (b # xs) ! Suc i"
      using 1(2) by (metis Suc_less_eq length_Cons nth_Cons_Suc)
    ultimately show ?case using 1(1) by simp
  qed auto
qed

lemma find_interval_less: "2 \<le> length xs \<Longrightarrow> find_interval xs v < length xs - 1"
  by (induction xs v rule: find_interval.induct) auto

lemma find_interval_unique:
  "strictly_increasing xs \<Longrightarrow> Suc i < length xs \<Longrightarrow> xs ! i \<le> v \<Longrightarrow> v < xs ! Suc i
     \<Longrightarrow> find_interval xs v = i"
proof (induction xs v arbitrary: i rule: find_interval.induct)
  case (1 a b c xs v)
  show ?case
  proof (cases "v < b")
    case True
    have "i = 0"
    proof (rule ccontr)
      assume "i \<noteq> 0"
      then have "(a # b # c # xs) ! 1 \<le> (a # b # c # xs) ! i"
        using strictly_increasing_nth_le[OF 1(2), of 1 i] 1(3) by simp
      with True 1(4) show False by simp
    qed
    with True show ?thesis by simp
  next
    case False
    then obtain k where k: "i = Suc k" using 1(5) by (cases i) auto
    have "find_interval (b # c # xs) v = k"
      using 1(1)[OF False, of k] 1(2-5) k by simp
    with False k show ?thesis by simp
  qed
qed simp_all

lemma find_interval_last:
  "strictly_increasing xs \<Longrightarrow> 2 \<le> length xs \<Longrightarrow> last xs \<le> v
     \<Longrightarrow> find_interval xs v = length xs - 2"
proof (induction xs v rule: find_interval.induct)
  case (1 a b c xs v)
  have "\<forall>x \<in> set (c # xs). b < x"
    using 1(2) by (simp add: strictly_increasing_sorted_wrt)
  then have "b < last (c # xs)"
    using last_in_set[of "c # xs"] by blast
  with 1 show ?case by auto
qed auto

lemma find_interval_first:
  "strictly_increasing xs \<Longrightarrow> 2 \<le> length xs \<Longrightarrow> v < xs ! 1 \<Longrightarrow> find_interval xs v = 0"
  by (induction xs v rule: find_interval.induct) auto

text \<open>the segment of a value inside the knot range\<close>
lemma find_interval_bounds:
  assumes "strictly_increasing xs" "2 \<le> length xs" "xs ! 0 \<le> v" "v \<le> last xs"
  shows "xs ! find_interval xs v \<le> v \<and> v \<le> xs ! Suc (find_interval xs v)"
  using assms
proof (induction xs v rule: find_interval.induct)
  case (1 a b c xs v)
  then show ?case by (cases "v < b") auto
qed auto


lemma quad_form_pos:
  fixes a b :: real
  assumes "a \<noteq> 0 \<or> b \<noteq> 0"
  shows "0 < a\<^sup>2 + a * b + b\<^sup>2"
proof -
  have eq: "4 * (a\<^sup>2 + a * b + b\<^sup>2) = (2 * a + b)\<^sup>2 + 3 * b\<^sup>2"
    by (simp add: power2_eq_square algebra_simps)
  have "0 < (2 * a + b)\<^sup>2 + 3 * b\<^sup>2"
  proof (cases "b = 0")
    case True
    with assms have "a \<noteq> 0" by simp
    with True show ?thesis by simp
  next
    case False
    then have "0 < 3 * b\<^sup>2" by simp
    moreover have "0 \<le> (2 * a + b)\<^sup>2" by simp
    ultimately show ?thesis by linarith
  qed
  then have "0 < 4 * (a\<^sup>2 + a * b + b\<^sup>2)" by (simp only: eq)
  then show ?thesis by (simp only: zero_less_mult_iff) simp
qed

text \<open>the divided difference of the normalised Hermite cubic is positive\<close>
lemma hermite_divided_difference_pos:
  fixes m d0 d1 t1 t2 :: real
  assumes m: "0 < m" and d0: "0 \<le> d0" "d0 \<le> 3 * m" and d1: "0 \<le> d1" "d1 \<le> 3 * m"
    and t: "0 \<le> t1" "t1 < t2" "t2 \<le> 1"
  defines "u \<equiv> t1 + t2" and "v \<equiv> t1\<^sup>2 + t1 * t2 + t2\<^sup>2"
  shows "0 < d0 * (1 - 2 * u + v) + d1 * (v - u) + m * (3 * u - 2 * v)"
proof -
  let ?A = "1 - 2 * u + v" and ?B = "v - u" and ?C = "3 * u - 2 * v"
  have A_lo: "d0 * ?A \<ge> (if 0 \<le> ?A then 0 else 3 * m * ?A)"
    using d0 by (auto intro: mult_nonneg_nonneg mult_right_mono_neg)
  have B_lo: "d1 * ?B \<ge> (if 0 \<le> ?B then 0 else 3 * m * ?B)"
    using d1 by (auto intro: mult_nonneg_nonneg mult_right_mono_neg)
  have C_pos: "0 < ?C"
  proof -
    have "?C = t1 * (3 - 2 * t1 - t2) + t2 * (3 - 2 * t2 - t1)"
      by (simp add: u_def v_def power2_eq_square algebra_simps)
    moreover have "0 \<le> t1 * (3 - 2 * t1 - t2)" using t by (intro mult_nonneg_nonneg) auto
    moreover have "0 < t2 * (3 - 2 * t2 - t1)" using t by (intro mult_pos_pos) auto
    ultimately show ?thesis by linarith
  qed
  have CA_pos: "0 < ?C + 3 * ?A"
  proof -
    have "?C + 3 * ?A = (1 - t1)\<^sup>2 + (1 - t1) * (1 - t2) + (1 - t2)\<^sup>2"
      by (simp add: u_def v_def power2_eq_square algebra_simps)
    moreover have "1 - t1 \<noteq> 0 \<or> 1 - t2 \<noteq> 0" using t by auto
    ultimately show ?thesis using quad_form_pos by metis
  qed
  have CB_pos: "0 < ?C + 3 * ?B"
  proof -
    have "?C + 3 * ?B = t1\<^sup>2 + t1 * t2 + t2\<^sup>2"
      by (simp add: u_def v_def power2_eq_square algebra_simps)
    moreover have "t1 \<noteq> 0 \<or> t2 \<noteq> 0" using t by auto
    ultimately show ?thesis using quad_form_pos by metis
  qed
  have CAB_pos: "0 < ?C + 3 * ?A + 3 * ?B"
  proof -
    have "?C + 3 * ?A + 3 * ?B = (2 * t1 - 1)\<^sup>2 + (2 * t1 - 1) * (2 * t2 - 1) + (2 * t2 - 1)\<^sup>2"
      by (simp add: u_def v_def power2_eq_square algebra_simps)
    moreover have "2 * t1 - 1 \<noteq> 0 \<or> 2 * t2 - 1 \<noteq> 0" using t by auto
    ultimately show ?thesis using quad_form_pos by metis
  qed
  have mC: "0 < m * ?C" using m C_pos by simp
  have mCA: "0 < m * (?C + 3 * ?A)" using m CA_pos by simp
  have mCB: "0 < m * (?C + 3 * ?B)" using m CB_pos by simp
  have mCAB: "0 < m * (?C + 3 * ?A + 3 * ?B)" using m CAB_pos by simp
  show ?thesis
  proof (cases "0 \<le> ?A")
    case A: True
    show ?thesis
    proof (cases "0 \<le> ?B")
      case True
      with A A_lo B_lo mC show ?thesis by simp
    next
      case False
      with A A_lo B_lo mCB show ?thesis by (simp add: algebra_simps)
    qed
  next
    case A: False
    show ?thesis
    proof (cases "0 \<le> ?B")
      case True
      with A A_lo B_lo mCA show ?thesis by (simp add: algebra_simps)
    next
      case False
      with A A_lo B_lo mCAB show ?thesis by (simp add: algebra_simps)
    qed
  qed
qed


lemma hermite_tuple_normalised:
  assumes "h \<noteq> 0"
  shows "eval_poly (hermite_tuple h y0 y1 d0 d1) (h * t) =
         y0 + h * (d0 * t + (3 * ((y1 - y0) / h) - 2 * d0 - d1) * t\<^sup>2
                   + (d0 + d1 - 2 * ((y1 - y0) / h)) * t ^ 3)"
  using assms
  by (simp add: eval_poly_def hermite_tuple_def Let_def field_simps power2_eq_square power3_eq_cube)

lemma hermite_tuple_left: "eval_poly (hermite_tuple h y0 y1 d0 d1) 0 = y0"
  by (simp add: eval_poly_def hermite_tuple_def Let_def)

lemma hermite_tuple_right: "h \<noteq> 0 \<Longrightarrow> eval_poly (hermite_tuple h y0 y1 d0 d1) h = y1"
  using hermite_tuple_normalised[of h y0 y1 d0 d1 1] by (simp add: field_simps)

lemma hermite_tuple_increasing:
  assumes h: "0 < h" and y: "y0 < y1"
    and d0: "0 \<le> d0" "d0 \<le> 3 * ((y1 - y0) / h)"
    and d1: "0 \<le> d1" "d1 \<le> 3 * ((y1 - y0) / h)"
    and s: "0 \<le> s1" "s1 < s2" "s2 \<le> h"
  shows "eval_poly (hermite_tuple h y0 y1 d0 d1) s1 < eval_poly (hermite_tuple h y0 y1 d0 d1) s2"
proof -
  define m where "m = (y1 - y0) / h"
  define t1 where "t1 = s1 / h"
  define t2 where "t2 = s2 / h"
  have m: "0 < m" using h y by (simp add: m_def)
  have t: "0 \<le> t1" "t1 < t2" "t2 \<le> 1"
    using h s by (simp_all add: t1_def t2_def divide_strict_right_mono)
  have s_eq: "s1 = h * t1" "s2 = h * t2" using h by (simp_all add: t1_def t2_def)
  let ?Q = "d0 * (1 - 2 * (t1 + t2) + (t1\<^sup>2 + t1 * t2 + t2\<^sup>2))
            + d1 * ((t1\<^sup>2 + t1 * t2 + t2\<^sup>2) - (t1 + t2))
            + m * (3 * (t1 + t2) - 2 * (t1\<^sup>2 + t1 * t2 + t2\<^sup>2))"
  have Q: "0 < ?Q"
    using hermite_divided_difference_pos[OF m d0[folded m_def] d1[folded m_def] t] .
  have diff: "eval_poly (hermite_tuple h y0 y1 d0 d1) s2 - eval_poly (hermite_tuple h y0 y1 d0 d1) s1
        = h * ((t2 - t1) * ?Q)"
    unfolding s_eq using h
    by (simp add: hermite_tuple_normalised m_def[symmetric])
       (simp add: algebra_simps power2_eq_square power3_eq_cube)
  have "0 < h * ((t2 - t1) * ?Q)"
    using h t Q by (intro mult_pos_pos) auto
  with diff show ?thesis by linarith
qed

lemma edge_case_bounds:
  assumes "0 < h0" "0 < h1" "0 < m0" "0 < m1"
  shows "0 \<le> edge_case h0 h1 m0 m1 \<and> edge_case h0 h1 m0 m1 \<le> 3 * m0"
proof -
  define d where "d = ((2 * h0 + h1) * m0 - h0 * m1) / (h0 + h1)"
  have e: "edge_case h0 h1 m0 m1 = (if sgn d \<noteq> 1 then 0 else d)"
    using assms by (simp add: edge_case_def d_def[symmetric] Let_def)
  have "d \<le> 3 * m0"
  proof -
    have "(2 * h0 + h1) * m0 - h0 * m1 \<le> (2 * h0 + h1) * m0" using assms by simp
    also have "\<dots> \<le> 3 * m0 * (h0 + h1)" using assms by (simp add: algebra_simps)
    finally show ?thesis using assms by (simp add: d_def divide_le_eq)
  qed
  moreover have "sgn d = 1 \<Longrightarrow> 0 \<le> d" by (simp add: sgn_1_pos)
  ultimately show ?thesis using assms unfolding e by auto
qed

lemma interior_derivative_bounds:
  assumes "0 < h0" "0 < h1" "0 < m0" "0 < m1"
  shows "0 \<le> interior_derivative h0 h1 m0 m1 \<and> interior_derivative h0 h1 m0 m1 \<le> 3 * m0
         \<and> interior_derivative h0 h1 m0 m1 \<le> 3 * m1"
proof -
  define w1 where "w1 = 2 * h1 + h0"
  define w2 where "w2 = h1 + 2 * h0"
  define D where "D = w1 / m0 + w2 / m1"
  have w: "0 < w1" "0 < w2" "w2 \<le> 2 * w1" "w1 \<le> 2 * w2"
    using assms by (simp_all add: w1_def w2_def)
  have D: "0 < D" using w assms by (simp add: D_def add_pos_pos)
  have e: "interior_derivative h0 h1 m0 m1 = (w1 + w2) / D"
    using assms by (simp add: interior_derivative_def Let_def w1_def w2_def D_def)
  have "w1 + w2 \<le> 3 * w1" using w by simp
  also have "3 * w1 = 3 * m0 * (w1 / m0)" using assms by simp
  also have "\<dots> \<le> 3 * m0 * D"
    using assms w by (intro mult_left_mono) (simp_all add: D_def)
  finally have b0: "(w1 + w2) / D \<le> 3 * m0" using D by (simp add: divide_le_eq)
  have "w1 + w2 \<le> 3 * w2" using w by simp
  also have "3 * w2 = 3 * m1 * (w2 / m1)" using assms by simp
  also have "\<dots> \<le> 3 * m1 * D"
    using assms w by (intro mult_left_mono) (simp_all add: D_def)
  finally have b1: "(w1 + w2) / D \<le> 3 * m1" using D by (simp add: divide_le_eq)
  have "0 \<le> (w1 + w2) / D" using w D by simp
  with b0 b1 show ?thesis unfolding e by simp
qed


lemma hk_of_nth: "i < length x - 1 \<Longrightarrow> hk_of x ! i = x ! Suc i - x ! i"
  by (simp add: hk_of_def)

lemma mk_of_nth: "i < length x - 1 \<Longrightarrow> mk_of x y ! i = (y ! Suc i - y ! i) / (x ! Suc i - x ! i)"
  by (simp add: mk_of_def)

lemma find_derivatives_length: "2 \<le> length y \<Longrightarrow> length (find_derivatives x y) = length y"
  by (auto simp: find_derivatives_def Let_def)

lemma find_derivatives_nth:
  assumes "3 \<le> length y" "k < length y"
  shows "find_derivatives x y ! k =
     (if k = 0 then edge_case (hk_of x ! 0) (hk_of x ! 1) (mk_of x y ! 0) (mk_of x y ! 1)
      else if k = length y - 1 then
        edge_case (hk_of x ! (length y - 2)) (hk_of x ! (length y - 3))
                  (mk_of x y ! (length y - 2)) (mk_of x y ! (length y - 3))
      else interior_derivative (hk_of x ! (k - 1)) (hk_of x ! k)
                               (mk_of x y ! (k - 1)) (mk_of x y ! k))"
  using assms
  by (auto simp: find_derivatives_def Let_def nth_Cons' nth_append)

lemma find_derivatives_bounds:
  assumes len: "length y = length x" "2 \<le> length x"
    and inc: "strictly_increasing x" "strictly_increasing y"
    and i: "i < length x - 1"
  defines "m \<equiv> (y ! Suc i - y ! i) / (x ! Suc i - x ! i)"
  shows "0 \<le> find_derivatives x y ! i \<and> find_derivatives x y ! i \<le> 3 * m
       \<and> 0 \<le> find_derivatives x y ! Suc i \<and> find_derivatives x y ! Suc i \<le> 3 * m"
proof -
  have hpos: "\<And>j. j < length x - 1 \<Longrightarrow> 0 < hk_of x ! j"
    using strictly_increasing_nth[OF inc(1)] by (simp add: hk_of_nth)
  have mpos: "\<And>j. j < length x - 1 \<Longrightarrow> 0 < mk_of x y ! j"
    using strictly_increasing_nth[OF inc(1)] strictly_increasing_nth[OF inc(2)] len
    by (simp add: mk_of_nth)
  have m: "m = mk_of x y ! i" using i by (simp add: m_def mk_of_nth)
  show ?thesis
  proof (cases "length y = 2")
    case True
    with len i have "i = 0" by simp
    with True len mpos[of 0] show ?thesis
      by (simp add: find_derivatives_def Let_def m)
  next
    case False
    with len have n3: "3 \<le> length y" by simp
    have r0: "0 < length x - 1" and r1: "1 < length x - 1"
      and rl: "length y - 2 < length x - 1" and rl': "length y - 3 < length x - 1"
      using n3 len by simp_all
    have lo: "0 \<le> find_derivatives x y ! i \<and> find_derivatives x y ! i \<le> 3 * m"
    proof (cases "i = 0")
      case True
      have l0: "0 < length y" using n3 by linarith
      from edge_case_bounds[OF hpos[OF r0] hpos[OF r1] mpos[OF r0] mpos[OF r1]] True
      show ?thesis by (simp add: find_derivatives_nth[OF n3 l0] m)
    next
      case False
      then have ri: "i - 1 < length x - 1" and ne: "i \<noteq> length y - 1" and il: "i < length y"
        using i len by simp_all
      from interior_derivative_bounds[OF hpos[OF ri] hpos[OF i] mpos[OF ri] mpos[OF i]] False ne
      show ?thesis by (simp add: find_derivatives_nth[OF n3 il] m)
    qed
    have Sil: "Suc i < length y" using i len by simp
    have hi: "0 \<le> find_derivatives x y ! Suc i \<and> find_derivatives x y ! Suc i \<le> 3 * m"
    proof (cases "Suc i = length y - 1")
      case True
      then have i2: "length y - 2 = i" by simp
      have fd: "find_derivatives x y ! Suc i =
          edge_case (hk_of x ! (length y - 2)) (hk_of x ! (length y - 3))
                    (mk_of x y ! (length y - 2)) (mk_of x y ! (length y - 3))"
        unfolding find_derivatives_nth[OF n3 Sil] using True n3 by simp
      from edge_case_bounds[OF hpos[OF rl] hpos[OF rl'] mpos[OF rl] mpos[OF rl']]
      show ?thesis unfolding fd m i2 by simp
    next
      case False
      then have rs: "Suc i < length x - 1" using i len by simp
      from interior_derivative_bounds[OF hpos[OF i] hpos[OF rs] mpos[OF i] mpos[OF rs]] False
      show ?thesis by (simp add: find_derivatives_nth[OF n3 Sil] m)
    qed
    from lo hi show ?thesis by simp
  qed
qed

lemma pc_pchip_of_nth:
  "i < length x - 1 \<Longrightarrow>
   pc (pchip_of x y) ! i =
     hermite_tuple (x ! Suc i - x ! i) (y ! i) (y ! Suc i)
       (find_derivatives x y ! i) (find_derivatives x y ! Suc i)"
  by (simp add: pchip_of_def hermite_coeffs_def)

lemma px_pchip_of [simp]: "px (pchip_of x y) = x"
  by (simp add: pchip_of_def)

text \<open>on the closed segment \<open>i\<close> the interpolant is the polynomial of that segment\<close>
lemma pchip_eval_segment:
  assumes inc: "strictly_increasing x" and i: "i < length x - 1"
    and v: "x ! i \<le> v" "v \<le> x ! Suc i"
  shows "pchip_eval (pchip_of x y) v = eval_poly (pc (pchip_of x y) ! i) (v - x ! i)"
proof (cases "v < x ! Suc i")
  case True
  with find_interval_unique[OF inc _ v(1)] i show ?thesis
    by (simp add: pchip_eval_def Let_def)
next
  case False
  with v have veq: "v = x ! Suc i" by simp
  have Si: "Suc i < length x" using i by simp
  have hne: "x ! Suc i - x ! i \<noteq> 0"
    using strictly_increasing_nth[OF inc _ Si, of i] by simp
  show ?thesis
  proof (cases "Suc i < length x - 1")
    case True
    have "find_interval x v = Suc i"
      using find_interval_unique[OF inc, of "Suc i" v] True veq
        strictly_increasing_nth[OF inc, of "Suc i" "Suc (Suc i)"] by simp
    then show ?thesis
      using True i hne
      by (simp add: pchip_eval_def Let_def pc_pchip_of_nth veq hermite_tuple_left hermite_tuple_right)
  next
    case False
    with i have last: "Suc i = length x - 1" by simp
    then have "last x = x ! Suc i"
      using i by (simp add: last_conv_nth[of x] length_greater_0_conv[symmetric] del: length_greater_0_conv)
    then have "find_interval x v = length x - 2"
      using find_interval_last[OF inc, of v] i veq by simp
    moreover have "length x - 2 = i" using last by simp
    ultimately show ?thesis
      by (simp add: pchip_eval_def Let_def)
  qed
qed

lemma pchip_eval_knot:
  assumes "strictly_increasing x" "2 \<le> length x" "k < length x"
  shows "pchip_eval (pchip_of x y) (x ! k) = y ! k"
proof (cases "k < length x - 1")
  case True
  then have Sk: "Suc k < length x" by simp
  have "x ! k \<le> x ! Suc k"
    using strictly_increasing_nth[OF assms(1) _ Sk, of k] by simp
  from pchip_eval_segment[OF assms(1) True order.refl this, of y] True
  show ?thesis by (simp add: pc_pchip_of_nth hermite_tuple_left)
next
  case False
  with assms obtain i where i: "k = Suc i" "i < length x - 1" by (cases k) auto
  then have Si: "Suc i < length x" by simp
  have lt: "x ! i < x ! Suc i"
    using strictly_increasing_nth[OF assms(1) _ Si, of i] by simp
  then have le: "x ! i \<le> x ! Suc i" by simp
  from pchip_eval_segment[OF assms(1) i(2) le order.refl, of y] i lt
  show ?thesis by (simp add: pc_pchip_of_nth hermite_tuple_right)
qed

lemma pchip_segment_increasing:
  assumes len: "length y = length x" "2 \<le> length x"
    and inc: "strictly_increasing x" "strictly_increasing y"
    and i: "i < length x - 1"
    and v: "x ! i \<le> v1" "v1 < v2" "v2 \<le> x ! Suc i"
  shows "pchip_eval (pchip_of x y) v1 < pchip_eval (pchip_of x y) v2"
proof -
  have Si: "Suc i < length x" using i by simp
  have h: "0 < x ! Suc i - x ! i"
    using strictly_increasing_nth[OF inc(1) _ Si, of i] by simp
  have yy: "y ! i < y ! Suc i"
    using strictly_increasing_nth[OF inc(2), of i "Suc i"] Si len by simp
  from find_derivatives_bounds[OF len inc i]
  have b: "0 \<le> find_derivatives x y ! i"
      "find_derivatives x y ! i \<le> 3 * ((y ! Suc i - y ! i) / (x ! Suc i - x ! i))"
      "0 \<le> find_derivatives x y ! Suc i"
      "find_derivatives x y ! Suc i \<le> 3 * ((y ! Suc i - y ! i) / (x ! Suc i - x ! i))"
    by simp_all
  have "eval_poly (pc (pchip_of x y) ! i) (v1 - x ! i) < eval_poly (pc (pchip_of x y) ! i) (v2 - x ! i)"
    unfolding pc_pchip_of_nth[OF i]
    using v by (intro hermite_tuple_increasing[OF h yy b]) auto
  moreover have "pchip_eval (pchip_of x y) v1 = eval_poly (pc (pchip_of x y) ! i) (v1 - x ! i)"
    using v by (intro pchip_eval_segment[OF inc(1) i]) auto
  moreover have "pchip_eval (pchip_of x y) v2 = eval_poly (pc (pchip_of x y) ! i) (v2 - x ! i)"
    using v by (intro pchip_eval_segment[OF inc(1) i]) auto
  ultimately show ?thesis by simp
qed

lemma pchip_strictly_increasing:
  assumes len: "length y = length x" "2 \<le> length x"
    and inc: "strictly_increasing x" "strictly_increasing y"
    and v: "x ! 0 \<le> v1" "v1 < v2" "v2 \<le> last x"
  shows "pchip_eval (pchip_of x y) v1 < pchip_eval (pchip_of x y) v2"
proof -
  let ?g = "pchip_eval (pchip_of x y)"
  define i where "i = find_interval x v1"
  define j where "j = find_interval x v2"
  have i: "i < length x - 1" and j: "j < length x - 1"
    using find_interval_less[OF len(2)] by (simp_all add: i_def j_def)
  have bi: "x ! i \<le> v1" "v1 \<le> x ! Suc i"
    using find_interval_bounds[OF inc(1) len(2), of v1] v by (simp_all add: i_def)
  have bj: "x ! j \<le> v2" "v2 \<le> x ! Suc j"
    using find_interval_bounds[OF inc(1) len(2), of v2] v by (simp_all add: j_def)
  show ?thesis
  proof (cases "v2 \<le> x ! Suc i")
    case True
    then show ?thesis using pchip_segment_increasing[OF len inc i bi(1) v(2)] by simp
  next
    case False
    then have lt: "x ! Suc i < v2" by simp
    have ij: "Suc i \<le> j"
    proof (rule ccontr)
      assume "\<not> Suc i \<le> j"
      then have "Suc j \<le> Suc i" by simp
      then have "x ! Suc j \<le> x ! Suc i"
        using strictly_increasing_nth_le[OF inc(1), of "Suc j" "Suc i"] i by simp
      with bj lt show False by simp
    qed
    have k1: "?g (x ! Suc i) = y ! Suc i"
      using pchip_eval_knot[OF inc(1) len(2), of "Suc i" y] i by simp
    have k2: "?g (x ! j) = y ! j"
      using pchip_eval_knot[OF inc(1) len(2), of j y] j by simp
    have s1: "?g v1 \<le> ?g (x ! Suc i)"
    proof (cases "v1 = x ! Suc i")
      case True then show ?thesis by simp
    next
      case False
      with bi have "v1 < x ! Suc i" by simp
      from pchip_segment_increasing[OF len inc i bi(1) this] show ?thesis by simp
    qed
    have s3: "?g (x ! j) \<le> ?g v2"
    proof (cases "x ! j = v2")
      case True then show ?thesis by simp
    next
      case False
      with bj have "x ! j < v2" by simp
      from pchip_segment_increasing[OF len inc j _ this bj(2)] show ?thesis by simp
    qed
    show ?thesis
    proof (cases "Suc i = j")
      case True
      with lt have "x ! j < v2" by simp
      from pchip_segment_increasing[OF len inc j _ this bj(2)]
      have "?g (x ! j) < ?g v2" by simp
      with s1 True show ?thesis by simp
    next
      case False
      with ij have "Suc i < j" by simp
      then have "y ! Suc i < y ! j"
        using strictly_increasing_nth[OF inc(2), of "Suc i" j] j len by simp
      with s1 s3 k1 k2 show ?thesis by simp
    qed
  qed
qed

lemma mk_of_affine:
  assumes "length y = length x" "k < length x - 1"
  shows "mk_of x (map (\<lambda>t. a * t + b) y) ! k = a * mk_of x y ! k"
  using assms by (simp add: mk_of_nth algebra_simps diff_divide_distrib)

lemma edge_case_scale:
  assumes "0 < a"
  shows "edge_case h0 h1 (a * m0) (a * m1) = a * edge_case h0 h1 m0 m1"
proof -
  define d where "d = ((2 * h0 + h1) * m0 - h0 * m1) / (h0 + h1)"
  have dd: "((2 * h0 + h1) * (a * m0) - h0 * (a * m1)) / (h0 + h1) = a * d"
    by (simp add: d_def algebra_simps diff_divide_distrib add_divide_distrib)
  have s: "\<And>z. sgn (a * z) = sgn z" using assms by (simp add: sgn_mult)
  have ab: "\<And>z w. (3 * \<bar>a * w\<bar> < \<bar>a * z\<bar>) = (3 * \<bar>w\<bar> < \<bar>z\<bar>)"
  proof -
    fix z w
    have "3 * \<bar>a * w\<bar> = a * (3 * \<bar>w\<bar>)" "\<bar>a * z\<bar> = a * \<bar>z\<bar>"
      using assms by (simp_all add: abs_mult)
    then show "(3 * \<bar>a * w\<bar> < \<bar>a * z\<bar>) = (3 * \<bar>w\<bar> < \<bar>z\<bar>)"
      using assms by (simp only: mult_less_cancel_left_pos)
  qed
  have e1: "edge_case h0 h1 m0 m1 =
      (if sgn d \<noteq> sgn m0 then 0
       else if sgn m0 \<noteq> sgn m1 \<and> \<bar>d\<bar> > 3 * \<bar>m0\<bar> then 3 * m0 else d)"
    by (simp add: edge_case_def d_def Let_def)
  have e2: "edge_case h0 h1 (a * m0) (a * m1) =
      (if sgn (a * d) \<noteq> sgn (a * m0) then 0
       else if sgn (a * m0) \<noteq> sgn (a * m1) \<and> \<bar>a * d\<bar> > 3 * \<bar>a * m0\<bar> then 3 * (a * m0)
       else a * d)"
    by (simp only: edge_case_def Let_def dd)
  show ?thesis unfolding e1 e2 s ab by simp
qed

lemma interior_derivative_scale:
  assumes "0 < a"
  shows "interior_derivative h0 h1 (a * m0) (a * m1) = a * interior_derivative h0 h1 m0 m1"
proof -
  define w1 where "w1 = 2 * h1 + h0"
  define w2 where "w2 = h1 + 2 * h0"
  define D where "D = w1 / m0 + w2 / m1"
  have s: "\<And>z. sgn (a * z) = sgn z" using assms by (simp add: sgn_mult)
  have z: "\<And>z. (a * z = 0) = (z = 0)" using assms by simp
  have D': "w1 / (a * m0) + w2 / (a * m1) = D / a"
    using assms by (simp add: D_def add_divide_distrib mult.commute)
  have e1: "interior_derivative h0 h1 m0 m1 =
      (if sgn m1 \<noteq> sgn m0 \<or> m1 = 0 \<or> m0 = 0 then 0 else 1 / (D / (w1 + w2)))"
    by (simp add: interior_derivative_def Let_def w1_def w2_def D_def)
  have e2: "interior_derivative h0 h1 (a * m0) (a * m1) =
      (if sgn m1 \<noteq> sgn m0 \<or> m1 = 0 \<or> m0 = 0 then 0 else 1 / (D / a / (w1 + w2)))"
    unfolding interior_derivative_def Let_def s z w1_def[symmetric] w2_def[symmetric] D' ..
  show ?thesis unfolding e1 e2 using assms by simp
qed

lemma find_derivatives_affine:
  assumes a: "0 < a" and len: "length y = length x" "2 \<le> length x" and k: "k < length x"
  shows "find_derivatives x (map (\<lambda>t. a * t + b) y) ! k = a * find_derivatives x y ! k"
proof (cases "length y = 2")
  case True
  with len k have "k = 0 \<or> k = 1" by auto
  moreover have "0 < length x - 1" using len by simp
  ultimately show ?thesis using True mk_of_affine[OF len(1), of 0 a b]
    by (auto simp: find_derivatives_def Let_def)
next
  case False
  with len have n3: "3 \<le> length y" by simp
  then have n3': "3 \<le> length (map (\<lambda>t. a * t + b) y)" by simp
  have kl: "k < length y" "k < length (map (\<lambda>t. a * t + b) y)" using k len by simp_all
  have r: "0 < length x - 1" "1 < length x - 1" "length y - 2 < length x - 1"
    "length y - 3 < length x - 1"
    using n3 len by simp_all
  show ?thesis
  proof (cases "k = 0 \<or> k = length y - 1")
    case True
    then show ?thesis
      unfolding find_derivatives_nth[OF n3 kl(1)] find_derivatives_nth[OF n3' kl(2)]
      using r mk_of_affine[OF len(1)] edge_case_scale[OF a]
      by auto
  next
    case False
    then have "k - 1 < length x - 1" "k < length x - 1" using k len by linarith+
    with False show ?thesis
      unfolding find_derivatives_nth[OF n3 kl(1)] find_derivatives_nth[OF n3' kl(2)]
      using mk_of_affine[OF len(1)] interior_derivative_scale[OF a]
      by auto
  qed
qed

lemma hermite_tuple_affine:
  "eval_poly (hermite_tuple h (a * y0 + b) (a * y1 + b) (a * d0) (a * d1)) s
     = a * eval_poly (hermite_tuple h y0 y1 d0 d1) s + b"
  by (simp add: eval_poly_def hermite_tuple_def Let_def algebra_simps
        diff_divide_distrib add_divide_distrib)

lemma pchip_eval_affine:
  assumes a: "0 < a" and len: "length y = length x" "2 \<le> length x"
  shows "pchip_eval (pchip_of x (map (\<lambda>t. a * t + b) y)) v
         = a * pchip_eval (pchip_of x y) v + b"
proof -
  define i where "i = find_interval x v"
  have i: "i < length x - 1" using find_interval_less[OF len(2)] by (simp add: i_def)
  then have il: "i < length x" "Suc i < length x" by simp_all
  have "pchip_eval (pchip_of x (map (\<lambda>t. a * t + b) y)) v
      = eval_poly (hermite_tuple (x ! Suc i - x ! i) (a * y ! i + b) (a * y ! Suc i + b)
           (a * find_derivatives x y ! i) (a * find_derivatives x y ! Suc i)) (v - x ! i)"
    using i il len
    by (simp add: pchip_eval_def Let_def i_def[symmetric] pc_pchip_of_nth
          find_derivatives_affine[OF a len])
  also have "\<dots> = a * eval_poly (pc (pchip_of x y) ! i) (v - x ! i) + b"
    by (simp add: hermite_tuple_affine pc_pchip_of_nth[OF i])
  finally show ?thesis by (simp add: pchip_eval_def Let_def i_def)
qed

section \<open>Structure of a successful construction\<close>

lemma bind_err_Inr [simp]: "bind_err (Inr x) f = f x"
  by (simp add: bind_err_def)

lemma bind_err_Inl [simp]: "bind_err (Inl e) f = Inl e"
  by (simp add: bind_err_def)

lemma bind_err_eq_Inr:
  "bind_err m f = Inr y \<longleftrightarrow> (\<exists>x. m = Inr x \<and> f x = Inr y)"
  by (cases m) simp_all

lemma mapM_err_eq_Inr:
  "mapM_err f xs = Inr ys \<longleftrightarrow> list_all2 (\<lambda>x y. f x = Inr y) xs ys"
proof (induction xs arbitrary: ys)
  case Nil
  then show ?case by auto
next
  case (Cons x xs)
  show ?case
    by (cases ys) (auto simp: bind_err_eq_Inr Cons.IH)
qed

lemma mapM_err_map:
  "(\<And>x. x \<in> set xs \<Longrightarrow> f x = Inr (g x)) \<Longrightarrow> mapM_err f xs = Inr (map g xs)"
  by (induction xs) simp_all

lemma mapM_err_fst:
  assumes "mapM_err f xs = Inr ys" and "\<And>x y. f x = Inr y \<Longrightarrow> fst y = x"
  shows "map fst ys = xs"
  using assms(1) unfolding mapM_err_eq_Inr
  by (induction xs ys rule: list_all2_induct) (auto dest: assms(2))

lemma PchipInterpolator_eq_Inr:
  "PchipInterpolator x y = Inr p \<longleftrightarrow>
     2 \<le> length x \<and> length x = length y \<and> all_finite y \<and> strictly_increasing x
     \<and> p = pchip_of x (map the y)"
  by (auto simp: PchipInterpolator_def)

lemma interp_of_eq_Inr:
  "interp_of l = Inr p \<longleftrightarrow>
     2 \<le> length l \<and> all_finite (map snd l) \<and> strictly_increasing (map fst l)
     \<and> p = pchip_of (map fst l) (map the (map snd l))"
  by (auto simp: interp_of_def PchipInterpolator_eq_Inr)

lemma interp_of_px: "interp_of l = Inr p \<Longrightarrow> px p = map fst l"
  by (simp add: interp_of_eq_Inr)

lemma API_point_fst: "API_point D vol = Inr pt \<Longrightarrow> fst pt = vol"
  by (auto simp: API_point_def bind_err_eq_Inr Let_def split: prod.splits)

lemma API_D86_TBP_Inr:
  assumes "API_D86_TBP d86 = Inr (D, T)"
  shows "interp_of d86 = Inr D" and "px T = vol_distl_list"
proof -
  from assms obtain l where D: "interp_of d86 = Inr D"
    and l: "mapM_err (API_point D) vol_distl_list = Inr l" and T: "interp_of l = Inr T"
    by (auto simp: API_D86_TBP_def bind_err_eq_Inr)
  show "interp_of d86 = Inr D" by fact
  from mapM_err_fst[OF l API_point_fst] interp_of_px[OF T]
  show "px T = vol_distl_list" by simp
qed

lemma Daubert_ASTM_D86_TBP_px:
  assumes "Daubert_ASTM_D86_TBP d86 = Inr T"
  shows "px T = [0, 10, 30, 50, 70, 90, 95]"
proof -
  from assms obtain d l l' where "Daubert_TBP_r_list d = Inr l"
    and l': "mapM_err (\<lambda>(vol, t). bind_err (convert_temperature t (str ''F'') (str ''C'')) (\<lambda>c. Inr (vol, c))) l = Inr l'"
    and T: "interp_of l' = Inr T"
    by (auto simp: Daubert_ASTM_D86_TBP_def bind_err_eq_Inr)
  then have "map fst l = [0, 10, 30, 50, 70, 90, 95]"
    by (auto simp: Daubert_TBP_r_list_def bind_err_eq_Inr Let_def)
  moreover have "map fst l' = map fst l"
    using l' unfolding mapM_err_eq_Inr
    by (induction l l' rule: list_all2_induct) auto
  ultimately show ?thesis using interp_of_px[OF T] by simp
qed

lemma riazi_point_fst: "riazi_point c D vol = Inr pt \<Longrightarrow> fst pt = vol"
  by (auto simp: riazi_point_def bind_err_eq_Inr Let_def split: prod.splits)

lemma sort_key_fst_id: "sorted (map fst l) \<Longrightarrow> sort_key fst l = l"
  by (rule sort_key_id_if_sorted)

lemma D2887_to_TBP_direct_px:
  assumes "D2887_to_TBP_direct l = Inr T"
  shows "px T = key_points"
proof -
  from assms obtain D pts where pts: "mapM_err (riazi_point riazi_tbp_coefficients D) key_points = Inr pts"
    and T: "interp_of (sort_key fst pts) = Inr T"
    by (auto simp: D2887_to_TBP_direct_def bind_err_eq_Inr)
  have f: "map fst pts = key_points" by (rule mapM_err_fst[OF pts riazi_point_fst])
  then have "sort_key fst pts = pts" by (intro sort_key_fst_id) (simp add: key_points_def)
  with interp_of_px[OF T] f show ?thesis by simp
qed

lemma D2887_to_D86_fst:
  assumes "D2887_to_D86 l = Inr d86"
  shows "map fst d86 = key_points"
proof -
  from assms obtain D pts where pts: "mapM_err (riazi_point riazi_d86_coefficients D) key_points = Inr pts"
    and d: "d86 = sort_key fst pts"
    by (auto simp: D2887_to_D86_def bind_err_eq_Inr)
  have f: "map fst pts = key_points" by (rule mapM_err_fst[OF pts riazi_point_fst])
  then have "sort_key fst pts = pts" by (intro sort_key_fst_id) (simp add: key_points_def)
  with d f show ?thesis by simp
qed

lemma TBP_point_fst: "TBP_point D vol = Inr pt \<Longrightarrow> fst pt = vol"
  by (auto simp: TBP_point_def bind_err_eq_Inr Let_def split: prod.splits)

lemma TBP_to_D86_fst:
  assumes "TBP_to_D86 l = Inr d86"
  shows "map fst d86 = [0, 10, 30, 50, 70, 90, 95, 100]"
proof -
  from assms obtain D where
    "mapM_err (TBP_point D) [0, 10, 30, 50, 70, 90, 95, 100] = Inr d86"
    by (auto simp: TBP_to_D86_def bind_err_eq_Inr)
  then show ?thesis by (rule mapM_err_fst[OF _ TBP_point_fst])
qed


lemma Oil_curves_D86:
  assumes "upper tag = str ''D86''" "Oil_curves l tag = Inr (d86, D, T, Da, S)"
  shows "API_D86_TBP l = Inr (D, T) \<and> Daubert_ASTM_D86_TBP l = Inr Da
         \<and> D86_to_D2887 l = Inr S \<and> d86 = l"
proof -
  have "bind_err (API_D86_TBP l) (\<lambda>(D86_i, TBP_i).
        bind_err (Daubert_ASTM_D86_TBP l) (\<lambda>Daubert_i.
        bind_err (D86_to_D2887 l) (\<lambda>D2887_i.
        Inr (l, D86_i, TBP_i, Daubert_i, D2887_i)))) = Inr (d86, D, T, Da, S)"
    using assms by (simp add: Oil_curves_def)
  then show ?thesis
    by (cases "API_D86_TBP l"; cases "Daubert_ASTM_D86_TBP l"; cases "D86_to_D2887 l")
       (auto split: prod.splits)
qed


lemma Oil_curves_D2887:
  assumes "upper tag \<in> {str ''D2887'', str ''SIMDIS''}" "Oil_curves l tag = Inr (d86, D, T, Da, S)"
  shows "D2887_to_D86 l = Inr d86 \<and> (\<exists>T'. API_D86_TBP d86 = Inr (D, T'))
         \<and> D2887_to_TBP_direct l = Inr T \<and> Daubert_ASTM_D86_TBP d86 = Inr Da
         \<and> D2887_to_D2887_interp l = Inr S"
proof -
  have ne: "upper tag \<noteq> str ''D86''" using assms(1) by auto
  have "bind_err (D2887_to_D86 l) (\<lambda>d86_data.
        bind_err (API_D86_TBP d86_data) (\<lambda>(D86_i, _).
        bind_err (D2887_to_TBP_direct l) (\<lambda>TBP_i.
        bind_err (Daubert_ASTM_D86_TBP d86_data) (\<lambda>Daubert_i.
        bind_err (D2887_to_D2887_interp l) (\<lambda>D2887_i.
        Inr (d86_data, D86_i, TBP_i, Daubert_i, D2887_i)))))) = Inr (d86, D, T, Da, S)"
    using assms ne by (simp add: Oil_curves_def)
  then obtain dd where dd: "D2887_to_D86 l = Inr dd"
    and r: "bind_err (API_D86_TBP dd) (\<lambda>(D86_i, _).
        bind_err (D2887_to_TBP_direct l) (\<lambda>TBP_i.
        bind_err (Daubert_ASTM_D86_TBP dd) (\<lambda>Daubert_i.
        bind_err (D2887_to_D2887_interp l) (\<lambda>D2887_i.
        Inr (dd, D86_i, TBP_i, Daubert_i, D2887_i))))) = Inr (d86, D, T, Da, S)"
    by (cases "D2887_to_D86 l") auto
  from r have "dd = d86 \<and> (\<exists>T'. API_D86_TBP dd = Inr (D, T'))
         \<and> D2887_to_TBP_direct l = Inr T \<and> Daubert_ASTM_D86_TBP dd = Inr Da
         \<and> D2887_to_D2887_interp l = Inr S"
    by (cases "API_D86_TBP dd"; cases "D2887_to_TBP_direct l"; cases "Daubert_ASTM_D86_TBP dd";
        cases "D2887_to_D2887_interp l")
       (auto split: prod.splits)
  with dd show ?thesis by auto
qed

lemma Oil_curves_TBP:
  assumes "upper tag = str ''TBP''" "Oil_curves l tag = Inr (d86, D, T, Da, S)"
  shows "TBP_to_D86 l = Inr d86 \<and> (\<exists>T'. API_D86_TBP d86 = Inr (D, T'))
         \<and> TBP_to_TBP_interp l = Inr T \<and> Daubert_ASTM_D86_TBP d86 = Inr Da
         \<and> D86_to_D2887 d86 = Inr S"
proof -
  have ne: "upper tag \<noteq> str ''D86''" "upper tag \<noteq> str ''D2887''" "upper tag \<noteq> str ''SIMDIS''"
    using assms(1) by auto
  have "bind_err (TBP_to_D86 l) (\<lambda>d86_data.
        bind_err (API_D86_TBP d86_data) (\<lambda>(D86_i, _).
        bind_err (TBP_to_TBP_interp l) (\<lambda>TBP_i.
        bind_err (Daubert_ASTM_D86_TBP d86_data) (\<lambda>Daubert_i.
        bind_err (D86_to_D2887 d86_data) (\<lambda>D2887_i.
        Inr (d86_data, D86_i, TBP_i, Daubert_i, D2887_i)))))) = Inr (d86, D, T, Da, S)"
    using assms ne by (simp add: Oil_curves_def)
  then obtain dd where dd: "TBP_to_D86 l = Inr dd"
    and r: "bind_err (API_D86_TBP dd) (\<lambda>(D86_i, _).
        bind_err (TBP_to_TBP_interp l) (\<lambda>TBP_i.
        bind_err (Daubert_ASTM_D86_TBP dd) (\<lambda>Daubert_i.
        bind_err (D86_to_D2887 dd) (\<lambda>D2887_i.
        Inr (dd, D86_i, TBP_i, Daubert_i, D2887_i))))) = Inr (d86, D, T, Da, S)"
    by (cases "TBP_to_D86 l") auto
  from r have "dd = d86 \<and> (\<exists>T'. API_D86_TBP dd = Inr (D, T'))
         \<and> TBP_to_TBP_interp l = Inr T \<and> Daubert_ASTM_D86_TBP dd = Inr Da
         \<and> D86_to_D2887 dd = Inr S"
    by (cases "API_D86_TBP dd"; cases "TBP_to_TBP_interp l"; cases "Daubert_ASTM_D86_TBP dd";
        cases "D86_to_D2887 dd")
       (auto split: prod.splits)
  with dd show ?thesis by auto
qed

lemma Oil_curves_tag:
  assumes "Oil_curves l tag = Inr r"
  shows "upper tag = str ''D86'' \<or> upper tag \<in> {str ''D2887'', str ''SIMDIS''} \<or> upper tag = str ''TBP''"
  using assms by (auto simp: Oil_curves_def split: if_splits)

lemma Oil_curves_interp:
  assumes "Oil_curves l tag = Inr (d86, D, T, Da, S)"
  shows "interp_of d86 = Inr D \<and> px Da = [0, 10, 30, 50, 70, 90, 95]"
  using Oil_curves_tag[OF assms]
proof (elim disjE)
  assume t: "upper tag = str ''D86''"
  from Oil_curves_D86[OF t assms] show ?thesis
    using API_D86_TBP_Inr(1) Daubert_ASTM_D86_TBP_px by blast
next
  assume t: "upper tag \<in> {str ''D2887'', str ''SIMDIS''}"
  from Oil_curves_D2887[OF t assms] show ?thesis
    using API_D86_TBP_Inr(1) Daubert_ASTM_D86_TBP_px by blast
next
  assume t: "upper tag = str ''TBP''"
  from Oil_curves_TBP[OF t assms] show ?thesis
    using API_D86_TBP_Inr(1) Daubert_ASTM_D86_TBP_px by blast
qed

lemma Oil_init_Inr:
  assumes "Oil_init pts d tag = Inr ol"
  shows "Oil_curves (lift_points pts) tag
           = Inr (D86 ol, D86_interp ol, TBP_interp ol, Daubert_TBP_interp ol, D2887_interp ol)
    \<and> original_temperatures ol = map snd (D86 ol)
    \<and> original_volperc_distilled ol = map fst (D86 ol)
    \<and> VABP_fn (D86_interp ol) (map snd (D86 ol)) = Inr (VABP ol)
    \<and> MeABP_fn (D86_interp ol) (map snd (D86 ol)) = Inr (MeABP ol)
    \<and> SG ol = SG_fn d \<and> WatsonK ol = WatsonK_fn (MeABP ol) d"
proof -
  obtain d86 D T Da S where c: "Oil_curves (lift_points pts) tag = Inr (d86, D, T, Da, S)"
    using assms
    by (cases "Oil_curves (lift_points pts) tag")
       (auto simp: Oil_init_def lift_points_def)
  with assms have "bind_err (VABP_fn D (map snd d86)) (\<lambda>VABP_val.
     bind_err (MeABP_fn D (map snd d86)) (\<lambda>MeABP_val.
     Inr \<lparr> Density = d, input_type = tag, D86 = d86,
           original_temperatures = map snd d86, original_volperc_distilled = map fst d86,
           D86_interp = D, TBP_interp = T, Daubert_TBP_interp = Da,
           D2887_interp = S, VABP = VABP_val, MeABP = MeABP_val,
           SG = SG_fn d, WatsonK = WatsonK_fn MeABP_val d \<rparr>)) = Inr ol"
    by (simp add: Oil_init_def lift_points_def Let_def)
  then show ?thesis unfolding c
    by (cases "VABP_fn D (map snd d86)"; cases "MeABP_fn D (map snd d86)") auto
qed

section \<open>When the conversions succeed\<close>

lemma point_at_Some [simp]: "point_at x (x', Some v) = (x' = x)"
  by (simp add: point_at_def)

lemma point_at_None [simp]: "\<not> point_at x (x', None)"
  by (simp add: point_at_def)

lemma mapM_err_ok:
  "(\<And>x. x \<in> set xs \<Longrightarrow> \<exists>y. f x = Inr y \<and> P x y)
     \<Longrightarrow> \<exists>ys. mapM_err f xs = Inr ys \<and> list_all2 P xs ys"
proof (induction xs)
  case Nil
  then show ?case by simp
next
  case (Cons x xs)
  from Cons.prems[of x] obtain y where y: "f x = Inr y" "P x y" by auto
  from Cons.IH Cons.prems obtain ys where ys: "mapM_err f xs = Inr ys" "list_all2 P xs ys"
    by auto
  from y ys show ?case by auto
qed

lemma list_all2_points:
  assumes "list_all2 point_at xs ys"
  shows "map fst ys = xs \<and> all_finite (map snd ys)"
  using assms by (induction xs ys rule: list_all2_induct) (auto simp: all_finite_def point_at_def)

lemma interp_of_ok:
  assumes "list_all2 point_at xs ys"
    and "2 \<le> length xs" "strictly_increasing xs"
  shows "\<exists>p. interp_of ys = Inr p \<and> px p = xs"
proof -
  from list_all2_points[OF assms(1)] have "map fst ys = xs" "all_finite (map snd ys)" by auto
  moreover have "length ys = length xs" using assms(1) by (simp add: list_all2_lengthD)
  ultimately show ?thesis using assms(2,3) by (simp add: interp_of_eq_Inr)
qed

text \<open>values of a well-formed curve inside its knot range\<close>

lemma well_formed_mono:
  assumes w: "well_formed_curve l" and D: "interp_of l = Inr D"
    and v: "fst (hd l) \<le> v1" "v1 \<le> v2" "v2 \<le> fst (last l)"
  shows "pchip_eval D v1 \<le> pchip_eval D v2"
proof (cases "v1 = v2")
  case True
  then show ?thesis by simp
next
  case False
  have ne: "l \<noteq> []" using w by (auto simp: well_formed_curve_def)
  have D': "D = pchip_of (map fst l) (map the (map snd l))"
    using D by (simp add: interp_of_eq_Inr)
  have "pchip_eval D v1 < pchip_eval D v2"
    unfolding D'
    using w v False ne
    by (intro pchip_strictly_increasing)
       (auto simp: well_formed_curve_def hd_conv_nth last_map hd_map)
  then show ?thesis by simp
qed

lemma well_formed_first:
  assumes w: "well_formed_curve l" and D: "interp_of l = Inr D"
  shows "pchip_eval D (fst (hd l)) = the (snd (hd l))"
proof -
  have ne: "l \<noteq> []" using w by (auto simp: well_formed_curve_def)
  have D': "D = pchip_of (map fst l) (map the (map snd l))"
    using D by (simp add: interp_of_eq_Inr)
  have "pchip_eval D (map fst l ! 0) = map the (map snd l) ! 0"
    unfolding D' using w by (intro pchip_eval_knot) (auto simp: well_formed_curve_def)
  then show ?thesis using ne by (simp add: hd_conv_nth)
qed


lemma py_pow_Some: "0 \<le> x \<Longrightarrow> py_pow (Some x) b = Some (x powr b)"
  by simp

lemma API_point_ok:
  assumes "vol \<in> set vol_distl_list" "0 \<le> pchip_eval D vol + 273.15"
  shows "\<exists>y. API_point D vol = Inr y \<and> point_at vol y"
proof -
  have nn: "0 \<le> (pchip_eval D vol + 273.15) * 9 / 5" using assms(2) by simp
  have "map fst API_constants = vol_distl_list"
    by (simp add: vol_distl_list_def API_constants_def)
  then have "vol \<in> fst ` set API_constants"
    using assms(1) by (metis set_map)
  then have "map_of API_constants vol \<noteq> None"
    by (simp add: map_of_eq_None_iff)
  then obtain a b where d: "dict_get API_constants vol = Inr (a, b)"
    by (cases "map_of API_constants vol") (auto simp: dict_get_def)
  have "API_point D vol =
      Inr (vol, Some ((a * ((pchip_eval D vol + 273.15) * 9 / 5) powr b - 491.67) * 5 / 9))"
    by (simp only: API_point_def d bind_err_Inr prod.case Let_def convert_C_R convert_R_C
          option.map py_pow_Some[OF nn])
  then show ?thesis by simp
qed

lemma vol_distl_list_increasing: "strictly_increasing vol_distl_list" "2 \<le> length vol_distl_list"
  by (simp_all add: vol_distl_list_def)

lemma API_D86_TBP_ok:
  assumes D: "interp_of l = Inr D"
    and v: "\<And>vol. vol \<in> set vol_distl_list \<Longrightarrow> 0 \<le> pchip_eval D vol + 273.15"
  shows "\<exists>T. API_D86_TBP l = Inr (D, T)"
proof -
  from mapM_err_ok[of vol_distl_list "API_point D" point_at]
    API_point_ok v
  obtain ys where ys: "mapM_err (API_point D) vol_distl_list = Inr ys"
    "list_all2 point_at vol_distl_list ys"
    by blast
  from interp_of_ok[OF ys(2) vol_distl_list_increasing(2,1)]
  obtain T where "interp_of ys = Inr T" by blast
  with D ys(1) show ?thesis by (simp add: API_D86_TBP_def)
qed


lemma fold_update_other:
  "k \<notin> set ks \<Longrightarrow> fold (\<lambda>k d. d(k \<mapsto> f k)) ks d0 k = d0 k"
  by (induction ks arbitrary: d0) auto

lemma fold_update_key:
  "k \<in> set ks \<Longrightarrow> fold (\<lambda>k d. d(k \<mapsto> f k)) ks d0 k = Some (f k)"
proof (induction ks arbitrary: d0)
  case Nil
  then show ?case by simp
next
  case (Cons a ks)
  show ?case
  proof (cases "k \<in> set ks")
    case True
    then show ?thesis using Cons.IH by simp
  next
    case False
    with Cons.prems have "k = a" by simp
    have "fold (\<lambda>k d. d(k \<mapsto> f k)) (a # ks) d0 k
          = fold (\<lambda>k d. d(k \<mapsto> f k)) ks (d0(a \<mapsto> f a)) k"
      by (simp only: fold_simps comp_apply)
    also have "\<dots> = (d0(a \<mapsto> f a)) k"
      using False by (rule fold_update_other)
    also have "\<dots> = Some (f k)" using \<open>k = a\<close> by simp
    finally show ?thesis .
  qed
qed

lemma strictly_increasing_distinct: "strictly_increasing xs \<Longrightarrow> distinct xs"
  by (simp add: strictly_increasing_sorted_wrt strict_sorted_iff)

lemma Daubert_items:
  "mapM_err (\<lambda>(dist, temp). bind_err (convert_temperature temp (str ''C'') (str ''F'')) (\<lambda>t. Inr (dist, t))) xs
     = Inr (map (\<lambda>(dist, temp). (dist, map_option (\<lambda>c. c * 9 / 5 + 32) temp)) xs)"
  by (rule mapM_err_map) (auto split: prod.splits)

lemma Daubert_items':
  "mapM_err (\<lambda>(dist, temp). Inr (dist, map_option (\<lambda>c. c * 9 / 5 + 32) temp)) xs
     = Inr (map (\<lambda>(dist, temp). (dist, map_option (\<lambda>c. c * 9 / 5 + 32) temp)) xs)"
  by (rule mapM_err_map) (auto split: prod.splits)

lemma interp_of_at_point:
  assumes D: "interp_of l = Inr D" and m: "(k, temp) \<in> set l"
  shows "temp = Some (pchip_eval D k)"
proof -
  from D have len: "2 \<le> length l" and fin: "all_finite (map snd l)"
    and inc: "strictly_increasing (map fst l)"
    and D': "D = pchip_of (map fst l) (map the (map snd l))"
    by (simp_all add: interp_of_eq_Inr)
  from m obtain i where i: "i < length l" "l ! i = (k, temp)"
    by (auto simp: in_set_conv_nth)
  have "pchip_eval D (map fst l ! i) = map the (map snd l) ! i"
    unfolding D' using inc len i by (intro pchip_eval_knot) auto
  then have "pchip_eval D k = the temp" using i by simp
  moreover have "temp \<noteq> None"
    using fin m by (force simp: all_finite_def list_all_iff)
  ultimately show ?thesis by auto
qed

lemma Daubert_D86_dict_r_ok:
  assumes D: "interp_of l = Inr D"
  shows "\<exists>d g. Daubert_D86_dict_r l = Inr d
           \<and> (g = (\<lambda>c. c) \<or> g = (\<lambda>c. c * 9 / 5 + 32))
           \<and> (\<forall>k \<in> set dist_required. d k = Some (Some (g (pchip_eval D k))))"
proof -
  define items where
    "items = map (\<lambda>(dist, temp). (dist, map_option (\<lambda>c. c * 9 / 5 + 32) temp)) (rev l)"
  show ?thesis
  proof (cases "list_ex (\<lambda>dist. map_of items dist = None) dist_required")
    case True
    then have "Daubert_D86_dict_r l =
        Inr (fold (\<lambda>dist d. d(dist \<mapsto> Some (pchip_eval D dist))) dist_required (map_of items))"
      using D by (simp add: Daubert_D86_dict_r_def Daubert_items' items_def Let_def)
    then show ?thesis
      by (intro exI[of _ "fold (\<lambda>dist d. d(dist \<mapsto> Some (pchip_eval D dist))) dist_required (map_of items)"]
                exI[of _ "\<lambda>c. c"])
         (simp add: fold_update_key)
  next
    case False
    then have r: "Daubert_D86_dict_r l = Inr (map_of items)"
      by (simp add: Daubert_D86_dict_r_def Daubert_items' items_def Let_def)
    have "map_of items k = Some (Some (pchip_eval D k * 9 / 5 + 32))"
      if k: "k \<in> set dist_required" for k
    proof -
      from False k have "map_of items k \<noteq> None" by (auto simp: list_ex_iff)
      then obtain v where v: "map_of items k = Some v" by auto
      then have "(k, v) \<in> set items" by (rule map_of_SomeD)
      then obtain temp where t: "(k, temp) \<in> set l" "v = map_option (\<lambda>c. c * 9 / 5 + 32) temp"
        by (auto simp: items_def)
      from interp_of_at_point[OF D t(1)] t(2) v show ?thesis by simp
    qed
    with r show ?thesis
      by (intro exI[of _ "map_of items"] exI[of _ "\<lambda>c. c * 9 / 5 + 32"]) simp
  qed
qed

lemma Daubert_TBP_r_list_ok:
  assumes d: "\<And>k. k \<in> set dist_required \<Longrightarrow> d k = Some (Some (z k))"
    and z: "0 \<le> z 50" "z 0 \<le> z 10" "z 10 \<le> z 30" "z 30 \<le> z 50" "z 50 \<le> z 70"
      "z 70 \<le> z 90" "z 90 \<le> z 95"
  shows "\<exists>ys. Daubert_TBP_r_list d = Inr ys
           \<and> list_all2 point_at [0, 10, 30, 50, 70, 90, 95] ys"
proof -
  have r: "d 0 = Some (Some (z 0))" "d 10 = Some (Some (z 10))" "d 30 = Some (Some (z 30))"
    "d 50 = Some (Some (z 50))" "d 70 = Some (Some (z 70))" "d 90 = Some (Some (z 90))"
    "d 95 = Some (Some (z 95))"
    using d by (simp_all add: dist_required_def)
  show ?thesis
    using z
    by (simp add: Daubert_TBP_r_list_def Daubert_TBP_50_def Daubert_power_def dict_read_def
          dict_get_def Daubert_constants_def r lift2_def Let_def)
qed

lemma F_to_C_point:
  "\<exists>y'. (case y of (vol, t) \<Rightarrow> bind_err (convert_temperature t (str ''F'') (str ''C'')) (\<lambda>c. Inr (vol, c)))
          = Inr y' \<and> (\<forall>x. point_at x y \<longrightarrow> point_at x y')"
proof (cases y)
  case (Pair vol t)
  then show ?thesis by (cases t) simp_all
qed

lemma Daubert_ASTM_D86_TBP_ok:
  assumes D: "interp_of l = Inr D"
    and z: "0 \<le> pchip_eval D 50" "pchip_eval D 0 \<le> pchip_eval D 10"
      "pchip_eval D 10 \<le> pchip_eval D 30" "pchip_eval D 30 \<le> pchip_eval D 50"
      "pchip_eval D 50 \<le> pchip_eval D 70" "pchip_eval D 70 \<le> pchip_eval D 90"
      "pchip_eval D 90 \<le> pchip_eval D 95"
  shows "\<exists>T. Daubert_ASTM_D86_TBP l = Inr T"
proof -
  from Daubert_D86_dict_r_ok[OF D] obtain d g where dg: "Daubert_D86_dict_r l = Inr d"
    "g = (\<lambda>c. c) \<or> g = (\<lambda>c. c * 9 / 5 + 32)"
    "\<And>k. k \<in> set dist_required \<Longrightarrow> d k = Some (Some (g (pchip_eval D k)))"
    by blast
  have gz: "0 \<le> g (pchip_eval D 50)" "g (pchip_eval D 0) \<le> g (pchip_eval D 10)"
      "g (pchip_eval D 10) \<le> g (pchip_eval D 30)" "g (pchip_eval D 30) \<le> g (pchip_eval D 50)"
      "g (pchip_eval D 50) \<le> g (pchip_eval D 70)" "g (pchip_eval D 70) \<le> g (pchip_eval D 90)"
      "g (pchip_eval D 90) \<le> g (pchip_eval D 95)"
    using dg(2) z by auto
  from Daubert_TBP_r_list_ok[of d "\<lambda>k. g (pchip_eval D k)", OF dg(3) gz]
  obtain ys where ys: "Daubert_TBP_r_list d = Inr ys"
    "list_all2 point_at [0, 10, 30, 50, 70, 90, 95] ys"
    by blast
  have "\<exists>ys'. mapM_err (\<lambda>(vol, t). bind_err (convert_temperature t (str ''F'') (str ''C'')) (\<lambda>c. Inr (vol, c))) ys
            = Inr ys' \<and> list_all2 (\<lambda>y y'. \<forall>x. point_at x y \<longrightarrow> point_at x y') ys ys'"
    by (rule mapM_err_ok) (rule F_to_C_point)
  then obtain ys' where ys': "mapM_err (\<lambda>(vol, t). bind_err (convert_temperature t (str ''F'') (str ''C'')) (\<lambda>c. Inr (vol, c))) ys
            = Inr ys'" "list_all2 (\<lambda>y y'. \<forall>x. point_at x y \<longrightarrow> point_at x y') ys ys'"
    by blast
  have "list_all2 point_at [0, 10, 30, 50, 70, 90, 95] ys'"
    using list_all2_trans[OF _ ys(2) ys'(2), of point_at] by blast
  have inc: "2 \<le> length [0, 10, 30, 50, 70, 90, 95 :: real]"
    "strictly_increasing [0, 10, 30, 50, 70, 90, 95]" by simp_all
  from interp_of_ok[OF \<open>list_all2 point_at [0, 10, 30, 50, 70, 90, 95] ys'\<close> inc]
  obtain T where "interp_of ys' = Inr T" by auto
  with dg(1) ys(1) ys'(1) show ?thesis by (simp add: Daubert_ASTM_D86_TBP_def)
qed


lemma key_points_increasing: "strictly_increasing key_points" "2 \<le> length key_points"
  by (simp_all add: key_points_def)

lemma D86_to_D2887_ok:
  assumes D: "interp_of l = Inr D" and T: "API_D86_TBP l = Inr (D, T)"
    and f: "0 \<le> pchip_eval D 50 * 9 / 5 + 32"
  shows "\<exists>S. D86_to_D2887 l = Inr S \<and> px S = key_points"
proof -
  have nn: "0 \<le> (pchip_eval D 50 * 9 / 5 + 32) / 0.77601" using f by simp
  define sd where "sd = (((pchip_eval D 50 * 9 / 5 + 32) / 0.77601) powr (1.0 / 1.0395) - 32) * 5 / 9"
  define pts where "pts = map (\<lambda>vol.
                  if vol = 50 then (vol, Some sd)
                  else (vol, Some (pchip_eval D vol + 0.85 * (pchip_eval T vol - pchip_eval D vol))))
               key_points"
  have e: "D86_to_D2887 l = interp_of (sort_key fst pts)"
    by (simp only: D86_to_D2887_def D T bind_err_Inr prod.case Let_def convert_C_F convert_F_C
          option.map py_pow_Some[OF nn] pts_def sd_def)
  have a: "list_all2 point_at key_points pts"
    by (simp add: pts_def key_points_def)
  then have "map fst pts = key_points"
    using list_all2_points by blast
  then have "sort_key fst pts = pts"
    by (intro sort_key_fst_id) (simp add: key_points_def)
  with interp_of_ok[OF a key_points_increasing(2,1)] e show ?thesis by simp
qed

lemma D86_interop_F_of_eq:
  assumes D: "interp_of l = Inr D"
  shows "D86_interop_F_of D (map snd l)
         = Inr (pchip_of (map fst l) (map (\<lambda>c. 9 / 5 * c + 32) (map the (map snd l))))"
proof -
  from D have len: "2 \<le> length l" and fin: "all_finite (map snd l)"
    and inc: "strictly_increasing (map fst l)"
    and D': "D = pchip_of (map fst l) (map the (map snd l))"
    by (simp_all add: interp_of_eq_Inr)
  have m: "mapM_err (\<lambda>temp. convert_temperature temp (str ''C'') (str ''F'')) (map snd l)
           = Inr (map (map_option (\<lambda>c. c * 9 / 5 + 32)) (map snd l))"
    by (rule mapM_err_map) simp
  have f: "all_finite (map (map_option (\<lambda>c. c * 9 / 5 + 32)) (map snd l))"
    using fin by (auto simp: all_finite_def list_all_iff)
  have t: "map the (map (map_option (\<lambda>c. c * 9 / 5 + 32)) (map snd l))
           = map (\<lambda>c. 9 / 5 * c + 32) (map the (map snd l))"
    using fin by (auto simp: all_finite_def list_all_iff)
  have P: "PchipInterpolator (map fst l) (map (map_option (\<lambda>c. c * 9 / 5 + 32)) (map snd l))
      = Inr (pchip_of (map fst l)
               (map the (map (map_option (\<lambda>c. c * 9 / 5 + 32)) (map snd l))))"
    using len inc f by (simp add: PchipInterpolator_def)
  show ?thesis
    by (simp only: D86_interop_F_of_def m bind_err_Inr D' px_pchip_of P t)
qed

lemma D86_interop_F_eval:
  assumes D: "interp_of l = Inr D"
  shows "pchip_eval (pchip_of (map fst l) (map (\<lambda>c. 9 / 5 * c + 32) (map the (map snd l)))) v
         = pchip_eval D v * 9 / 5 + 32"
proof -
  from D have len: "2 \<le> length l"
    and D': "D = pchip_of (map fst l) (map the (map snd l))"
    by (simp_all add: interp_of_eq_Inr)
  show ?thesis
    unfolding D' using len
    by (subst pchip_eval_affine) simp_all
qed

lemma VABP_fn_eq:
  assumes D: "interp_of l = Inr D"
  shows "VABP_fn D (map snd l) =
     Inr (((pchip_eval D 10 * 9 / 5 + 32) + (pchip_eval D 30 * 9 / 5 + 32)
          + (pchip_eval D 50 * 9 / 5 + 32) + (pchip_eval D 70 * 9 / 5 + 32)
          + (pchip_eval D 90 * 9 / 5 + 32)) / 5)"
  by (simp only: VABP_fn_def D86_interop_F_of_eq[OF D] bind_err_Inr D86_interop_F_eval[OF D])

lemma MeABP_fn_eq:
  assumes D: "interp_of l = Inr D" and V: "VABP_fn D (map snd l) = Inr V"
  shows "MeABP_fn D (map snd l) =
     Inr (map_option (\<lambda>delta. V - delta)
           (lift2 (\<lambda>p q. exp (- 0.94402 - 0.00865 * p + 2.99791 * q))
              (py_pow (Some (V - 32)) 0.6667)
              (py_pow (Some (((pchip_eval D 90 * 9 / 5 + 32) - (pchip_eval D 10 * 9 / 5 + 32))
                               / (90 - 10))) 0.333)))"
  by (simp only: MeABP_fn_def V D86_interop_F_of_eq[OF D] bind_err_Inr D86_interop_F_eval[OF D]
        Let_def)

lemma canonical_values:
  assumes w: "well_formed_curve l" and D: "interp_of l = Inr D"
    and r: "fst (hd l) \<le> 0" "95 \<le> fst (last l)" and t: "0 \<le> the (snd (hd l))"
  shows "\<And>v. 0 \<le> v \<Longrightarrow> v \<le> 95 \<Longrightarrow> 0 \<le> pchip_eval D v"
    and "\<And>v1 v2. 0 \<le> v1 \<Longrightarrow> v1 \<le> v2 \<Longrightarrow> v2 \<le> 95 \<Longrightarrow> pchip_eval D v1 \<le> pchip_eval D v2"
proof -
  show "pchip_eval D v1 \<le> pchip_eval D v2" if "0 \<le> v1" "v1 \<le> v2" "v2 \<le> 95" for v1 v2
    using that r by (intro well_formed_mono[OF w D]) auto
  show "0 \<le> pchip_eval D v" if "0 \<le> v" "v \<le> 95" for v
  proof -
    have "pchip_eval D (fst (hd l)) \<le> pchip_eval D v"
      using that r by (intro well_formed_mono[OF w D]) auto
    with well_formed_first[OF w D] t show ?thesis by simp
  qed
qed

lemma canonical_ok:
  assumes w: "well_formed_curve l" and D: "interp_of l = Inr D"
    and r: "fst (hd l) \<le> 0" "95 \<le> fst (last l)" and t: "0 \<le> the (snd (hd l))"
  shows "\<exists>T Da S V M. API_D86_TBP l = Inr (D, T) \<and> Daubert_ASTM_D86_TBP l = Inr Da
           \<and> D86_to_D2887 l = Inr S \<and> VABP_fn D (map snd l) = Inr V
           \<and> MeABP_fn D (map snd l) = Inr M"
proof -
  note v = canonical_values[OF w D r t]
  have "\<exists>T. API_D86_TBP l = Inr (D, T)"
  proof (rule API_D86_TBP_ok[OF D])
    fix vol assume "vol \<in> set vol_distl_list"
    then have "0 \<le> vol" "vol \<le> 95" by (auto simp: vol_distl_list_def)
    from v(1)[OF this] show "0 \<le> pchip_eval D vol + 273.15" by simp
  qed
  then obtain T where T: "API_D86_TBP l = Inr (D, T)" by blast
  have "\<exists>Da. Daubert_ASTM_D86_TBP l = Inr Da"
    by (rule Daubert_ASTM_D86_TBP_ok[OF D]) (simp_all add: v)
  then obtain Da where Da: "Daubert_ASTM_D86_TBP l = Inr Da" by blast
  have "0 \<le> pchip_eval D 50" by (simp add: v)
  then have "0 \<le> pchip_eval D 50 * 9 / 5 + 32" by simp
  from D86_to_D2887_ok[OF D T this] obtain S where S: "D86_to_D2887 l = Inr S" by blast
  from VABP_fn_eq[OF D] obtain V where V: "VABP_fn D (map snd l) = Inr V" by blast
  from MeABP_fn_eq[OF D V] obtain M where M: "MeABP_fn D (map snd l) = Inr M" by blast
  from T Da S V M show ?thesis by blast
qed

lemma well_formed_interp: "well_formed_curve l \<Longrightarrow> \<exists>D. interp_of l = Inr D"
  by (simp add: well_formed_curve_def interp_of_eq_Inr)

lemma Oil_init_D86_ok:
  assumes w: "well_formed_curve (lift_points pts)"
    and r: "fst (hd pts) \<le> 0" "95 \<le> fst (last pts)" and t: "0 \<le> snd (hd pts)"
    and tag: "upper tag = str ''D86''"
  shows "\<exists>ol. Oil_init pts d tag = Inr ol"
proof -
  let ?l = "lift_points pts"
  have ne: "pts \<noteq> []" using w by (auto simp: well_formed_curve_def lift_points_def)
  from well_formed_interp[OF w] obtain D where D: "interp_of ?l = Inr D" by blast
  have h: "fst (hd ?l) \<le> 0" "95 \<le> fst (last ?l)" "0 \<le> the (snd (hd ?l))"
    using r t ne by (auto simp: lift_points_def hd_map last_map split: prod.splits)
  from canonical_ok[OF w D h] obtain T Da S V M where
    "API_D86_TBP ?l = Inr (D, T)" "Daubert_ASTM_D86_TBP ?l = Inr Da"
    "D86_to_D2887 ?l = Inr S" "VABP_fn D (map snd ?l) = Inr V"
    "MeABP_fn D (map snd ?l) = Inr M"
    by blast
  then show ?thesis
    using tag by (simp add: Oil_init_def Oil_curves_def Let_def)
qed

section \<open>The derived properties\<close>

lemma Oil_init_D86_curve:
  assumes "Oil_init pts d tag = Inr ol"
  shows "interp_of (D86 ol) = Inr (D86_interp ol)"
  using Oil_init_Inr[OF assms] Oil_curves_interp by blast

lemma D86_F_convert:
  "convert_temperature (Some (pchip_eval (D86_interp ol) v)) (str ''C'') (str ''F'') = Inr (Some (D86_F ol v))"
  by (simp add: D86_F_def)

lemma WatsonK_fn_eq:
  "WatsonK_fn Mv dens =
     (case Mv of None \<Rightarrow> None
      | Some M \<Rightarrow> if M + 460 < 0 \<or> SG_fn dens = 0 then None
                  else Some ((M + 460) powr (1 / 3) / SG_fn dens))"
  by (cases Mv) (simp_all add: WatsonK_fn_def Let_def)

lemma MeABP_value:
  "map_option (\<lambda>delta. V - delta)
     (lift2 (\<lambda>p q. exp (c0 - c1 * p + c2 * q)) (py_pow (Some a) e1) (py_pow (Some b) e2))
   = (if a < 0 \<or> b < 0 then None
      else Some (V - exp (c0 - c1 * a powr e1 + c2 * b powr e2)))"
  by (simp add: lift2_def)

text \<open>
  C4. For every constructed sample with density \<open>dens\<close>: VABP is the mean of the D86 curve
  at 10, 30, 50, 70 and 90 percent, each converted from Celsius to Fahrenheit; MeABP is VABP
  minus \<open>exp (-0.94402 - 0.00865 (VABP - 32)^0.6667 + 2.99791 slope^0.333)\<close> with
  \<open>slope = (D86_F 90 - D86_F 10) / 80\<close>; the specific gravity is \<open>dens / 999.013\<close>; and
  Watson K is \<open>(MeABP + 460)^(1/3) / SG\<close>.  A power of a negative base, and the division
  by a zero specific gravity, give no finite number (\<open>None\<close>) on both sides.
\<close>

theorem derived_scalars:
  assumes "Oil_init pts dens tag = Inr ol"
  shows "(\<forall>v. convert_temperature (Some (pchip_eval (D86_interp ol) v)) (str ''C'') (str ''F'')
              = Inr (Some (D86_F ol v)))
    \<and> VABP ol = (D86_F ol 10 + D86_F ol 30 + D86_F ol 50 + D86_F ol 70 + D86_F ol 90) / 5
    \<and> MeABP ol =
        (if VABP ol - 32 < 0 \<or> (D86_F ol 90 - D86_F ol 10) / 80 < 0 then None
         else Some (VABP ol - exp (- 0.94402 - 0.00865 * (VABP ol - 32) powr 0.6667
                                   + 2.99791 * ((D86_F ol 90 - D86_F ol 10) / 80) powr 0.333)))
    \<and> SG ol = dens / 999.013
    \<and> WatsonK ol =
        (case MeABP ol of None \<Rightarrow> None
         | Some M \<Rightarrow> if M + 460 < 0 \<or> SG ol = 0 then None
                     else Some ((M + 460) powr (1 / 3) / SG ol))"
proof -
  note s = Oil_init_Inr[OF assms]
  note D = Oil_init_D86_curve[OF assms]
  have V: "VABP ol = (D86_F ol 10 + D86_F ol 30 + D86_F ol 50 + D86_F ol 70 + D86_F ol 90) / 5"
    using s VABP_fn_eq[OF D] by (simp add: D86_F_def)
  have Vf: "VABP_fn (D86_interp ol) (map snd (D86 ol)) = Inr (VABP ol)" using s by simp
  have M: "MeABP ol =
        (if VABP ol - 32 < 0 \<or> (D86_F ol 90 - D86_F ol 10) / 80 < 0 then None
         else Some (VABP ol - exp (- 0.94402 - 0.00865 * (VABP ol - 32) powr 0.6667
                                   + 2.99791 * ((D86_F ol 90 - D86_F ol 10) / 80) powr 0.333)))"
  proof -
    have "Inr (MeABP ol) = MeABP_fn (D86_interp ol) (map snd (D86 ol))" using s by simp
    also note MeABP_fn_eq[OF D Vf]
    finally have "MeABP ol =
        (if VABP ol - 32 < 0
            \<or> ((pchip_eval (D86_interp ol) 90 * 9 / 5 + 32)
                - (pchip_eval (D86_interp ol) 10 * 9 / 5 + 32)) / (90 - 10) < 0 then None
         else Some (VABP ol - exp (- 0.94402 - 0.00865 * (VABP ol - 32) powr 0.6667
               + 2.99791 * (((pchip_eval (D86_interp ol) 90 * 9 / 5 + 32)
                - (pchip_eval (D86_interp ol) 10 * 9 / 5 + 32)) / (90 - 10)) powr 0.333)))"
      unfolding MeABP_value by simp
    then show ?thesis by (simp add: D86_F_def)
  qed
  have G: "SG ol = dens / 999.013" using s by (simp add: SG_fn_def)
  have W: "WatsonK ol =
        (case MeABP ol of None \<Rightarrow> None
         | Some M \<Rightarrow> if M + 460 < 0 \<or> SG ol = 0 then None
                     else Some ((M + 460) powr (1 / 3) / SG ol))"
  proof -
    have g: "SG_fn dens = SG ol" using s by simp
    have "WatsonK ol = WatsonK_fn (MeABP ol) dens" using s by simp
    then show ?thesis unfolding WatsonK_fn_eq g .
  qed
  from V M G W D86_F_convert show ?thesis by blast
qed

lemma wf_three_points: "well_formed_curve (lift_points [(0, 160), (50, 225), (100, 290)])"
  by (simp add: well_formed_curve_def lift_points_def all_finite_def)

lemma upper_D86: "upper (str ''D86'') = str ''D86''"
  by (simp add: str_def upper_cp_ascii)

lemma three_points_ok: "\<exists>ol. Oil_init [(0, 160), (50, 225), (100, 290)] 820 (str ''D86'') = Inr ol"
  by (rule Oil_init_D86_ok[OF wf_three_points _ _ _ upper_D86]) simp_all

theorem derived_scalars_witness:
  "\<exists>ol. Oil_init [(0, 160), (50, 225), (100, 290)] 820 (str ''D86'') = Inr ol
     \<and> VABP ol = (D86_F ol 10 + D86_F ol 30 + D86_F ol 50 + D86_F ol 70 + D86_F ol 90) / 5
     \<and> SG ol = 820 / 999.013"
proof -
  from three_points_ok obtain ol
    where ol: "Oil_init [(0, 160), (50, 225), (100, 290)] 820 (str ''D86'') = Inr ol" by blast
  from derived_scalars[OF ol] ol show ?thesis by blast
qed

section \<open>Monotonicity of the D86 curve\<close>

text \<open>
  C5, as the code has it.  For a constructed sample whose canonical D86 temperatures are
  strictly increasing, the D86 interpolant is strictly increasing between its first and its
  last knot: \<open>D86 v1 < D86 v2\<close> for \<open>v1 < v2\<close> in that range.  Outside the knot range
  the boundary polynomial is used and nothing is promised.
\<close>

theorem D86_curve_increasing:
  assumes "Oil_init pts d tag = Inr ol"
    and "strictly_increasing (map the (original_temperatures ol))"
    and "hd (original_volperc_distilled ol) \<le> v1" "v1 < v2"
        "v2 \<le> last (original_volperc_distilled ol)"
  shows "pchip_eval (D86_interp ol) v1 < pchip_eval (D86_interp ol) v2"
proof -
  note s = Oil_init_Inr[OF assms(1)]
  from Oil_init_D86_curve[OF assms(1)]
  have len: "2 \<le> length (D86 ol)" and inc: "strictly_increasing (map fst (D86 ol))"
    and D: "D86_interp ol = pchip_of (map fst (D86 ol)) (map the (map snd (D86 ol)))"
    by (simp_all add: interp_of_eq_Inr)
  have ne: "map fst (D86 ol) \<noteq> []" using len by auto
  show ?thesis
    unfolding D
    using assms(2-5) s len inc ne
    by (intro pchip_strictly_increasing) (simp_all add: hd_conv_nth)
qed

theorem D86_curve_increasing_witness:
  "\<exists>ol. Oil_init [(0, 160), (50, 225), (100, 290)] 820 (str ''D86'') = Inr ol
     \<and> strictly_increasing (map the (original_temperatures ol))
     \<and> hd (original_volperc_distilled ol) \<le> 10 \<and> (10 :: real) < 90
     \<and> 90 \<le> last (original_volperc_distilled ol)
     \<and> pchip_eval (D86_interp ol) 10 < pchip_eval (D86_interp ol) 90"
proof -
  from three_points_ok obtain ol
    where ol: "Oil_init [(0, 160), (50, 225), (100, 290)] 820 (str ''D86'') = Inr ol" by blast
  from Oil_curves_D86[OF upper_D86] Oil_init_Inr[OF ol]
  have d: "D86 ol = lift_points [(0, 160), (50, 225), (100, 290)]" by blast
  have t: "strictly_increasing (map the (original_temperatures ol))"
    and v: "hd (original_volperc_distilled ol) \<le> 10" "90 \<le> last (original_volperc_distilled ol)"
    using Oil_init_Inr[OF ol] by (simp_all add: d lift_points_def)
  from D86_curve_increasing[OF ol t v(1) _ v(2)] ol t v show ?thesis by simp
qed

text \<open>
  A D86 curve with knots 0, 50 and 95 and increasing temperatures is not increasing on
  [0, 100]: the value extrapolated at 100 is below the value at 95.
\<close>

lemma wf_short_curve: "well_formed_curve (lift_points [(0, 100), (50, 199), (95, 200)])"
  by (simp add: well_formed_curve_def lift_points_def all_finite_def)

lemma short_curve_ok: "\<exists>ol. Oil_init [(0, 100), (50, 199), (95, 200)] 820 (str ''D86'') = Inr ol"
  by (rule Oil_init_D86_ok[OF wf_short_curve _ _ _ upper_D86]) simp_all

lemma short_curve_eval:
  "pchip_eval (pchip_of [0, 50, 95] [100, 199, 200]) 100 = 3807900619 / 19040751"
  "pchip_eval (pchip_of [0, 50, 95] [100, 199, 200]) 95 = 200"
  by (simp_all add: pchip_eval_def pchip_of_def hermite_coeffs_def find_derivatives_def hk_of_def
        mk_of_def edge_case_def interior_derivative_def hermite_tuple_def eval_poly_def Let_def
        upt_rec power3_eq_cube power2_eq_square)

theorem D86_extrapolation_decreases:
  "\<not> isl (Oil_init [(0, 100), (50, 199), (95, 200)] 820 (str ''D86''))
   \<and> strictly_increasing
        (map the (original_temperatures (projr (Oil_init [(0, 100), (50, 199), (95, 200)] 820 (str ''D86'')))))
   \<and> pchip_eval (D86_interp (projr (Oil_init [(0, 100), (50, 199), (95, 200)] 820 (str ''D86'')))) 100
       < pchip_eval (D86_interp (projr (Oil_init [(0, 100), (50, 199), (95, 200)] 820 (str ''D86'')))) 95"
proof -
  from short_curve_ok obtain ol
    where ol: "Oil_init [(0, 100), (50, 199), (95, 200)] 820 (str ''D86'') = Inr ol" by blast
  from Oil_curves_D86[OF upper_D86] Oil_init_Inr[OF ol]
  have d: "D86 ol = lift_points [(0, 100), (50, 199), (95, 200)]" by blast
  from Oil_init_D86_curve[OF ol]
  have D: "D86_interp ol = pchip_of [0, 50, 95] [100, 199, 200]"
    by (simp add: interp_of_eq_Inr d lift_points_def)
  have t: "strictly_increasing (map the (original_temperatures ol))"
    using Oil_init_Inr[OF ol] by (simp add: d lift_points_def)
  show ?thesis unfolding ol using t by (simp add: D short_curve_eval)
qed


section \<open>Number of points\<close>

lemma interp_of_short: "length l < 2 \<Longrightarrow> interp_of l = Inl InvalidCurveInput"
  by (simp add: interp_of_def PchipInterpolator_def)

lemma Oil_curves_short:
  assumes "length l < 2"
  shows "Oil_curves l tag = Inl InvalidCurveInput \<or> Oil_curves l tag = Inl InvalidFamily"
  using interp_of_short[OF assms]
  by (simp add: Oil_curves_def API_D86_TBP_def D2887_to_D86_def TBP_to_D86_def)

text \<open>
  C7, as the code has it.  Construction fails for every input of fewer than 2 points
  (with the curve error, or the family error for an unknown tag), and 2 points with
  strictly increasing x and finite y suffice to build an interpolant.  The constructor
  itself has no check for 3 points.
\<close>

theorem minimum_points:
  "(length pts < 2 \<longrightarrow>
      Oil_init pts d tag = Inl InvalidCurveInput \<or> Oil_init pts d tag = Inl InvalidFamily)
   \<and> (2 \<le> length l \<and> strictly_increasing (map fst l) \<and> all_finite (map snd l) \<longrightarrow>
        (\<exists>p. interp_of l = Inr p \<and> px p = map fst l))"
proof -
  have "Oil_init pts d tag = Inl InvalidCurveInput \<or> Oil_init pts d tag = Inl InvalidFamily"
    if "length pts < 2"
  proof -
    from that have "length (lift_points pts) < 2" by (simp add: lift_points_def)
    from Oil_curves_short[OF this, of tag] show ?thesis
      by (auto simp: Oil_init_def)
  qed
  then show ?thesis by (simp add: interp_of_eq_Inr)
qed

theorem minimum_points_witness:
  "length [(0, 160 :: real)] < 2
   \<and> Oil_init [(0, 160)] 820 (str ''D86'') = Inl InvalidCurveInput
   \<and> (\<exists>p. interp_of [(0, Some 160), (100, Some 290)] = Inr p \<and> px p = [0, 100])"
proof -
  have a: "Oil_init [(0, 160)] 820 (str ''D86'') \<noteq> Inl InvalidFamily"
    by (simp add: Oil_init_family_iff upper_D86)
  have b: "2 \<le> length [(0 :: real, Some (160 :: real)), (100, Some 290)]
      \<and> strictly_increasing (map fst [(0 :: real, Some (160 :: real)), (100, Some 290)])
      \<and> all_finite (map snd [(0 :: real, Some (160 :: real)), (100, Some 290)])"
    by (simp add: all_finite_def)
  from minimum_points[of "[(0, 160)]" 820 "str ''D86''" "[(0, Some 160), (100, Some 290)]"] a b
  show ?thesis by simp
qed

text \<open>A D86 input of two points constructs a sample.\<close>

lemma wf_two_points: "well_formed_curve (lift_points [(0, 160), (100, 290)])"
  by (simp add: well_formed_curve_def lift_points_def all_finite_def)

theorem two_points_construct: "\<not> isl (Oil_init [(0, 160), (100, 290)] 820 (str ''D86''))"
proof -
  have "\<exists>ol. Oil_init [(0, 160), (100, 290)] 820 (str ''D86'') = Inr ol"
    by (rule Oil_init_D86_ok[OF wf_two_points _ _ _ upper_D86]) simp_all
  then show ?thesis by auto
qed

section \<open>What the sample stores\<close>

text \<open>
  C8, as the code has it.  The stored volume and temperature lists are the components of
  the canonical D86 list: the input points for the D86 family, the output of the D2887
  normalizer (keys 0, 10, 30, 50, 70, 90, 100) for the D2887 family, and the output of the
  TBP normalizer (keys 0, 10, 30, 50, 70, 90, 95, 100) for the TBP family.
\<close>

theorem stored_points:
  assumes "Oil_init pts d tag = Inr ol"
  shows "original_volperc_distilled ol = map fst (D86 ol)
    \<and> original_temperatures ol = map snd (D86 ol)
    \<and> (upper tag = str ''D86'' \<longrightarrow> D86 ol = lift_points pts)
    \<and> (upper tag \<in> {str ''D2887'', str ''SIMDIS''} \<longrightarrow>
          D2887_to_D86 (lift_points pts) = Inr (D86 ol)
          \<and> original_volperc_distilled ol = [0, 10, 30, 50, 70, 90, 100])
    \<and> (upper tag = str ''TBP'' \<longrightarrow>
          TBP_to_D86 (lift_points pts) = Inr (D86 ol)
          \<and> original_volperc_distilled ol = [0, 10, 30, 50, 70, 90, 95, 100])"
proof -
  note s = Oil_init_Inr[OF assms]
  then have c: "Oil_curves (lift_points pts) tag
           = Inr (D86 ol, D86_interp ol, TBP_interp ol, Daubert_TBP_interp ol, D2887_interp ol)"
    by simp
  have a: "D86 ol = lift_points pts" if "upper tag = str ''D86''"
    using Oil_curves_D86[OF that c] by simp
  have b: "D2887_to_D86 (lift_points pts) = Inr (D86 ol)
          \<and> original_volperc_distilled ol = [0, 10, 30, 50, 70, 90, 100]"
    if "upper tag \<in> {str ''D2887'', str ''SIMDIS''}"
    using Oil_curves_D2887[OF that c] D2887_to_D86_fst[of "lift_points pts" "D86 ol"] s
    by (simp add: key_points_def)
  have e: "TBP_to_D86 (lift_points pts) = Inr (D86 ol)
          \<and> original_volperc_distilled ol = [0, 10, 30, 50, 70, 90, 95, 100]"
    if "upper tag = str ''TBP''"
    using Oil_curves_TBP[OF that c] TBP_to_D86_fst[of "lift_points pts" "D86 ol"] s
    by simp
  from s a b e show ?thesis by blast
qed

theorem stored_points_witness:
  "\<exists>ol. Oil_init [(0, 160), (50, 225), (100, 290)] 820 (str ''D86'') = Inr ol
     \<and> original_volperc_distilled ol = [0, 50, 100]
     \<and> original_temperatures ol = [Some 160, Some 225, Some 290]"
proof -
  from three_points_ok obtain ol
    where ol: "Oil_init [(0, 160), (50, 225), (100, 290)] 820 (str ''D86'') = Inr ol" by blast
  from stored_points[OF ol] upper_D86 ol show ?thesis
    by (auto simp: lift_points_def)
qed

section \<open>Bounds on real powers\<close>

lemma root_of_power:
  fixes c :: real
  assumes "0 < c" "0 < n"
  shows "(c ^ n) powr (1 / real n) = c"
proof -
  have "(c ^ n) powr (1 / real n) = (c powr real n) powr (1 / real n)"
    using assms by (simp add: powr_realpow)
  also have "\<dots> = c powr (real n * (1 / real n))" by (simp only: powr_powr)
  also have "\<dots> = c" using assms by simp
  finally show ?thesis .
qed

lemma powr_root_lower:
  fixes c x :: real
  assumes "0 < c" "0 < n" "c ^ n \<le> x"
  shows "c \<le> x powr (1 / real n)"
proof -
  have "(c ^ n) powr (1 / real n) \<le> x powr (1 / real n)"
    using assms by (intro powr_mono2) simp_all
  then show ?thesis by (simp only: root_of_power[OF assms(1,2)])
qed

lemma powr_root_upper:
  fixes c x :: real
  assumes "0 < c" "0 < n" "0 \<le> x" "x \<le> c ^ n"
  shows "x powr (1 / real n) \<le> c"
proof -
  have "x powr (1 / real n) \<le> (c ^ n) powr (1 / real n)"
    using assms by (intro powr_mono2) simp_all
  then show ?thesis by (simp only: root_of_power[OF assms(1,2)])
qed

lemma sq_up:
  fixes x a b :: real
  assumes "x ^ n \<le> a" "0 \<le> x" "a * a \<le> b"
  shows "x ^ (2 * n) \<le> b"
proof -
  have "x ^ (2 * n) = x ^ n * x ^ n" by (simp add: power_add mult_2)
  also have "\<dots> \<le> a * a"
  proof -
    have "0 \<le> x ^ n" using assms(2) by simp
    with assms(1) have "0 \<le> a" by linarith
    with assms show ?thesis by (intro mult_mono) simp_all
  qed
  finally show ?thesis using assms(3) by simp
qed

lemma sq_down:
  fixes x a b :: real
  assumes "a \<le> x ^ n" "0 \<le> a" "b \<le> a * a"
  shows "b \<le> x ^ (2 * n)"
proof -
  have "a * a \<le> x ^ n * x ^ n" using assms by (intro mult_mono) simp_all
  also have "\<dots> = x ^ (2 * n)" by (simp add: power_add mult_2)
  finally show ?thesis using assms(3) by simp
qed

lemma pow_103_128: "(1.03 :: real) ^ 128 \<le> 44.8"
proof -
  have "(1.03 :: real) ^ 2 \<le> 1.061" by (simp add: power2_eq_square)
  from sq_up[OF this, where b = "1.126"] have "(1.03 :: real) ^ 4 \<le> 1.126" by simp
  from sq_up[OF this, where b = "1.268"] have "(1.03 :: real) ^ 8 \<le> 1.268" by simp
  from sq_up[OF this, where b = "1.608"] have "(1.03 :: real) ^ 16 \<le> 1.608" by simp
  from sq_up[OF this, where b = "2.586"] have "(1.03 :: real) ^ 32 \<le> 2.586" by simp
  from sq_up[OF this, where b = "6.688"] have "(1.03 :: real) ^ 64 \<le> 6.688" by simp
  from sq_up[OF this, where b = "44.8"] show ?thesis by simp
qed

lemma anchors_differ: "0.8718 * 437 powr 1.0258 \<noteq> 0.8920 * (437 :: real) powr 1.0176"
proof -
  have "(1.03 :: real) \<le> 437 powr (1 / real 128)"
    using pow_103_128 by (intro powr_root_lower) simp_all
  also have "(437 :: real) powr (1 / real 128) \<le> 437 powr 0.0082"
    by (rule powr_mono) simp_all
  finally have b: "(1.03 :: real) \<le> 437 powr 0.0082" .
  have s: "(437 :: real) powr 1.0258 = 437 powr 1.0176 * 437 powr 0.0082"
    by (simp add: powr_add[symmetric])
  have p: "0 < (437 :: real) powr 1.0176" by simp
  have "0.8920 * (437 :: real) powr 1.0176 < 0.8718 * 1.03 * 437 powr 1.0176"
    using p by simp
  also have "\<dots> = 0.8718 * (437 powr 1.0176 * 1.03)" by simp
  also have "\<dots> \<le> 0.8718 * (437 powr 1.0176 * 437 powr 0.0082)"
    using b p by (intro mult_left_mono) simp_all
  finally show ?thesis unfolding s by simp
qed


section \<open>The Daubert anchor\<close>

lemma Daubert_dict_all_keys:
  assumes "distinct (map fst l)" "\<forall>k \<in> set dist_required. k \<in> fst ` set l"
    and "(k, temp) \<in> set l"
  shows "\<exists>d. Daubert_D86_dict_r l = Inr d \<and> d k = Some (map_option (\<lambda>c. c * 9 / 5 + 32) temp)"
proof -
  define items where
    "items = map (\<lambda>(dist, temp). (dist, map_option (\<lambda>c. c * 9 / 5 + 32) temp)) (rev l)"
  have f: "map fst items = rev (map fst l)"
    by (simp add: items_def rev_map case_prod_beta comp_def)
  have "\<not> list_ex (\<lambda>dist. map_of items dist = None) dist_required"
  proof -
    have "fst ` set items = fst ` set l"
      using f by (metis set_map set_rev)
    then show ?thesis using assms(2) by (auto simp: list_ex_iff map_of_eq_None_iff)
  qed
  then have r: "Daubert_D86_dict_r l = Inr (map_of items)"
    by (simp add: Daubert_D86_dict_r_def Daubert_items' items_def Let_def)
  have "distinct (map fst items)" using assms(1) f by simp
  moreover have "(k, map_option (\<lambda>c. c * 9 / 5 + 32) temp) \<in> set items"
    using assms(3) by (force simp: items_def)
  ultimately have "map_of items k = Some (map_option (\<lambda>c. c * 9 / 5 + 32) temp)"
    by (rule map_of_is_SomeI)
  with r show ?thesis by simp
qed

lemma Daubert_TBP_50_value:
  assumes "d 50 = Some (Some f)"
  shows "Daubert_TBP_50 d = Inr (if f < 0 then None else Some (0.8718 * f powr 1.0258))"
  using assms
  by (simp add: Daubert_TBP_50_def dict_read_def Daubert_power_def dict_get_def
        Daubert_constants_def)

lemma Daubert_TBP_r_list_anchor:
  assumes "Daubert_TBP_r_list d = Inr ys" "Daubert_TBP_50 d = Inr a"
  shows "ys ! 3 = (50, a)"
  using assms
  by (auto simp: Daubert_TBP_r_list_def bind_err_eq_Inr Let_def)

lemma Daubert_anchor_value:
  assumes "distinct (map fst l)" "\<forall>k \<in> set dist_required. k \<in> fst ` set l"
    and "(50, Some t50) \<in> set l"
  shows "bind_err (Daubert_D86_dict_r l) Daubert_TBP_50
           = Inr (if t50 * 9 / 5 + 32 < 0 then None
                  else Some (0.8718 * (t50 * 9 / 5 + 32) powr 1.0258))"
proof -
  from Daubert_dict_all_keys[OF assms] obtain d where
    d: "Daubert_D86_dict_r l = Inr d" "d 50 = Some (Some (t50 * 9 / 5 + 32))"
    by auto
  from Daubert_TBP_50_value[of d "t50 * 9 / 5 + 32"] d show ?thesis by simp
qed

text \<open>
  C2, as the code has it.  For a D86 list with distinct volumes that contains all seven
  standard keys, with temperature \<open>t50\<close> (Celsius) at 50 percent, the Daubert method computes
  the anchor \<open>TBP(50)_F = 0.8718 D86(50)_F ^ 1.0258\<close>: the coefficients are the fourth
  Daubert constant, not the API pair of key 50, and the anchor is the entry of key 50 in the
  Fahrenheit list the interpolant is built from.
\<close>

theorem Daubert_anchor:
  assumes "distinct (map fst l)" "\<forall>k \<in> set dist_required. k \<in> fst ` set l"
    and "(50, Some t50) \<in> set l"
  shows "bind_err (Daubert_D86_dict_r l) Daubert_TBP_50
           = Inr (if t50 * 9 / 5 + 32 < 0 then None
                  else Some (0.8718 * (t50 * 9 / 5 + 32) powr 1.0258))
    \<and> (\<forall>ys. bind_err (Daubert_D86_dict_r l) Daubert_TBP_r_list = Inr ys \<longrightarrow>
           ys ! 3 = (50, if t50 * 9 / 5 + 32 < 0 then None
                         else Some (0.8718 * (t50 * 9 / 5 + 32) powr 1.0258)))"
proof -
  note a = Daubert_anchor_value[OF assms]
  from Daubert_dict_all_keys[OF assms] obtain d where
    d: "Daubert_D86_dict_r l = Inr d" by auto
  with a have "Daubert_TBP_50 d = Inr (if t50 * 9 / 5 + 32 < 0 then None
                  else Some (0.8718 * (t50 * 9 / 5 + 32) powr 1.0258))" by simp
  with d Daubert_TBP_r_list_anchor[of d] a show ?thesis by simp
qed

lemma eight_points_keys:
  "distinct (map fst (lift_points
      [(0, 160), (10, 170), (30, 190), (50, 225), (70, 260), (90, 280), (95, 285), (100, 290)]))"
  "\<forall>k \<in> set dist_required. k \<in> fst ` set (lift_points
      [(0, 160), (10, 170), (30, 190), (50, 225), (70, 260), (90, 280), (95, 285), (100, 290)])"
  "(50, Some 225) \<in> set (lift_points
      [(0, 160), (10, 170), (30, 190), (50, 225), (70, 260), (90, 280), (95, 285), (100, 290)])"
  by (simp_all add: lift_points_def dist_required_def)

theorem Daubert_anchor_witness:
  "bind_err (Daubert_D86_dict_r (lift_points
      [(0, 160), (10, 170), (30, 190), (50, 225), (70, 260), (90, 280), (95, 285), (100, 290)]))
      Daubert_TBP_50 = Inr (Some (0.8718 * 437 powr 1.0258))"
  using Daubert_anchor[OF eight_points_keys] by simp

text \<open>The anchor is not the value of the API relation of key 50.\<close>

theorem Daubert_anchor_not_API:
  "bind_err (Daubert_D86_dict_r (lift_points
      [(0, 160), (10, 170), (30, 190), (50, 225), (70, 260), (90, 280), (95, 285), (100, 290)]))
      Daubert_TBP_50 \<noteq> Inr (Some (0.8920 * 437 powr 1.0176))"
  using Daubert_anchor_value[OF eight_points_keys] anchors_differ by simp

section \<open>The Daubert method on a curve with a missing key\<close>

text \<open>
  C3 at the three-point curve of the tests: a key is missing, every required key is read
  from the Celsius interpolant without conversion, and the anchor is computed from 225
  (Celsius) where the Fahrenheit value is 437.
\<close>

theorem Daubert_missing_key_celsius:
  "bind_err (Daubert_D86_dict_r (lift_points [(0, 160), (50, 225), (100, 290)]))
      (\<lambda>d. dict_read d 50) = Inr (Some 225)
   \<and> convert_temperature (Some 225) (str ''C'') (str ''F'') = Inr (Some 437)
   \<and> bind_err (Daubert_D86_dict_r (lift_points [(0, 160), (50, 225), (100, 290)]))
      Daubert_TBP_50 = Inr (Some (0.8718 * 225 powr 1.0258))"
proof -
  let ?l = "lift_points [(0, 160), (50, 225), (100, 290)]"
  have D: "interp_of ?l = Inr (pchip_of [0, 50, 100] [160, 225, 290])"
    by (simp add: interp_of_eq_Inr lift_points_def all_finite_def)
  have k: "pchip_eval (pchip_of [0, 50, 100] [160, 225, 290]) 50 = 225"
    using pchip_eval_knot[of "[0, 50, 100]" 1 "[160, 225, 290]"] by simp
  have r: "bind_err (Daubert_D86_dict_r ?l) (\<lambda>d. dict_read d 50) = Inr (Some 225)"
    using D k
    by (simp add: Daubert_D86_dict_r_def Let_def dist_required_def dict_read_def
          lift_points_def[of "[(0, 160), (50, 225), (100, 290)]"])
  have a: "bind_err (Daubert_D86_dict_r ?l) Daubert_TBP_50 = Inr (Some (0.8718 * 225 powr 1.0258))"
    using D k
    by (simp add: Daubert_D86_dict_r_def Let_def dist_required_def Daubert_TBP_50_def
          dict_read_def Daubert_power_def dict_get_def Daubert_constants_def
          lift_points_def[of "[(0, 160), (50, 225), (100, 290)]"])
  from r a show ?thesis by simp
qed

section \<open>Further bounds on real powers\<close>

lemma pow_103_256: "1211 \<le> (1.03 :: real) ^ 256"
proof -
  have "1.06 \<le> (1.03 :: real) ^ 2" by (simp add: power2_eq_square)
  from sq_down[OF this, where b = "1.12"] have "1.12 \<le> (1.03 :: real) ^ 4" by simp
  from sq_down[OF this, where b = "1.25"] have "1.25 \<le> (1.03 :: real) ^ 8" by simp
  from sq_down[OF this, where b = "1.56"] have "1.56 \<le> (1.03 :: real) ^ 16" by simp
  from sq_down[OF this, where b = "2.43"] have "2.43 \<le> (1.03 :: real) ^ 32" by simp
  from sq_down[OF this, where b = "5.9"] have "5.9 \<le> (1.03 :: real) ^ 64" by simp
  from sq_down[OF this, where b = "34.8"] have "34.8 \<le> (1.03 :: real) ^ 128" by simp
  from sq_down[OF this, where b = "1211"] show ?thesis by simp
qed

lemma pow_1007_1024: "1053 \<le> (1.007 :: real) ^ 1024"
proof -
  have "1.014 \<le> (1.007 :: real) ^ 2" by (simp add: power2_eq_square)
  from sq_down[OF this, where b = "1.028"] have "1.028 \<le> (1.007 :: real) ^ 4" by simp
  from sq_down[OF this, where b = "1.056"] have "1.056 \<le> (1.007 :: real) ^ 8" by simp
  from sq_down[OF this, where b = "1.115"] have "1.115 \<le> (1.007 :: real) ^ 16" by simp
  from sq_down[OF this, where b = "1.243"] have "1.243 \<le> (1.007 :: real) ^ 32" by simp
  from sq_down[OF this, where b = "1.545"] have "1.545 \<le> (1.007 :: real) ^ 64" by simp
  from sq_down[OF this, where b = "2.387"] have "2.387 \<le> (1.007 :: real) ^ 128" by simp
  from sq_down[OF this, where b = "5.697"] have "5.697 \<le> (1.007 :: real) ^ 256" by simp
  from sq_down[OF this, where b = "32.45"] have "32.45 \<le> (1.007 :: real) ^ 512" by simp
  from sq_down[OF this, where b = "1053"] show ?thesis by simp
qed

text \<open>a power with an exponent just below 1, for a base of ordinary size\<close>
lemma powr_near_one:
  fixes R b c :: real
  assumes R: "1 \<le> R" "R \<le> c ^ n" and c: "0 < c" and n: "0 < n"
    and b: "1 - b \<le> 1 / real n" "b \<le> 1"
  shows "R / c \<le> R powr b" and "R powr b \<le> R"
proof -
  have "R powr b \<le> R powr 1" using R b by (intro powr_mono) simp_all
  then show "R powr b \<le> R" using R by simp
  have "R powr (1 - b) \<le> R powr (1 / real n)" using R b by (intro powr_mono) simp_all
  also have "\<dots> \<le> c" using R c n by (intro powr_root_upper) simp_all
  finally have u: "R powr (1 - b) \<le> c" .
  have p: "0 < R powr (1 - b)" using R by simp
  have "R powr b = R powr (1 - (1 - b))" by simp
  also have "\<dots> = R powr 1 / R powr (1 - b)" by (rule powr_diff)
  also have "\<dots> = R / R powr (1 - b)" using R by simp
  finally have e: "R powr b = R / R powr (1 - b)" .
  have "R / c \<le> R / R powr (1 - b)"
    using u p R c by (intro divide_left_mono) (simp_all add: mult_pos_pos)
  then show "R / c \<le> R powr b" by (simp only: e)
qed

lemma riazi_vs_API_50:
  "0.9977 * (896.67 :: real) powr 0.9992 \<noteq> (896.67 / 0.77601) powr (1 / 1.0395)"
proof -
  let ?X = "896.67 / 0.77601 :: real"
  have L: "896.67 / 1.007 \<le> (896.67 :: real) powr 0.9992"
    using pow_1007_1024 by (intro powr_near_one(1)[where n = 1024]) simp_all
  have X: "1155 \<le> ?X" by simp
  have "(1.305 :: real) ^ 79 \<le> 1155 ^ 3" by (simp add: power_divide divide_le_eq)
  also have "\<dots> \<le> ?X ^ 3" using X by (intro power_mono) simp_all
  finally have "(1.305 :: real) \<le> (?X ^ 3) powr (1 / real 79)"
    by (intro powr_root_lower) simp_all
  also have "(?X ^ 3) powr (1 / real 79) = ?X powr (3 / 79)"
  proof -
    have "?X ^ 3 = ?X powr (real 3)" by (rule powr_realpow[symmetric]) simp
    then have "(?X ^ 3) powr (1 / real 79) = ?X powr (real 3 * (1 / real 79))"
      by (simp only: powr_powr)
    then show ?thesis by simp
  qed
  also have "\<dots> \<le> ?X powr (1 - 1 / 1.0395)"
    using X by (intro powr_mono) simp_all
  finally have u: "1.305 \<le> ?X powr (1 - 1 / 1.0395)" .
  have "?X powr (1 / 1.0395) = ?X powr (1 - (1 - 1 / 1.0395))" by simp
  also have "\<dots> = ?X powr 1 / ?X powr (1 - 1 / 1.0395)" by (rule powr_diff)
  also have "\<dots> = ?X / ?X powr (1 - 1 / 1.0395)" by simp
  also have "\<dots> \<le> ?X / 1.305"
    using u by (intro divide_left_mono) simp_all
  finally have M: "?X powr (1 / 1.0395) \<le> ?X / 1.305" .
  have "?X / 1.305 < 0.9977 * (896.67 / 1.007)" by simp
  also have "\<dots> \<le> 0.9977 * (896.67 :: real) powr 0.9992"
    using L by simp
  finally show ?thesis using M by simp
qed


section \<open>The D2887 family\<close>

lemma riazi_point_value:
  assumes "map_of c vol = Some (a, b)"
  shows "riazi_point c p vol = Inr (vol, riazi_forward_C a b (pchip_eval p vol))"
  using assms by (simp add: riazi_point_def dict_get_def riazi_forward_C_def Let_def)

lemma D2887_to_D86_value:
  assumes "interp_of l = Inr p"
  shows "D2887_to_D86 l =
     Inr [(0, riazi_forward_C 0.9965 0.9985 (pchip_eval p 0)),
          (10, riazi_forward_C 0.9970 0.9988 (pchip_eval p 10)),
          (30, riazi_forward_C 0.9975 0.9990 (pchip_eval p 30)),
          (50, riazi_forward_C 0.9977 0.9992 (pchip_eval p 50)),
          (70, riazi_forward_C 0.9975 0.9990 (pchip_eval p 70)),
          (90, riazi_forward_C 0.9968 0.9986 (pchip_eval p 90)),
          (100, riazi_forward_C 0.9960 0.9982 (pchip_eval p 100))]"
proof -
  have m: "map_of riazi_d86_coefficients 0 = Some (0.9965, 0.9985)"
    "map_of riazi_d86_coefficients 10 = Some (0.9970, 0.9988)"
    "map_of riazi_d86_coefficients 30 = Some (0.9975, 0.9990)"
    "map_of riazi_d86_coefficients 50 = Some (0.9977, 0.9992)"
    "map_of riazi_d86_coefficients 70 = Some (0.9975, 0.9990)"
    "map_of riazi_d86_coefficients 90 = Some (0.9968, 0.9986)"
    "map_of riazi_d86_coefficients 100 = Some (0.9960, 0.9982)"
    by (simp_all add: riazi_d86_coefficients_def)
  show ?thesis
    by (simp add: D2887_to_D86_def assms key_points_def m[THEN riazi_point_value])
qed

lemma D2887_to_TBP_direct_ok:
  assumes p: "interp_of l = Inr p"
    and v: "\<And>vol. vol \<in> set key_points \<Longrightarrow> 0 \<le> pchip_eval p vol * 9 / 5 + 491.67"
  shows "\<exists>T. D2887_to_TBP_direct l = Inr T"
proof -
  have "\<exists>y. riazi_point riazi_tbp_coefficients p vol = Inr y \<and> point_at vol y"
    if "vol \<in> set key_points" for vol
  proof -
    have "map fst riazi_tbp_coefficients = key_points"
      by (simp add: riazi_tbp_coefficients_def key_points_def)
    then have "vol \<in> fst ` set riazi_tbp_coefficients" using that by (metis set_map)
    then obtain a b where "map_of riazi_tbp_coefficients vol = Some (a, b)"
      by (cases "map_of riazi_tbp_coefficients vol") (auto simp: map_of_eq_None_iff)
    from riazi_point_value[OF this] v[OF that] show ?thesis
      by (simp add: riazi_forward_C_def Let_def)
  qed
  from mapM_err_ok[of key_points "riazi_point riazi_tbp_coefficients p" point_at, OF this]
  obtain ys where ys: "mapM_err (riazi_point riazi_tbp_coefficients p) key_points = Inr ys"
    "list_all2 point_at key_points ys" by blast
  then have "map fst ys = key_points" using list_all2_points by blast
  then have s: "sort_key fst ys = ys" by (intro sort_key_fst_id) (simp add: key_points_def)
  from interp_of_ok[OF ys(2) key_points_increasing(2,1)] obtain T where "interp_of ys = Inr T"
    by blast
  with p ys(1) s show ?thesis by (simp add: D2887_to_TBP_direct_def)
qed


section \<open>The D2887 sample curve\<close>

subsection \<open>The sample curve\<close>

lemma all_finite_simps:
  "all_finite [] = True" "all_finite (Some v # ys) = all_finite ys"
  "all_finite (None # ys) = False"
  by (simp_all add: all_finite_def)

lemma riazi_step:
  fixes a b R a' b' R' :: real
  assumes "1 \<le> R" "b \<le> 1" "0 < a"
    and "1 \<le> R'" "R' \<le> 1211" "1 - b' \<le> 1 / 256" "b' \<le> 1" "0 < a'"
    and "a * R < a' * (R' / 1.03)"
  shows "(a * R powr b - 491.67) * 5 / 9 < (a' * R' powr b' - 491.67) * 5 / 9"
proof -
  have "R powr b \<le> R powr 1" using assms by (intro powr_mono) simp_all
  then have "a * R powr b \<le> a * R" using assms by simp
  also note assms(9)
  also have "a' * (R' / 1.03) \<le> a' * R' powr b'"
  proof -
    have "R' / 1.03 \<le> R' powr b'"
      using assms pow_103_256 by (intro powr_near_one(1)[where n = 256]) simp_all
    then show ?thesis using assms by simp
  qed
  finally show ?thesis by simp
qed

lemma riazi_first:
  fixes a b R :: real
  assumes "1 \<le> R" "R \<le> 1211" "1 - b \<le> 1 / 256" "b \<le> 1" "0 < a"
    and "491.67 \<le> a * (R / 1.03)"
  shows "0 \<le> (a * R powr b - 491.67) * 5 / 9"
proof -
  have "R / 1.03 \<le> R powr b"
    using assms pow_103_256 by (intro powr_near_one(1)[where n = 256]) simp_all
  then have "a * (R / 1.03) \<le> a * R powr b" using assms by simp
  with assms(6) show ?thesis by simp
qed

lemma D2887_sample_interp:
  "\<exists>P. interp_of (lift_points D2887_sample) = Inr P
       \<and> pchip_eval P 0 = 160 \<and> pchip_eval P 10 = 180.5 \<and> pchip_eval P 30 = 205
       \<and> pchip_eval P 50 = 225 \<and> pchip_eval P 70 = 245 \<and> pchip_eval P 90 = 270
       \<and> pchip_eval P 100 = 290"
proof -
  let ?l = "lift_points D2887_sample"
  define P where "P = pchip_of [0, 10, 30, 50, 70, 90, 100] [160, 180.5, 205, 225, 245, 270, 290]"
  have P: "interp_of ?l = Inr P"
    by (simp add: interp_of_eq_Inr lift_points_def D2887_sample_def all_finite_simps P_def)
  have m: "(0, Some 160) \<in> set ?l" "(10, Some 180.5) \<in> set ?l" "(30, Some 205) \<in> set ?l"
    "(50, Some 225) \<in> set ?l" "(70, Some 245) \<in> set ?l" "(90, Some 270) \<in> set ?l"
    "(100, Some 290) \<in> set ?l"
    by (simp_all add: lift_points_def D2887_sample_def)
  have "pchip_eval P 0 = 160" "pchip_eval P 10 = 180.5" "pchip_eval P 30 = 205"
    "pchip_eval P 50 = 225" "pchip_eval P 70 = 245" "pchip_eval P 90 = 270"
    "pchip_eval P 100 = 290"
    using m[THEN interp_of_at_point[OF P]] by simp_all
  with P show ?thesis by blast
qed

lemma D2887_sample_D86:
  "D2887_to_D86 (lift_points D2887_sample) =
     Inr [(0, Some ((0.9965 * 779.67 powr 0.9985 - 491.67) * 5 / 9)),
          (10, Some ((0.9970 * 816.57 powr 0.9988 - 491.67) * 5 / 9)),
          (30, Some ((0.9975 * 860.67 powr 0.9990 - 491.67) * 5 / 9)),
          (50, Some ((0.9977 * 896.67 powr 0.9992 - 491.67) * 5 / 9)),
          (70, Some ((0.9975 * 932.67 powr 0.9990 - 491.67) * 5 / 9)),
          (90, Some ((0.9968 * 977.67 powr 0.9986 - 491.67) * 5 / 9)),
          (100, Some ((0.9960 * 1013.67 powr 0.9982 - 491.67) * 5 / 9))]"
proof -
  from D2887_sample_interp obtain P where P: "interp_of (lift_points D2887_sample) = Inr P"
    and e: "pchip_eval P 0 = 160" "pchip_eval P 10 = 180.5" "pchip_eval P 30 = 205"
    "pchip_eval P 50 = 225" "pchip_eval P 70 = 245" "pchip_eval P 90 = 270"
    "pchip_eval P 100 = 290"
    by blast
  show ?thesis
    by (simp add: D2887_to_D86_value[OF P] e riazi_forward_C_def)
qed

lemma D2887_sample_wf:
  "\<exists>d86. D2887_to_D86 (lift_points D2887_sample) = Inr d86 \<and> well_formed_curve d86
         \<and> 0 \<le> the (snd (hd d86))"
proof -
  define y0 where "y0 = (0.9965 * 779.67 powr 0.9985 - 491.67) * 5 / (9 :: real)"
  define y10 where "y10 = (0.9970 * 816.57 powr 0.9988 - 491.67) * 5 / (9 :: real)"
  define y30 where "y30 = (0.9975 * 860.67 powr 0.9990 - 491.67) * 5 / (9 :: real)"
  define y50 where "y50 = (0.9977 * 896.67 powr 0.9992 - 491.67) * 5 / (9 :: real)"
  define y70 where "y70 = (0.9975 * 932.67 powr 0.9990 - 491.67) * 5 / (9 :: real)"
  define y90 where "y90 = (0.9968 * 977.67 powr 0.9986 - 491.67) * 5 / (9 :: real)"
  define y100 where "y100 = (0.9960 * 1013.67 powr 0.9982 - 491.67) * 5 / (9 :: real)"
  define d86 where "d86 = [(0 :: real, Some y0), (10, Some y10), (30, Some y30), (50, Some y50),
      (70, Some y70), (90, Some y90), (100, Some y100)]"
  have n: "D2887_to_D86 (lift_points D2887_sample) = Inr d86"
    unfolding D2887_sample_D86 d86_def y0_def y10_def y30_def y50_def y70_def y90_def y100_def ..
  have o: "y0 < y10" "y10 < y30" "y30 < y50" "y50 < y70" "y70 < y90" "y90 < y100"
    unfolding y0_def y10_def y30_def y50_def y70_def y90_def y100_def
    by (rule riazi_step; simp)+
  have z: "0 \<le> y0" unfolding y0_def by (rule riazi_first) simp_all
  have w: "well_formed_curve d86"
    using o by (simp add: well_formed_curve_def d86_def all_finite_simps)
  from n w z show ?thesis by (auto simp: d86_def)
qed

lemma D2887_sample_ok:
  "\<exists>ol. Oil_init D2887_sample 820 (str ''D2887'') = Inr ol"
proof -
  let ?l = "lift_points D2887_sample"
  from D2887_sample_interp obtain P where P: "interp_of ?l = Inr P"
    and e: "pchip_eval P 0 = 160" "pchip_eval P 10 = 180.5" "pchip_eval P 30 = 205"
    "pchip_eval P 50 = 225" "pchip_eval P 70 = 245" "pchip_eval P 90 = 270"
    "pchip_eval P 100 = 290"
    by blast
  from D2887_sample_wf obtain d86 where n: "D2887_to_D86 ?l = Inr d86"
    and w: "well_formed_curve d86" and z: "0 \<le> the (snd (hd d86))" by blast
  from well_formed_interp[OF w] obtain D where D: "interp_of d86 = Inr D" by blast
  have k: "map fst d86 = key_points" by (rule D2887_to_D86_fst[OF n])
  then have ne: "d86 \<noteq> []" by (auto simp: key_points_def)
  have h: "fst (hd d86) \<le> 0" "95 \<le> fst (last d86)"
  proof -
    have "fst (hd d86) = hd (map fst d86)" using ne by (simp add: hd_map)
    then show "fst (hd d86) \<le> 0" by (simp add: k key_points_def)
    have "fst (last d86) = last (map fst d86)" using ne by (simp add: last_map)
    then show "95 \<le> fst (last d86)" by (simp add: k key_points_def)
  qed
  from canonical_ok[OF w D h z] obtain T Da S V M where c:
    "API_D86_TBP d86 = Inr (D, T)" "Daubert_ASTM_D86_TBP d86 = Inr Da"
    "VABP_fn D (map snd d86) = Inr V" "MeABP_fn D (map snd d86) = Inr M"
    by blast
  have "\<exists>T. D2887_to_TBP_direct ?l = Inr T"
  proof (rule D2887_to_TBP_direct_ok[OF P])
    fix vol assume "vol \<in> set key_points"
    then show "0 \<le> pchip_eval P vol * 9 / 5 + 491.67"
      using e by (auto simp: key_points_def)
  qed
  then obtain T' where T': "D2887_to_TBP_direct ?l = Inr T'" by blast
  have u: "upper (str ''D2887'') = str ''D2887''" by (simp add: str_def upper_cp_ascii)
  show ?thesis
    using n c T' P
    by (simp add: Oil_init_def Oil_curves_def u D2887_to_D2887_interp_def Let_def)
qed


lemma upper_D2887: "upper (str ''D2887'') = str ''D2887''"
  by (simp add: str_def upper_cp_ascii)

subsection \<open>The keys of the normalizer\<close>

text \<open>
  C1, as the code has it.  Whenever the D2887 input has an interpolant, the normalizer returns
  the seven keys 0, 10, 30, 50, 70, 90, 100, each computed from the sampled D2887 temperature
  (converted to Rankine) by the forward Riazi power law \<open>a * R powr b\<close> with the coefficients
  of that key in the D2887 to D86 table, and converted back to Celsius.  Key 50 is no
  exception: its coefficients are 0.9977 and 0.9992, and no inverse of the API relation occurs.
\<close>

theorem D2887_to_D86_keys:
  assumes "interp_of l = Inr p"
  shows "D2887_to_D86 l =
     Inr [(0, riazi_forward_C 0.9965 0.9985 (pchip_eval p 0)),
          (10, riazi_forward_C 0.9970 0.9988 (pchip_eval p 10)),
          (30, riazi_forward_C 0.9975 0.9990 (pchip_eval p 30)),
          (50, riazi_forward_C 0.9977 0.9992 (pchip_eval p 50)),
          (70, riazi_forward_C 0.9975 0.9990 (pchip_eval p 70)),
          (90, riazi_forward_C 0.9968 0.9986 (pchip_eval p 90)),
          (100, riazi_forward_C 0.9960 0.9982 (pchip_eval p 100))]"
  using assms by (rule D2887_to_D86_value)

theorem D2887_to_D86_keys_witness:
  "\<exists>p. interp_of (lift_points D2887_sample) = Inr p
     \<and> D2887_to_D86 (lift_points D2887_sample) =
     Inr [(0, riazi_forward_C 0.9965 0.9985 (pchip_eval p 0)),
          (10, riazi_forward_C 0.9970 0.9988 (pchip_eval p 10)),
          (30, riazi_forward_C 0.9975 0.9990 (pchip_eval p 30)),
          (50, riazi_forward_C 0.9977 0.9992 (pchip_eval p 50)),
          (70, riazi_forward_C 0.9975 0.9990 (pchip_eval p 70)),
          (90, riazi_forward_C 0.9968 0.9986 (pchip_eval p 90)),
          (100, riazi_forward_C 0.9960 0.9982 (pchip_eval p 100))]"
proof -
  from D2887_sample_interp obtain P where P: "interp_of (lift_points D2887_sample) = Inr P"
    by blast
  from D2887_to_D86_keys[OF P] P show ?thesis by blast
qed

text \<open>
  On the sample curve the key 50 of the normalizer is the forward Riazi value of
  225 C = 896.67 R, which is not the value of the inverse API relation.
\<close>

theorem D2887_key_50_not_API_inverse:
  "\<not> isl (Oil_init D2887_sample 820 (str ''D2887''))
   \<and> projr (D2887_to_D86 (lift_points D2887_sample)) ! 3
       = (50, Some ((0.9977 * 896.67 powr 0.9992 - 491.67) * 5 / 9))
   \<and> (0.9977 * 896.67 powr 0.9992 - 491.67) * 5 / 9
       \<noteq> ((896.67 / 0.77601) powr (1 / 1.0395) - 491.67) * 5 / (9 :: real)"
proof -
  from D2887_sample_ok have a: "\<not> isl (Oil_init D2887_sample 820 (str ''D2887''))" by auto
  have b: "projr (D2887_to_D86 (lift_points D2887_sample)) ! 3
       = (50, Some ((0.9977 * 896.67 powr 0.9992 - 491.67) * 5 / 9))"
    unfolding D2887_sample_D86 by (simp add: eval_nat_numeral)
  have c: "(0.9977 * 896.67 powr 0.9992 - 491.67) * 5 / 9
       \<noteq> ((896.67 / 0.77601) powr (1 / 1.0395) - 491.67) * 5 / (9 :: real)"
    using riazi_vs_API_50 by simp
  from a b c show ?thesis by blast
qed

text \<open>
  The sample constructed from the D2887 sample curve does not store the input temperatures.
\<close>

theorem D2887_stored_not_input:
  "\<not> isl (Oil_init D2887_sample 820 (str ''D2887''))
   \<and> original_temperatures (projr (Oil_init D2887_sample 820 (str ''D2887'')))
       \<noteq> map (\<lambda>(v, t). Some t) D2887_sample"
proof -
  from D2887_sample_ok obtain ol where ol: "Oil_init D2887_sample 820 (str ''D2887'') = Inr ol"
    by blast
  have t: "upper (str ''D2887'') \<in> {str ''D2887'', str ''SIMDIS''}" by (simp add: upper_D2887)
  from Oil_init_Inr[OF ol] Oil_curves_D2887[OF t]
  have e: "D2887_to_D86 (lift_points D2887_sample) = Inr (D86 ol)"
    and s: "original_temperatures ol = map snd (D86 ol)" by blast+
  from e have "Inr (D86 ol) = D2887_to_D86 (lift_points D2887_sample)" by (rule sym)
  then have "D86 ol ! 0 = (0, Some ((0.9965 * 779.67 powr 0.9985 - 491.67) * 5 / 9))"
    unfolding D2887_sample_D86 by simp
  moreover from e have "0 < length (D86 ol)"
    unfolding D2887_sample_D86 by auto
  ultimately have d: "original_temperatures ol ! 0
       = Some ((0.9965 * 779.67 powr 0.9985 - 491.67) * 5 / 9)"
    unfolding s by simp
  have "(779.67 :: real) powr 0.9985 \<le> 779.67 powr 1" by (intro powr_mono) simp_all
  then have "0.9965 * (779.67 :: real) powr 0.9985 < 779.67" by simp
  then have "(0.9965 * 779.67 powr 0.9985 - 491.67) * 5 / 9 \<noteq> (160 :: real)" by simp
  with d have "original_temperatures ol ! 0 \<noteq> map (\<lambda>(v, t). Some t) D2887_sample ! 0"
    by (simp add: D2887_sample_def)
  then have "original_temperatures ol \<noteq> map (\<lambda>(v, t). Some t) D2887_sample" by metis
  then show ?thesis unfolding ol by simp
qed

section \<open>Knots of the TBP interpolants\<close>

lemma extrapolate_above_95:
  assumes "px p = [0, 10, 30, 50, 70, 90, 95]" "95 < v"
  shows "pchip_eval p v = eval_poly (pc p ! 5) (v - 90)"
  using assms by (simp add: pchip_eval_def Let_def eval_nat_numeral)

text \<open>
  C10, as the code has it.  The Daubert interpolant is the Daubert synthesis of the canonical
  D86 list; it always has the knots 0, 10, 30, 50, 70, 90, 95 and is extrapolated above 95
  with the polynomial of its last segment.  For the D86 family the exposed TBP interpolant is
  the one of the API method on the input, with the same knots and the same extrapolation.
  For the D2887 family the exposed TBP interpolant is the result of the direct Riazi
  conversion of the input, over the knots 0, 10, 30, 50, 70, 90, 100, and for the TBP family
  it is the interpolant of the input points, over the knots of the input.
\<close>

theorem TBP_knots:
  assumes "Oil_init pts d tag = Inr ol"
  shows "Daubert_ASTM_D86_TBP (D86 ol) = Inr (Daubert_TBP_interp ol)
    \<and> px (Daubert_TBP_interp ol) = [0, 10, 30, 50, 70, 90, 95]
    \<and> (\<forall>v > 95. pchip_eval (Daubert_TBP_interp ol) v
                   = eval_poly (pc (Daubert_TBP_interp ol) ! 5) (v - 90))
    \<and> (upper tag = str ''D86'' \<longrightarrow>
          API_D86_TBP (lift_points pts) = Inr (D86_interp ol, TBP_interp ol)
          \<and> px (TBP_interp ol) = [0, 10, 30, 50, 70, 90, 95]
          \<and> (\<forall>v > 95. pchip_eval (TBP_interp ol) v = eval_poly (pc (TBP_interp ol) ! 5) (v - 90)))
    \<and> (upper tag \<in> {str ''D2887'', str ''SIMDIS''} \<longrightarrow>
          D2887_to_TBP_direct (lift_points pts) = Inr (TBP_interp ol)
          \<and> px (TBP_interp ol) = [0, 10, 30, 50, 70, 90, 100])
    \<and> (upper tag = str ''TBP'' \<longrightarrow>
          interp_of (lift_points pts) = Inr (TBP_interp ol)
          \<and> px (TBP_interp ol) = map fst pts)"
proof -
  note s = Oil_init_Inr[OF assms]
  then have c: "Oil_curves (lift_points pts) tag
           = Inr (D86 ol, D86_interp ol, TBP_interp ol, Daubert_TBP_interp ol, D2887_interp ol)"
    by simp
  have da: "px (Daubert_TBP_interp ol) = [0, 10, 30, 50, 70, 90, 95]"
    using Oil_curves_interp[OF c] by simp
  have dp: "Daubert_ASTM_D86_TBP (D86 ol) = Inr (Daubert_TBP_interp ol)"
    using Oil_curves_tag[OF c]
  proof (elim disjE)
    assume t: "upper tag = str ''D86''"
    from Oil_curves_D86[OF t c] show ?thesis by simp
  next
    assume t: "upper tag \<in> {str ''D2887'', str ''SIMDIS''}"
    from Oil_curves_D2887[OF t c] show ?thesis by simp
  next
    assume t: "upper tag = str ''TBP''"
    from Oil_curves_TBP[OF t c] show ?thesis by simp
  qed
  have a: "API_D86_TBP (lift_points pts) = Inr (D86_interp ol, TBP_interp ol)
           \<and> px (TBP_interp ol) = [0, 10, 30, 50, 70, 90, 95]" if "upper tag = str ''D86''"
    using Oil_curves_D86[OF that c] API_D86_TBP_Inr(2)[of "lift_points pts"]
    by (simp add: vol_distl_list_def)
  have b: "D2887_to_TBP_direct (lift_points pts) = Inr (TBP_interp ol)
           \<and> px (TBP_interp ol) = [0, 10, 30, 50, 70, 90, 100]"
    if "upper tag \<in> {str ''D2887'', str ''SIMDIS''}"
    using Oil_curves_D2887[OF that c] D2887_to_TBP_direct_px[of "lift_points pts"]
    by (simp add: key_points_def)
  have e: "interp_of (lift_points pts) = Inr (TBP_interp ol)
           \<and> px (TBP_interp ol) = map fst pts" if "upper tag = str ''TBP''"
  proof -
    from Oil_curves_TBP[OF that c] have i: "interp_of (lift_points pts) = Inr (TBP_interp ol)"
      by (simp add: TBP_to_TBP_interp_def)
    from interp_of_px[OF this] i show ?thesis
      by (simp add: lift_points_def comp_def case_prod_beta)
  qed
  from dp da a b e extrapolate_above_95 show ?thesis by blast
qed

theorem TBP_knots_witness:
  "(\<exists>ol. Oil_init [(0, 160), (50, 225), (100, 290)] 820 (str ''D86'') = Inr ol
     \<and> Daubert_ASTM_D86_TBP (lift_points [(0, 160), (50, 225), (100, 290)])
         = Inr (Daubert_TBP_interp ol)
     \<and> API_D86_TBP (lift_points [(0, 160), (50, 225), (100, 290)])
         = Inr (D86_interp ol, TBP_interp ol)
     \<and> px (Daubert_TBP_interp ol) = [0, 10, 30, 50, 70, 90, 95]
     \<and> px (TBP_interp ol) = [0, 10, 30, 50, 70, 90, 95]
     \<and> pchip_eval (TBP_interp ol) 100 = eval_poly (pc (TBP_interp ol) ! 5) (100 - 90))
   \<and> (\<exists>ol. Oil_init D2887_sample 820 (str ''D2887'') = Inr ol
     \<and> D2887_to_TBP_direct (lift_points D2887_sample) = Inr (TBP_interp ol)
     \<and> px (Daubert_TBP_interp ol) = [0, 10, 30, 50, 70, 90, 95]
     \<and> px (TBP_interp ol) = [0, 10, 30, 50, 70, 90, 100])"
proof -
  from three_points_ok obtain ol
    where ol: "Oil_init [(0, 160), (50, 225), (100, 290)] 820 (str ''D86'') = Inr ol" by blast
  from Oil_init_Inr[OF ol] Oil_curves_D86[OF upper_D86]
  have d: "D86 ol = lift_points [(0, 160), (50, 225), (100, 290)]" by blast
  from D2887_sample_ok obtain ol' where ol': "Oil_init D2887_sample 820 (str ''D2887'') = Inr ol'"
    by blast
  from TBP_knots[OF ol] upper_D86 d
  have a: "Daubert_ASTM_D86_TBP (lift_points [(0, 160), (50, 225), (100, 290)])
         = Inr (Daubert_TBP_interp ol)
     \<and> API_D86_TBP (lift_points [(0, 160), (50, 225), (100, 290)])
         = Inr (D86_interp ol, TBP_interp ol)
     \<and> px (Daubert_TBP_interp ol) = [0, 10, 30, 50, 70, 90, 95]
     \<and> px (TBP_interp ol) = [0, 10, 30, 50, 70, 90, 95]
     \<and> pchip_eval (TBP_interp ol) 100 = eval_poly (pc (TBP_interp ol) ! 5) (100 - 90)"
    by simp
  from TBP_knots[OF ol'] upper_D2887
  have b: "D2887_to_TBP_direct (lift_points D2887_sample) = Inr (TBP_interp ol')
     \<and> px (Daubert_TBP_interp ol') = [0, 10, 30, 50, 70, 90, 95]
     \<and> px (TBP_interp ol') = [0, 10, 30, 50, 70, 90, 100]"
    by simp
  from a b ol ol' show ?thesis by blast
qed

text \<open>
  The exposed TBP interpolant of the sample constructed from the D2887 sample curve has a
  knot at 100 and none at 95.
\<close>

theorem D2887_TBP_knot_at_100:
  "\<not> isl (Oil_init D2887_sample 820 (str ''D2887''))
   \<and> px (TBP_interp (projr (Oil_init D2887_sample 820 (str ''D2887''))))
       = [0, 10, 30, 50, 70, 90, 100]"
proof -
  from D2887_sample_ok obtain ol where ol: "Oil_init D2887_sample 820 (str ''D2887'') = Inr ol"
    by blast
  have t: "upper (str ''D2887'') \<in> {str ''D2887'', str ''SIMDIS''}" by (simp add: upper_D2887)
  from Oil_init_Inr[OF ol] Oil_curves_D2887[OF t]
  have "D2887_to_TBP_direct (lift_points D2887_sample) = Inr (TBP_interp ol)" by blast
  from D2887_to_TBP_direct_px[OF this] show ?thesis unfolding ol by (simp add: key_points_def)
qed


section \<open>Bounds on powers with an exponent \<open>1 / b\<close>\<close>

lemma inverse_powr_upper_frac:
  fixes X b c :: real
  assumes X: "1 \<le> X" and c: "0 < c" and q: "0 < q"
    and le: "c ^ q \<le> X ^ p" and f: "real p / real q \<le> 1 - 1 / b"
  shows "X powr (1 / b) \<le> X / c"
proof -
  have "c \<le> (X ^ p) powr (1 / real q)"
    using c q le by (intro powr_root_lower) simp_all
  also have "(X ^ p) powr (1 / real q) = X powr (real p / real q)"
  proof -
    have "X ^ p = X powr (real p)" using X by (intro powr_realpow[symmetric]) simp
    then have "(X ^ p) powr (1 / real q) = X powr (real p * (1 / real q))"
      by (simp only: powr_powr)
    then show ?thesis by simp
  qed
  also have "\<dots> \<le> X powr (1 - 1 / b)"
    using X f by (intro powr_mono) simp_all
  finally have u: "c \<le> X powr (1 - 1 / b)" .
  have "X powr (1 / b) = X powr (1 - (1 - 1 / b))" by simp
  also have "\<dots> = X powr 1 / X powr (1 - 1 / b)" by (rule powr_diff)
  also have "\<dots> = X / X powr (1 - 1 / b)" using X by simp
  also have "\<dots> \<le> X / c"
    using u c X by (intro divide_left_mono) (simp_all add: mult_pos_pos)
  finally show ?thesis .
qed


lemma inverse_powr_lower:
  fixes X b c :: real
  assumes "1 \<le> X" "X \<le> c ^ n" "0 < c" "0 < n" "1 \<le> b" "1 - 1 / b \<le> 1 / real n"
  shows "X / c \<le> X powr (1 / b)"
  using assms by (intro powr_near_one(1)[where n = n]) simp_all




lemma pow_10133_512: "861 \<le> (1.0133 :: real) ^ 512"
proof -
  have "1.02677 \<le> (1.0133 :: real) ^ 2" by (simp add: power2_eq_square)
  from sq_down[OF this, where b = "1.05425"] have "1.05425 \<le> (1.0133 :: real) ^ 4" by simp
  from sq_down[OF this, where b = "1.11144"] have "1.11144 \<le> (1.0133 :: real) ^ 8" by simp
  from sq_down[OF this, where b = "1.23529"] have "1.23529 \<le> (1.0133 :: real) ^ 16" by simp
  from sq_down[OF this, where b = "1.52594"] have "1.52594 \<le> (1.0133 :: real) ^ 32" by simp
  from sq_down[OF this, where b = "2.32849"] have "2.32849 \<le> (1.0133 :: real) ^ 64" by simp
  from sq_down[OF this, where b = "5.42186"] have "5.42186 \<le> (1.0133 :: real) ^ 128" by simp
  from sq_down[OF this, where b = "29.3965"] have "29.3965 \<le> (1.0133 :: real) ^ 256" by simp
  from sq_down[OF this, where b = "861"] show ?thesis by simp
qed


lemma test_powers: "(1.82 :: real) ^ 49 \<le> 1543 ^ 4"
  by (simp add: power_divide divide_le_eq le_divide_eq)


section \<open>When the D2887 and TBP families construct\<close>

lemma TBP_point_value:
  "TBP_point p vol =
     Inr (vol, case (case map_of API_constants vol of None \<Rightarrow> (0.9167, 1.0019) | Some ab \<Rightarrow> ab)
               of (a, b) \<Rightarrow> api_inverse_C a b (pchip_eval p vol))"
  by (simp add: TBP_point_def api_inverse_C_def Let_def split: prod.splits)

lemma TBP_to_D86_value:
  assumes "interp_of l = Inr p"
  shows "TBP_to_D86 l =
     Inr [(0, api_inverse_C 0.9167 1.0019 (pchip_eval p 0)),
          (10, api_inverse_C 0.5277 1.0900 (pchip_eval p 10)),
          (30, api_inverse_C 0.7429 1.0425 (pchip_eval p 30)),
          (50, api_inverse_C 0.8920 1.0176 (pchip_eval p 50)),
          (70, api_inverse_C 0.8705 1.0226 (pchip_eval p 70)),
          (90, api_inverse_C 0.9490 1.0110 (pchip_eval p 90)),
          (95, api_inverse_C 0.8008 1.0355 (pchip_eval p 95)),
          (100, api_inverse_C 0.9167 1.0019 (pchip_eval p 100))]"
  using assms by (simp add: TBP_to_D86_def TBP_point_value API_constants_def)







lemma Daubert_decreasing_fails:
  assumes D: "interp_of l = Inr D" and g: "pchip_eval D 10 < pchip_eval D 0"
  shows "Daubert_ASTM_D86_TBP l = Inl NonFiniteValue"
proof -
  from Daubert_D86_dict_r_ok[OF D] obtain d f where df: "Daubert_D86_dict_r l = Inr d"
    "f = (\<lambda>c. c) \<or> f = (\<lambda>c. c * 9 / 5 + 32)"
    "\<And>k. k \<in> set dist_required \<Longrightarrow> d k = Some (Some (f (pchip_eval D k)))"
    by blast
  have r: "d 0 = Some (Some (f (pchip_eval D 0)))" "d 10 = Some (Some (f (pchip_eval D 10)))"
    "d 30 = Some (Some (f (pchip_eval D 30)))" "d 50 = Some (Some (f (pchip_eval D 50)))"
    "d 70 = Some (Some (f (pchip_eval D 70)))" "d 90 = Some (Some (f (pchip_eval D 90)))"
    "d 95 = Some (Some (f (pchip_eval D 95)))"
    using df(3) by (simp_all add: dist_required_def)
  have neg: "f (pchip_eval D 10) - f (pchip_eval D 0) < 0" using df(2) g by auto
  obtain ys where ys: "Daubert_TBP_r_list d = Inr ys" "length ys = 7" "snd (ys ! 0) = None"
    using neg
    by (simp add: Daubert_TBP_r_list_def Daubert_TBP_50_def Daubert_power_def dict_read_def
          dict_get_def Daubert_constants_def r lift2_def Let_def split: option.splits)
  define g where "g = (\<lambda>(vol :: real, t :: flt). (vol, map_option (\<lambda>f. (f - 32) * 5 / 9) t))"
  have m: "mapM_err (\<lambda>(vol, t).
             bind_err (convert_temperature t (str ''F'') (str ''C'')) (\<lambda>c. Inr (vol, c))) ys
           = Inr (map g ys)"
    by (rule mapM_err_map) (auto simp: g_def split: prod.splits)
  have "ys \<noteq> []" using ys(2) by auto
  then have "snd (hd (map g ys)) = None"
    using ys(3) by (cases ys) (auto simp: g_def split: prod.splits)
  then have nf: "\<not> all_finite (map snd (map g ys))"
    using \<open>ys \<noteq> []\<close> by (cases ys) (auto simp: all_finite_def)
  have "interp_of (map g ys) = Inl NonFiniteValue"
    using nf ys(2) by (simp add: interp_of_def PchipInterpolator_def)
  then show ?thesis
    by (simp only: Daubert_ASTM_D86_TBP_def df(1) ys(1) m bind_err_Inr)
qed

lemma api_inverse_C_value:
  "0 \<le> (t + 273.15) * 9 / 5 / a \<Longrightarrow>
   api_inverse_C a b t = Some ((((t + 273.15) * 9 / 5 / a) powr (1 / b) - 491.67) * 5 / 9)"
  by (simp add: api_inverse_C_def Let_def)

lemma api_inverse_C_Some:
  assumes "0 \<le> t + 273.15" "0 < a"
  shows "\<exists>y. api_inverse_C a b t = Some y \<and> 0 \<le> y + 273.15"
proof -
  have "0 \<le> (t + 273.15) * 9 / 5 / a" using assms by simp
  from api_inverse_C_value[OF this, of b]
  have "api_inverse_C a b t = Some ((((t + 273.15) * 9 / 5 / a) powr (1 / b) - 491.67) * 5 / 9)" .
  moreover have "0 \<le> (((t + 273.15) * 9 / 5 / a) powr (1 / b) - 491.67) * 5 / 9 + 273.15"
  proof -
    define y where "y = ((t + 273.15) * 9 / 5 / a) powr (1 / b)"
    have "0 \<le> y" by (simp add: y_def)
    then have "0 \<le> (y - 491.67) * 5 / 9 + 273.15" by (simp add: field_simps)
    then show ?thesis unfolding y_def .
  qed
  ultimately show ?thesis by blast
qed

lemma api_inverse_step:
  fixes X b X' b' u l :: real
  assumes "X powr (1 / b) \<le> u" "l \<le> X' powr (1 / b')" "u < l"
  shows "(X powr (1 / b) - 491.67) * 5 / 9 < (X' powr (1 / b') - 491.67) * 5 / 9"
  using assms by simp





section \<open>A TBP curve that does not construct\<close>

text \<open>
  On the TBP curve of \<^verbatim>\<open>test_init_with_tbp\<close> the inverse API relation puts the D86
  temperature of key 10 below the one of key 0.  The first Daubert increment is then the
  power of a negative gap, which is not a number, and the interpolator of the Daubert curve
  rejects it.
\<close>

lemma Oil_init_TBP_decreasing:
  assumes tag: "upper tag = str ''TBP''"
    and P: "interp_of (lift_points pts) = Inr P"
    and lo: "\<And>v. v \<in> set [0, 10, 30, 50, 70, 90, 95, 100] \<Longrightarrow> 0 \<le> pchip_eval P v + 273.15"
    and c: "api_inverse_C 0.9167 1.0019 (pchip_eval P 0) = Some c0"
      "api_inverse_C 0.5277 1.0900 (pchip_eval P 10) = Some c10" "c10 < c0"
  shows "Oil_init pts d tag = Inl NonFiniteValue"
proof -
  let ?l = "lift_points pts"
  have z0: "0 \<le> c0 + 273.15"
    using api_inverse_C_Some[of "pchip_eval P 0" "0.9167" "1.0019"] lo[of 0] c(1) by auto
  have z10: "0 \<le> c10 + 273.15"
    using api_inverse_C_Some[of "pchip_eval P 10" "0.5277" "1.0900"] lo[of 10] c(2) by auto
  obtain y30 where y30: "api_inverse_C 0.7429 1.0425 (pchip_eval P 30) = Some y30"
    "0 \<le> y30 + 273.15"
    using api_inverse_C_Some[of "pchip_eval P 30" "0.7429" "1.0425"] lo[of 30] by auto
  obtain y50 where y50: "api_inverse_C 0.8920 1.0176 (pchip_eval P 50) = Some y50"
    "0 \<le> y50 + 273.15"
    using api_inverse_C_Some[of "pchip_eval P 50" "0.8920" "1.0176"] lo[of 50] by auto
  obtain y70 where y70: "api_inverse_C 0.8705 1.0226 (pchip_eval P 70) = Some y70"
    "0 \<le> y70 + 273.15"
    using api_inverse_C_Some[of "pchip_eval P 70" "0.8705" "1.0226"] lo[of 70] by auto
  obtain y90 where y90: "api_inverse_C 0.9490 1.0110 (pchip_eval P 90) = Some y90"
    "0 \<le> y90 + 273.15"
    using api_inverse_C_Some[of "pchip_eval P 90" "0.9490" "1.0110"] lo[of 90] by auto
  obtain y95 where y95: "api_inverse_C 0.8008 1.0355 (pchip_eval P 95) = Some y95"
    "0 \<le> y95 + 273.15"
    using api_inverse_C_Some[of "pchip_eval P 95" "0.8008" "1.0355"] lo[of 95] by auto
  obtain y100 where y100: "api_inverse_C 0.9167 1.0019 (pchip_eval P 100) = Some y100"
    "0 \<le> y100 + 273.15"
    using api_inverse_C_Some[of "pchip_eval P 100" "0.9167" "1.0019"] lo[of 100] by auto
  define d86 where "d86 = [(0 :: real, Some c0), (10, Some c10), (30, Some y30), (50, Some y50),
      (70, Some y70), (90, Some y90), (95, Some y95), (100, Some y100)]"
  have n: "TBP_to_D86 ?l = Inr d86"
    unfolding TBP_to_D86_value[OF P] c(1,2) y30(1) y50(1) y70(1) y90(1) y95(1) y100(1) d86_def ..
  obtain D where D: "interp_of d86 = Inr D"
    by (simp add: interp_of_eq_Inr d86_def all_finite_simps)
  have m: "(0, Some c0) \<in> set d86" "(10, Some c10) \<in> set d86" "(30, Some y30) \<in> set d86"
    "(50, Some y50) \<in> set d86" "(70, Some y70) \<in> set d86" "(90, Some y90) \<in> set d86"
    "(95, Some y95) \<in> set d86"
    by (simp_all add: d86_def)
  have e: "pchip_eval D 0 = c0" "pchip_eval D 10 = c10" "pchip_eval D 30 = y30"
    "pchip_eval D 50 = y50" "pchip_eval D 70 = y70" "pchip_eval D 90 = y90"
    "pchip_eval D 95 = y95"
    using m[THEN interp_of_at_point[OF D]] by simp_all
  have "\<exists>T. API_D86_TBP d86 = Inr (D, T)"
  proof (rule API_D86_TBP_ok[OF D])
    fix vol assume "vol \<in> set vol_distl_list"
    then consider "vol = 0" | "vol = 10" | "vol = 30" | "vol = 50" | "vol = 70" | "vol = 90"
      | "vol = 95" by (auto simp: vol_distl_list_def)
    then show "0 \<le> pchip_eval D vol + 273.15"
      using z0 z10 y30(2) y50(2) y70(2) y90(2) y95(2) by cases (simp_all add: e)
  qed
  then obtain T where T: "API_D86_TBP d86 = Inr (D, T)" by blast
  have F: "Daubert_ASTM_D86_TBP d86 = Inl NonFiniteValue"
    by (rule Daubert_decreasing_fails[OF D]) (simp add: e c(3))
  have u: "upper tag \<noteq> str ''D86''" "upper tag \<noteq> str ''D2887''" "upper tag \<noteq> str ''SIMDIS''"
    using tag by auto
  show ?thesis
    using n T P F tag u
    by (simp add: Oil_init_def Oil_curves_def TBP_to_TBP_interp_def Let_def)
qed

lemma TBP_test_eval:
  "pchip_eval (pchip_of [0, 50, 100] [165, 235, 300]) 10 = 121097 / 675"
  by (simp add: pchip_eval_def pchip_of_def hermite_coeffs_def find_derivatives_def hk_of_def
        mk_of_def edge_case_def interior_derivative_def hermite_tuple_def eval_poly_def Let_def
        upt_rec power3_eq_cube power2_eq_square)

lemma wf_TBP_test: "well_formed_curve (lift_points TBP_test_curve)"
  by (simp add: well_formed_curve_def lift_points_def TBP_test_curve_def all_finite_simps)

lemma upper_TBP: "upper (str ''TBP'') = str ''TBP''"
  by (simp add: str_def upper_cp_ascii)

lemma TBP_test_fails: "Oil_init TBP_test_curve 820 (str ''TBP'') = Inl NonFiniteValue"
proof -
  let ?l = "lift_points TBP_test_curve"
  define P where "P = pchip_of [0, 50, 100] [165, 235, 300]"
  have P: "interp_of ?l = Inr P"
    by (simp add: interp_of_eq_Inr lift_points_def TBP_test_curve_def all_finite_simps P_def)
  have e0: "pchip_eval P 0 = 165"
    using interp_of_at_point[OF P, of 0 "Some 165"]
    by (simp add: lift_points_def TBP_test_curve_def)
  have e10: "pchip_eval P 10 = 121097 / 675" unfolding P_def by (rule TBP_test_eval)
  have lo: "0 \<le> pchip_eval P v + 273.15" if "v \<in> set [0, 10, 30, 50, 70, 90, 95, 100]" for v
  proof -
    have r: "0 \<le> v" "v \<le> 100" using that by auto
    have "pchip_eval P (fst (hd ?l)) \<le> pchip_eval P v"
      using r by (intro well_formed_mono[OF wf_TBP_test P])
                 (simp_all add: lift_points_def TBP_test_curve_def)
    then have "165 \<le> pchip_eval P v"
      using e0 by (simp add: lift_points_def TBP_test_curve_def)
    then show ?thesis by simp
  qed
  let ?X0 = "(165 + 273.15) * 9 / 5 / 0.9167 :: real"
  let ?X10 = "(121097 / 675 + 273.15) * 9 / 5 / 0.5277 :: real"
  define c0 where "c0 = (?X0 powr (1 / 1.0019) - 491.67) * 5 / 9"
  define c10 where "c10 = (?X10 powr (1 / 1.0900) - 491.67) * 5 / 9"
  have a0: "api_inverse_C 0.9167 1.0019 (pchip_eval P 0) = Some c0"
    unfolding e0 c0_def by (rule api_inverse_C_value) simp
  have a10: "api_inverse_C 0.5277 1.0900 (pchip_eval P 10) = Some c10"
    unfolding e10 c10_def by (rule api_inverse_C_value) simp
  have L0: "?X0 / 1.0133 \<le> ?X0 powr (1 / 1.0019)"
    using pow_10133_512 by (intro inverse_powr_lower[where n = 512]) simp_all
  have "(1.82 :: real) ^ 49 \<le> 1543 ^ 4" by (rule test_powers)
  also have "(1543 :: real) ^ 4 \<le> ?X10 ^ 4" by (rule power_mono) simp_all
  finally have "(1.82 :: real) ^ 49 \<le> ?X10 ^ 4" .
  then have U10: "?X10 powr (1 / 1.0900) \<le> ?X10 / 1.82"
    by (intro inverse_powr_upper_frac[where p = 4 and q = 49]) simp_all
  have "c10 < c0"
    unfolding c0_def c10_def by (rule api_inverse_step[OF U10 L0]) simp
  from Oil_init_TBP_decreasing[OF upper_TBP P lo a0 a10 this] show ?thesis .
qed


section \<open>Construction by family\<close>










end
